(* ===== verification/Prelude.thy ===== *)
theory Prelude
  imports Main "HOL-Library.Word"
begin

section \<open>Shared vocabulary and generic lemmas\<close>

text \<open>
  The vocabulary every component uses. A Go \<open>string\<close> and a Go \<open>[]byte\<close> are both
  sequences of bytes, and an Isabelle character is exactly one byte, so both are
  \<^typ>\<open>string\<close> and the conversions \<open>[]byte(s)\<close> and \<open>string(b)\<close> are the identity.
  An instant (\<open>time.Time\<close>) and a \<open>time.Duration\<close> are nanoseconds, as \<^typ>\<open>int\<close>.
  The theory also holds the facts on separators, big-endian numbers, fixed-width
  concatenations and residues that the component theories share, and the development's
  theorem collections.
\<close>

named_theorems handler_defs \<open>definitions of the request handlers and middlewares\<close>
named_theorems blst_simps \<open>the elementary laws of the curve library\<close>

type_synonym bytes = string
type_synonym duration = int
type_synonym instant = int

abbreviation NUL :: char where
  "NUL \<equiv> CHR 0x00"

abbreviation second :: duration where
  "second \<equiv> 1000000000"

subsection \<open>Separators and fixed-width fields\<close>

text \<open>
  Two joined strings agree only if their parts do, when the separator does not occur in the
  first parts: the fact behind every key and every hash input the program builds.
\<close>

lemma sep_append_eq_iff:
  assumes "c \<notin> set xs" and "c \<notin> set xs'"
  shows "xs @ c # ys = xs' @ c # ys' \<longleftrightarrow> xs = xs' \<and> ys = ys'"
proof
  assume "xs @ c # ys = xs' @ c # ys'"
  then obtain us where
    "xs = xs' @ us \<and> us @ c # ys = c # ys' \<or> xs @ us = xs' \<and> c # ys = us @ c # ys'"
    by (auto simp: append_eq_append_conv2)
  with assms show "xs = xs' \<and> ys = ys'"
    by (cases us) auto
qed simp

lemma append_same_suffix_length:
  assumes "length ys = length ys'"
  shows "xs @ ys = xs' @ ys' \<longleftrightarrow> xs = xs' \<and> ys = ys'"
  using assms by simp

subsection \<open>Results: errors as the left summand\<close>

text \<open>A Go function returning \<open>(v, err)\<close> is a sum: \<open>Inl err\<close> or \<open>Inr v\<close>.\<close>

definition ok :: "'e + 'a \<Rightarrow> bool" where
  "ok r = (case r of Inl _ \<Rightarrow> False | Inr _ \<Rightarrow> True)"

lemma ok_simps [simp]: "ok (Inr v)" "\<not> ok (Inl e)"
  by (simp_all add: ok_def)

lemma ok_iff: "ok r \<longleftrightarrow> (\<exists>v. r = Inr v)"
  by (cases r) simp_all

subsection \<open>Big-endian numbers\<close>

text \<open>\<open>big.Int.SetBytes\<close>: the value of a byte string, most significant byte first.\<close>

definition be_val :: "bytes \<Rightarrow> int" where
  "be_val bs = foldl (\<lambda>a c. a * 256 + of_char c) 0 bs"

lemma be_val_Nil [simp]: "be_val [] = 0"
  by (simp add: be_val_def)

lemma be_val_snoc [simp]: "be_val (bs @ [c]) = be_val bs * 256 + of_char c"
  by (simp add: be_val_def)

lemma of_char_nonneg: "0 \<le> (of_char c :: int)"
  by (metis of_nat_0_le_iff of_nat_of_char)

lemma of_char_less: "(of_char c :: int) < 256"
  using nat_of_char_less_256 [of c] by (metis of_nat_less_iff of_nat_numeral of_nat_of_char)

lemmas of_char_range = of_char_nonneg of_char_less

text \<open>The \<open>k\<close>-byte big-endian encoding of a number, and its inverse.\<close>

fun be_bytes :: "nat \<Rightarrow> int \<Rightarrow> bytes" where
  "be_bytes 0 n = []"
| "be_bytes (Suc k) n = be_bytes k (n div 256) @ [char_of (n mod 256)]"

lemma length_be_bytes [simp]: "length (be_bytes k n) = k"
  by (induction k arbitrary: n) simp_all

lemma be_val_be_bytes: "0 \<le> n \<Longrightarrow> n < 256 ^ k \<Longrightarrow> be_val (be_bytes k n) = n"
proof (induction k arbitrary: n)
  case (Suc k)
  then have "0 \<le> n div 256" and "n div 256 < 256 ^ k"
    by (simp_all add: pos_imp_zdiv_nonneg_iff div_less_iff_less_mult mult.commute)
  then have "be_val (be_bytes k (n div 256)) = n div 256"
    by (rule Suc.IH)
  then show ?case by simp
qed simp

lemma be_val_nonneg: "0 \<le> be_val bs"
  by (induction bs rule: rev_induct) (use of_char_range in simp_all)

lemma be_val_bound: "be_val bs < 256 ^ length bs"
proof (induction bs rule: rev_induct)
  case (snoc c bs)
  have "be_val bs * 256 + of_char c < (be_val bs + 1) * 256"
    using of_char_range(2) [of c] by simp
  also have "\<dots> \<le> 256 ^ length bs * 256"
    using snoc.IH by (intro mult_right_mono) simp_all
  finally show ?case by (simp add: mult.commute)
qed simp

lemma be_bytes_be_val: "be_bytes (length bs) (be_val bs) = bs"
  by (induction bs rule: rev_induct) (simp_all add: of_char_range div_pos_pos_trivial)

lemma be_val_inj: "length a = length b \<Longrightarrow> be_val a = be_val b \<longleftrightarrow> a = b"
  by (metis be_bytes_be_val)

subsection \<open>Residues\<close>

text \<open>
  The group of order \<open>n\<close> the curve library works in is reasoned about through residues.
\<close>

lemma mod_mult_assoc_left: "((a * b) mod n * c) mod n = (a * (b * c)) mod (n::int)"
  by (simp add: mod_mult_left_eq mult.assoc)

lemma mod_add_mult_left: "(x + (y mod n) * c) mod n = (x + y * c) mod (n::int)"
  by (metis mod_add_right_eq mod_mult_left_eq)

lemma mod_range_eq: "0 \<le> a \<Longrightarrow> a < n \<Longrightarrow> a mod n = (a::int)"
  by simp

lemma mod_cancel_unit:
  fixes a b u v n :: int
  assumes unit: "(u * v) mod n = 1 mod n"
    and eq: "(u * a) mod n = (u * b) mod n"
  shows "a mod n = b mod n"
proof -
  have "((u * v) mod n * a) mod n = ((u * v) mod n * b) mod n"
    by (metis eq mod_mult_right_eq mod_mult_left_eq mult.assoc mult.commute)
  then show ?thesis
    by (simp add: unit mod_mult_left_eq)
qed

text \<open>
  The state an operation ends in, along its early returns: one rule for each kind of branch, so
  that a goal on a body of nested cases is split once per branch.
\<close>

lemma snd_in_case:
  "(\<And>e. snd (f e) \<in> S) \<Longrightarrow> (\<And>x. snd (g x) \<in> S) \<Longrightarrow> snd (case_sum f g r) \<in> S"
  "snd n \<in> S \<Longrightarrow> (\<And>x. snd (g x) \<in> S) \<Longrightarrow> snd (case_option n g ov) \<in> S"
  "snd a \<in> S \<Longrightarrow> snd b \<in> S \<Longrightarrow> snd (if c then a else b) \<in> S"
  by (cases r; simp) (cases ov; simp)+

end
