(* ===== verification/Apperr.thy ===== *)
theory Apperr
  imports Prelude
begin

section \<open>Errors (pkg/apperr, pkg/errors, service.ValidationErrors)\<close>

text \<open>
  The error values of the program: \<open>errors.New\<close> and \<open>fmt.Errorf\<close> values, values wrapped
  with \<open>%w\<close>, the coded \<open>*apperr.Error\<close>, the list \<open>service.ValidationErrors\<close>, and the
  sentinels that are compared by identity (\<open>redis.Nil\<close>, \<open>ErrRequestNotFound\<close>). The
  operations are \<open>New\<close>, \<open>Wrap\<close>, \<open>Error\<close>, \<open>CodeOf\<close> and \<open>HTTPStatus\<close>.
\<close>

subsection \<open>Codes\<close>

text \<open>\<open>apperr.Code\<close> is a string type with eight constants; any other string is \<open>CodeOther\<close>.\<close>

datatype code =
    CodeInvalidArgument
  | CodeNotFound
  | CodeAlreadyExists
  | CodeUnauthorized
  | CodeForbidden
  | CodeInternal
  | CodeUnavailable
  | CodeTooManyRequest
  | CodeOther string

fun HTTPStatus :: "code \<Rightarrow> nat" where
  "HTTPStatus CodeInvalidArgument = 400"
| "HTTPStatus CodeUnauthorized = 401"
| "HTTPStatus CodeForbidden = 403"
| "HTTPStatus CodeNotFound = 404"
| "HTTPStatus CodeAlreadyExists = 409"
| "HTTPStatus CodeUnavailable = 503"
| "HTTPStatus CodeTooManyRequest = 429"
| "HTTPStatus _ = 500"

subsection \<open>Error values\<close>

datatype goerr =
    Errorf string
  | Sentinel string
  | Wrapf string goerr
  | AppError code string "goerr option"
  | ValidationErrors "goerr list"

type_synonym 'a result = "goerr + 'a"

text \<open>\<open>ValidationErrors.Error\<close> of \<open>internal/service\<close>, given the texts of its errors, and \<open>err.Error()\<close>.\<close>

definition verr_text :: "string list \<Rightarrow> string" where
  "verr_text errs = ''configuration invalid:'' @ CHR 0x0A # concat (map (\<lambda>err. ''  - '' @ err @ [CHR 0x0A]) errs)"

fun error_text :: "goerr \<Rightarrow> string" where
  "error_text (Errorf m) = m"
| "error_text (Sentinel m) = m"
| "error_text (Wrapf m e) = m @ '': '' @ error_text e"
| "error_text (AppError c m None) = m"
| "error_text (AppError c m (Some e)) = m @ '': '' @ error_text e"
| "error_text (ValidationErrors es) = verr_text (map error_text es)"

text \<open>
  \<open>apperr.New\<close> and \<open>apperr.Wrap\<close>; the error passed to \<open>Wrap\<close> may be nil. \<open>Newf\<close> is
  \<open>New\<close> on a formatted message.
\<close>

definition apperr_New :: "code \<Rightarrow> string \<Rightarrow> goerr" where
  "apperr_New c msg = AppError c msg None"

definition apperr_Wrap :: "code \<Rightarrow> goerr option \<Rightarrow> string \<Rightarrow> goerr" where
  "apperr_Wrap c err msg = AppError c msg err"

text \<open>\<open>pkg/errors\<close>: \<open>New\<close> and \<open>Wrap\<close> log and return a plain error without a code.\<close>

definition errors_New :: "string \<Rightarrow> goerr" where
  "errors_New msg = Errorf msg"

definition errors_Wrap :: "goerr \<Rightarrow> string \<Rightarrow> goerr" where
  "errors_Wrap err msg = Wrapf msg err"

text \<open>
  \<open>errors.As(err, &e)\<close> for \<open>e *apperr.Error\<close> walks the chain of wrapped errors and stops
  at the first \<open>*apperr.Error\<close>; \<open>ValidationErrors\<close> has no \<open>Unwrap\<close>.
\<close>

fun as_apperr :: "goerr \<Rightarrow> (code \<times> string \<times> goerr option) option" where
  "as_apperr (AppError c m w) = Some (c, m, w)"
| "as_apperr (Wrapf m e) = as_apperr e"
| "as_apperr _ = None"

definition CodeOf :: "goerr option \<Rightarrow> code" where
  "CodeOf err = (case err of
       None \<Rightarrow> CodeOther ''''
     | Some e \<Rightarrow> (case as_apperr e of Some (c, _, _) \<Rightarrow> c | None \<Rightarrow> CodeInternal))"

subsection \<open>Accumulated validation errors\<close>

text \<open>
  \<open>ValidationErrors.Add\<close> drops nil; \<open>Err\<close> is nil for an empty list, the error itself for
  one, the list otherwise.
\<close>

definition verr_Add :: "goerr list \<Rightarrow> goerr option \<Rightarrow> goerr list" where
  "verr_Add v err = (case err of None \<Rightarrow> v | Some e \<Rightarrow> v @ [e])"

fun verr_Err :: "goerr list \<Rightarrow> goerr option" where
  "verr_Err [] = None"
| "verr_Err [e] = Some e"
| "verr_Err es = Some (ValidationErrors es)"

subsection \<open>Lemmas\<close>

lemma CodeOf_New [simp]: "CodeOf (Some (apperr_New c m)) = c"
  by (simp add: CodeOf_def apperr_New_def)

lemma CodeOf_Wrap [simp]: "CodeOf (Some (apperr_Wrap c e m)) = c"
  by (simp add: CodeOf_def apperr_Wrap_def)

lemma CodeOf_AppError [simp]: "CodeOf (Some (AppError c m w)) = c"
  by (simp add: CodeOf_def)

lemma CodeOf_errors_New [simp]: "CodeOf (Some (errors_New m)) = CodeInternal"
  by (simp add: CodeOf_def errors_New_def)

lemma CodeOf_errors_Wrap [simp]: "CodeOf (Some (errors_Wrap e m)) = CodeOf (Some e)"
  by (simp add: CodeOf_def errors_Wrap_def)

lemma verr_Err_None_iff [simp]: "verr_Err v = None \<longleftrightarrow> v = []"
  by (cases v rule: verr_Err.cases) simp_all

lemma verr_Add_None [simp]: "verr_Add v None = v"
  and verr_Add_Some [simp]: "verr_Add v (Some e) = v @ [e]"
  by (simp_all add: verr_Add_def)

text \<open>Every status the table gives is an error status, and only the default row is 500.\<close>

lemma HTTPStatus_range: "400 \<le> HTTPStatus c \<and> HTTPStatus c \<le> 503"
  by (cases c) simp_all

lemma HTTPStatus_server_iff:
  "500 \<le> HTTPStatus c \<longleftrightarrow> c = CodeInternal \<or> c = CodeUnavailable \<or> (\<exists>s. c = CodeOther s)"
  by (cases c) simp_all

end
