(* ===== verification/GoStd.thy ===== *)
theory GoStd
  imports Apperr
begin

section \<open>The parts of Go's standard library the program computes with\<close>

text \<open>
  \<open>encoding/hex\<close>, \<open>strconv.Atoi\<close>, \<open>strconv.ParseBool\<close>, \<open>strings.TrimSpace\<close>,
  \<open>strings.Split\<close>, \<open>strings.SplitN\<close>, ASCII \<open>strings.EqualFold\<close> and
  \<open>net.SplitHostPort\<close>, as they behave on byte strings. Each is executable.
\<close>

subsection \<open>encoding/hex\<close>

definition hextable :: string where
  "hextable = ''0123456789abcdef''"

definition hex_digit :: "nat \<Rightarrow> char" where
  "hex_digit n = hextable ! (n mod 16)"

definition from_hex :: "char \<Rightarrow> nat option" where
  "from_hex c = (let n = of_char c :: nat in
     if 48 \<le> n \<and> n \<le> 57 then Some (n - 48)
     else if 97 \<le> n \<and> n \<le> 102 then Some (n - 87)
     else if 65 \<le> n \<and> n \<le> 70 then Some (n - 55)
     else None)"

fun hex_encode :: "bytes \<Rightarrow> string" where
  "hex_encode [] = []"
| "hex_encode (c # cs) =
     hex_digit (of_char c div 16) # hex_digit (of_char c mod 16) # hex_encode cs"

text \<open>
  \<open>hex.InvalidByteError\<close> prints the byte with \<open>%#U\<close>: four upper-case digits and, when the
  rune is printable, the rune in quotes (in UTF-8).
\<close>

definition rune_printable :: "nat \<Rightarrow> bool" where
  "rune_printable n \<longleftrightarrow> 32 \<le> n \<and> n \<le> 126 \<or> 161 \<le> n \<and> n \<le> 255 \<and> n \<noteq> 173"

definition utf8_latin1 :: "nat \<Rightarrow> string" where
  "utf8_latin1 n = (if n < 128 then [char_of n] else [char_of (192 + n div 64), char_of (128 + n mod 64)])"

definition hex_upper :: "nat \<Rightarrow> char" where
  "hex_upper n = ''0123456789ABCDEF'' ! (n mod 16)"

definition InvalidByteError :: "char \<Rightarrow> goerr" where
  "InvalidByteError c = (let n = of_char c :: nat in
     Errorf (''encoding/hex: invalid byte: U+00'' @ [hex_upper (n div 16), hex_upper n] @
       (if rune_printable n then '' '' @ [CHR 0x27] @ utf8_latin1 n @ [CHR 0x27] else '''')))"

definition ErrLength :: goerr where
  "ErrLength = Sentinel ''encoding/hex: odd length hex string''"

fun hex_decode :: "string \<Rightarrow> bytes result" where
  "hex_decode [] = Inr []"
| "hex_decode [p] = (if from_hex p = None then Inl (InvalidByteError p) else Inl ErrLength)"
| "hex_decode (p # q # cs) = (case from_hex p of
       None \<Rightarrow> Inl (InvalidByteError p)
     | Some a \<Rightarrow> (case from_hex q of
         None \<Rightarrow> Inl (InvalidByteError q)
       | Some b \<Rightarrow> (case hex_decode cs of
           Inl e \<Rightarrow> Inl e
         | Inr bs \<Rightarrow> Inr (char_of (a * 16 + b) # bs))))"

lemma from_hex_hex_digit: "n < 16 \<Longrightarrow> from_hex (hex_digit n) = Some n"
proof -
  have "\<forall>n \<in> set [0..<16]. from_hex (hex_digit n) = Some n"
    by (simp add: upt_rec hex_digit_def hextable_def from_hex_def Let_def)
  then show "n < 16 \<Longrightarrow> from_hex (hex_digit n) = Some n" by simp
qed

lemma from_hex_bound: "from_hex c = Some n \<Longrightarrow> n < 16"
  by (auto simp: from_hex_def Let_def split: if_splits)

lemma length_hex_encode [simp]: "length (hex_encode bs) = 2 * length bs"
  by (induction bs) simp_all

lemma hex_encode_eq_Nil [simp]: "hex_encode bs = [] \<longleftrightarrow> bs = []"
  by (cases bs) simp_all

lemma hex_decode_encode [simp]: "hex_decode (hex_encode bs) = Inr bs"
proof (induction bs)
  case (Cons c bs)
  have "(of_char c :: nat) div 16 < 16"
    by (simp add: less_mult_imp_div_less)
  then show ?case
    using Cons by (simp add: from_hex_hex_digit)
qed simp

lemma hex_encode_inj: "hex_encode a = hex_encode b \<longleftrightarrow> a = b"
  by (metis hex_decode_encode sum.inject(2))

lemma hex_decode_length: "hex_decode s = Inr bs \<Longrightarrow> length s = 2 * length bs"
  by (induction s arbitrary: bs rule: hex_decode.induct)
    (auto split: option.splits sum.splits if_splits)

subsection \<open>strconv\<close>

definition digit_val :: "char \<Rightarrow> nat option" where
  "digit_val c = (let n = of_char c :: nat in if 48 \<le> n \<and> n \<le> 57 then Some (n - 48) else None)"

fun digits_val :: "nat \<Rightarrow> string \<Rightarrow> nat option" where
  "digits_val a [] = Some a"
| "digits_val a (c # cs) = (case digit_val c of None \<Rightarrow> None | Some d \<Rightarrow> digits_val (a * 10 + d) cs)"

text \<open>
  \<open>strconv.Atoi\<close> on a 64-bit platform: an optional sign, then decimal digits; a value out
  of the range of \<open>int64\<close> is an error. Only whether there is an error matters to the
  program, so an error is \<open>None\<close>.
\<close>

definition Atoi :: "string \<Rightarrow> int option" where
  "Atoi s = (let (neg, ds) = (case s of
         [] \<Rightarrow> (False, [])
       | c # cs \<Rightarrow> if c = CHR ''-'' then (True, cs) else if c = CHR ''+'' then (False, cs) else (False, s))
     in if ds = [] then None
        else (case digits_val 0 ds of
          None \<Rightarrow> None
        | Some n \<Rightarrow> if neg then (if n \<le> 2 ^ 63 then Some (- int n) else None)
                   else (if n < 2 ^ 63 then Some (int n) else None)))"

lemma Atoi_range: "Atoi s = Some i \<Longrightarrow> - (2 ^ 63) \<le> i \<and> i < 2 ^ 63"
  by (auto simp: Atoi_def Let_def split: list.splits option.splits if_splits prod.splits)

definition ParseBool :: "string \<Rightarrow> bool option" where
  "ParseBool s =
     (if s \<in> {''1'', ''t'', ''T'', ''TRUE'', ''true'', ''True''} then Some True
      else if s \<in> {''0'', ''f'', ''F'', ''FALSE'', ''false'', ''False''} then Some False
      else None)"

text \<open>Decimal output of an \<open>int\<close>, as \<open>%d\<close> prints it.\<close>

fun nat_str :: "nat \<Rightarrow> string" where
  "nat_str n = (if n < 10 then [char_of (48 + n)] else nat_str (n div 10) @ [char_of (48 + n mod 10)])"

declare nat_str.simps [simp del]

definition int_str :: "int \<Rightarrow> string" where
  "int_str i = (if i < 0 then CHR ''-'' # nat_str (nat (- i)) else nat_str (nat i))"

text \<open>
  \<open>%q\<close>: the quoted form of a string of ASCII characters; other bytes are kept, as they
  are when they form a printable rune.
\<close>

definition quote_char :: "char \<Rightarrow> string" where
  "quote_char c = (let n = of_char c :: nat; b = CHR 0x5C in
     if c = CHR 0x22 \<or> c = b then [b, c]
     else if n = 7 then [b, CHR ''a''] else if n = 8 then [b, CHR ''b'']
     else if n = 9 then [b, CHR ''t''] else if n = 10 then [b, CHR ''n'']
     else if n = 11 then [b, CHR ''v''] else if n = 12 then [b, CHR ''f'']
     else if n = 13 then [b, CHR ''r'']
     else if n < 32 \<or> n = 127 then [b, CHR ''x'', hex_digit (n div 16), hex_digit n]
     else [c])"

definition Quote :: "string \<Rightarrow> string" where
  "Quote s = [CHR 0x22] @ concat (map quote_char s) @ [CHR 0x22]"

subsection \<open>strings\<close>

text \<open>
  The UTF-8 encodings of the runes of \<open>unicode.IsSpace\<close>. \<open>strings.TrimSpace\<close> removes them
  from both ends.
\<close>

definition space_runes :: "string list" where
  "space_runes = map (\<lambda>n. [char_of n]) [9, 10, 11, 12, 13, 32 :: nat] @
     map (map char_of) ([[194, 133], [194, 160], [225, 154, 128]] @
       map (\<lambda>n. [226, 128, n]) ([128..<139] @ [168, 169, 175]) @
       [[226, 129, 159], [227, 128, 128 :: nat]])"

fun strip_one :: "string list \<Rightarrow> string \<Rightarrow> string option" where
  "strip_one [] s = None"
| "strip_one (p # ps) s =
     (if p \<noteq> [] \<and> take (length p) s = p then Some (drop (length p) s) else strip_one ps s)"

lemma strip_one_shorter: "strip_one ps s = Some t \<Longrightarrow> length t < length s"
proof (induction ps)
  case (Cons p ps)
  show ?case
  proof (cases "p \<noteq> [] \<and> take (length p) s = p")
    case True
    then have "s \<noteq> []" by auto
    with True Cons.prems show ?thesis by (auto simp: length_greater_0_conv)
  next
    case False
    with Cons show ?thesis by (simp split: if_splits)
  qed
qed simp

function trim_left :: "string list \<Rightarrow> string \<Rightarrow> string" where
  "trim_left ps s = (case strip_one ps s of None \<Rightarrow> s | Some t \<Rightarrow> trim_left ps t)"
  by pat_completeness auto
termination trim_left
  by (relation "measure (\<lambda>(ps, s). length s)") (auto dest: strip_one_shorter)

declare trim_left.simps [simp del]

definition TrimSpace :: "string \<Rightarrow> string" where
  "TrimSpace s = rev (trim_left (map rev space_runes) (rev (trim_left space_runes s)))"

text \<open>\<open>strings.Split\<close> on a one-byte separator.\<close>

fun Split :: "char \<Rightarrow> string \<Rightarrow> string list" where
  "Split c [] = [[]]"
| "Split c (x # xs) =
     (if x = c then [] # Split c xs
      else (case Split c xs of p # ps \<Rightarrow> (x # p) # ps | [] \<Rightarrow> [[x]]))"

lemma Split_nonempty [simp]: "Split c s \<noteq> []"
  by (cases s) (auto split: list.splits)

lemma Split_no_sep: "c \<notin> set s \<Longrightarrow> Split c s = [s]"
  by (induction s) auto

text \<open>\<open>strings.SplitN(s, sep, 2)\<close>: at most one cut, at the first separator.\<close>

fun SplitN2 :: "char \<Rightarrow> string \<Rightarrow> string list" where
  "SplitN2 c [] = [[]]"
| "SplitN2 c (x # xs) =
     (if x = c then [[], xs]
      else (case SplitN2 c xs of p # ps \<Rightarrow> (x # p) # ps | [] \<Rightarrow> [[x]]))"

lemma SplitN2_first: "c \<notin> set a \<Longrightarrow> SplitN2 c (a @ c # b) = [a, b]"
  by (induction a) auto

definition to_lower :: "char \<Rightarrow> char" where
  "to_lower c = (let n = of_char c :: nat in if 65 \<le> n \<and> n \<le> 90 then char_of (n + 32) else c)"

text \<open>
  \<open>strings.EqualFold\<close> against \<open>Bearer\<close>: none of its letters has a case variant outside
  ASCII, so ASCII folding is exact there.
\<close>

definition EqualFold :: "string \<Rightarrow> string \<Rightarrow> bool" where
  "EqualFold a b \<longleftrightarrow> map to_lower a = map to_lower b"

subsection \<open>net.SplitHostPort\<close>

definition last_index :: "char \<Rightarrow> string \<Rightarrow> nat option" where
  "last_index c s = (if c \<in> set s
     then Some (length s - 1 - length (takeWhile (\<lambda>x. x \<noteq> c) (rev s))) else None)"

definition first_index :: "char \<Rightarrow> string \<Rightarrow> nat option" where
  "first_index c s = (if c \<in> set s then Some (length (takeWhile (\<lambda>x. x \<noteq> c) s)) else None)"

text \<open>The host and the port, or \<open>None\<close> for every address error.\<close>

definition SplitHostPort :: "string \<Rightarrow> (string \<times> string) option" where
  "SplitHostPort hp = (case last_index (CHR '':'') hp of
     None \<Rightarrow> None
   | Some i \<Rightarrow>
     (let found = (if take 1 hp = ''[''
          then (case first_index (CHR '']'') hp of
              None \<Rightarrow> None
            | Some e \<Rightarrow> if e + 1 = i then Some (take (e - 1) (drop 1 hp), 1, e + 1) else None)
          else (if CHR '':'' \<in> set (take i hp) then None else Some (take i hp, 0, 0)))
      in case found of
          None \<Rightarrow> None
        | Some (host, j, k) \<Rightarrow>
            if CHR ''['' \<in> set (drop j hp) then None
            else if CHR '']'' \<in> set (drop k hp) then None
            else Some (host, drop (i + 1) hp)))"

lemma SplitHostPort_no_colon: "CHR '':'' \<notin> set s \<Longrightarrow> SplitHostPort s = None"
  by (simp add: SplitHostPort_def last_index_def)

end
