(* ===== verification/Json.thy ===== *)
theory Json
  imports GoStd
begin

section \<open>encoding/json and encoding/base64, as the program uses them\<close>

text \<open>
  The scanner of \<open>encoding/json\<close> as a machine that reads one byte at a time, the printer of
  \<open>Marshal\<close> and \<open>MarshalIndent\<close>, the escaping of strings, the rules by which a member finds
  its struct field, RFC 3339 times, and base64 for \<open>[]byte\<close>. String tokens are kept as they
  stand between their quotes; \<open>unquote\<close> gives their value, as the library separates scanning
  from decoding. The wording of the errors is not modelled.
\<close>

subsection \<open>UTF-8\<close>

definition in_range :: "nat \<Rightarrow> nat \<Rightarrow> char \<Rightarrow> bool" where
  "in_range lo hi c \<longleftrightarrow> lo \<le> of_char c \<and> (of_char c :: nat) \<le> hi"

text \<open>The length of the valid multi-byte rune a string starts with, or 0.\<close>

fun rune_len :: "string \<Rightarrow> nat" where
  "rune_len (a # b # rest) =
     (if in_range 194 223 a then (if in_range 128 191 b then 2 else 0)
      else if in_range 224 239 a then
        (if in_range (if of_char a = (224::nat) then 160 else 128)
               (if of_char a = (237::nat) then 159 else 191) b
         then (case rest of c # _ \<Rightarrow> if in_range 128 191 c then 3 else 0 | [] \<Rightarrow> 0) else 0)
      else if in_range 240 244 a then
        (if in_range (if of_char a = (240::nat) then 144 else 128)
               (if of_char a = (244::nat) then 143 else 191) b
         then (case rest of c # d # _ \<Rightarrow> if in_range 128 191 c \<and> in_range 128 191 d then 4 else 0
               | _ \<Rightarrow> 0) else 0)
      else 0)"
| "rune_len _ = 0"

abbreviation is_ascii :: "char \<Rightarrow> bool" where
  "is_ascii c \<equiv> (of_char c :: nat) < 128"

definition replacement :: string where
  "replacement = map char_of [239, 191, 189 :: nat]"

text \<open>\<open>utf8.AppendRune\<close>; surrogates and values out of range give the replacement rune.\<close>

definition append_rune :: "nat \<Rightarrow> string" where
  "append_rune n =
     (if n < 128 then [char_of n]
      else if n < 2048 then [char_of (192 + n div 64), char_of (128 + n mod 64)]
      else if 55296 \<le> n \<and> n \<le> 57343 \<or> 1114111 < n then replacement
      else if n < 65536 then [char_of (224 + n div 4096), char_of (128 + n div 64 mod 64), char_of (128 + n mod 64)]
      else [char_of (240 + n div 262144), char_of (128 + n div 4096 mod 64),
            char_of (128 + n div 64 mod 64), char_of (128 + n mod 64)])"

function valid_utf8 :: "string \<Rightarrow> bool" where
  "valid_utf8 [] = True"
| "valid_utf8 (c # cs) =
     (if is_ascii c then valid_utf8 cs
      else 0 < rune_len (c # cs) \<and> valid_utf8 (drop (rune_len (c # cs) - 1) cs))"
  by pat_completeness auto
termination by (relation "measure length") auto

text \<open>Every byte that belongs to no valid rune is replaced: what a string is after a round trip.\<close>

function coerce_utf8 :: "string \<Rightarrow> string" where
  "coerce_utf8 [] = []"
| "coerce_utf8 (c # cs) =
     (if is_ascii c then c # coerce_utf8 cs
      else (let n = rune_len (c # cs) in
        if n = 0 then replacement @ coerce_utf8 cs
        else take n (c # cs) @ coerce_utf8 (drop (n - 1) cs)))"
  by pat_completeness auto
termination by (relation "measure length") auto

declare coerce_utf8.simps [simp del]

lemma coerce_utf8_ascii [simp]:
  "coerce_utf8 [] = []" "is_ascii c \<Longrightarrow> coerce_utf8 (c # cs) = c # coerce_utf8 cs"
  by (simp_all add: coerce_utf8.simps)

lemma coerce_utf8_valid: "valid_utf8 s \<Longrightarrow> coerce_utf8 s = s"
proof (induction s rule: valid_utf8.induct)
  case (2 c cs)
  show ?case
  proof (cases "is_ascii c")
    case False
    let ?n = "rune_len (c # cs)"
    have n: "0 < ?n" "valid_utf8 (drop (?n - 1) cs)" using 2(3) False by simp_all
    then have "coerce_utf8 (c # cs) = take ?n (c # cs) @ drop (?n - 1) cs"
      using False 2(2) [OF False n(2)] by (simp add: coerce_utf8.simps Let_def del: take_Cons')
    also have "drop (?n - 1) cs = drop ?n (c # cs)" using n(1) by (cases ?n) simp_all
    finally show ?thesis by simp
  qed (use 2 in simp)
qed simp

subsection \<open>String tokens\<close>

abbreviation backslash :: char where "backslash \<equiv> CHR 0x5C"
abbreviation dquote :: char where "dquote \<equiv> CHR 0x22"

definition html_safe :: "char \<Rightarrow> bool" where
  "html_safe c \<longleftrightarrow> 32 \<le> (of_char c :: nat) \<and> c \<notin> {dquote, backslash, CHR ''<'', CHR ''>'', CHR ''&''}"

definition escape_ascii :: "char \<Rightarrow> string" where
  "escape_ascii c =
     (if html_safe c then [c]
      else if c = backslash \<or> c = dquote then [backslash, c]
      else if c = CHR 0x08 then [backslash, CHR ''b'']
      else if c = CHR 0x0C then [backslash, CHR ''f'']
      else if c = CHR 0x0A then [backslash, CHR ''n'']
      else if c = CHR 0x0D then [backslash, CHR ''r'']
      else if c = CHR 0x09 then [backslash, CHR ''t'']
      else [backslash, CHR ''u'', CHR ''0'', CHR ''0'', hex_digit (of_char c div 16), hex_digit (of_char c)])"

text \<open>The line separators U+2028 and U+2029 are escaped; bytes that are not UTF-8 are replaced.\<close>

definition escape_rune :: "string \<Rightarrow> string" where
  "escape_rune r =
     (if r = map char_of [226, 128, 168 :: nat] then backslash # ''u2028''
      else if r = map char_of [226, 128, 169 :: nat] then backslash # ''u2029'' else r)"

function json_escape :: "string \<Rightarrow> string" where
  "json_escape [] = []"
| "json_escape (c # cs) =
     (if is_ascii c then escape_ascii c @ json_escape cs
      else (let n = rune_len (c # cs) in
        if n = 0 then backslash # ''ufffd'' @ json_escape cs
        else escape_rune (take n (c # cs)) @ json_escape (drop (n - 1) cs)))"
  by pat_completeness auto
termination by (relation "measure length") auto

fun hex4 :: "string \<Rightarrow> nat option" where
  "hex4 (a # b # c # d # _) = (case (from_hex a, from_hex b, from_hex c, from_hex d) of
       (Some a, Some b, Some c, Some d) \<Rightarrow> Some (((a * 16 + b) * 16 + c) * 16 + d)
     | _ \<Rightarrow> None)"
| "hex4 _ = None"

definition simple_escape :: "char \<Rightarrow> char option" where
  "simple_escape c =
     (if c = dquote \<or> c = backslash \<or> c = CHR ''/'' then Some c
      else if c = CHR ''b'' then Some (CHR 0x08) else if c = CHR ''f'' then Some (CHR 0x0C)
      else if c = CHR ''n'' then Some (CHR 0x0A) else if c = CHR ''r'' then Some (CHR 0x0D)
      else if c = CHR ''t'' then Some (CHR 0x09) else None)"

text \<open>The low surrogate an escaped high surrogate is followed by, if it is.\<close>

definition low_surrogate :: "string \<Rightarrow> nat option" where
  "low_surrogate s = (if take 2 s = [backslash, CHR ''u''] then (case hex4 (drop 2 s) of
       Some l \<Rightarrow> if 56320 \<le> l \<and> l \<le> 57343 then Some l else None | None \<Rightarrow> None) else None)"

function unquote :: "string \<Rightarrow> string" where
  "unquote [] = []"
| "unquote (c # cs) =
     (if c = backslash then (case cs of
          [] \<Rightarrow> []
        | e # rest \<Rightarrow>
            if e = CHR ''u'' then (case hex4 rest of
                None \<Rightarrow> []
              | Some h \<Rightarrow>
                 (case (if 55296 \<le> h \<and> h \<le> 56319 then low_surrogate (drop 4 rest) else None) of
                    Some l \<Rightarrow> append_rune (65536 + (h - 55296) * 1024 + (l - 56320)) @ unquote (drop 10 rest)
                  | None \<Rightarrow> append_rune h @ unquote (drop 4 rest)))
            else (case simple_escape e of None \<Rightarrow> [] | Some x \<Rightarrow> x # unquote rest))
      else if is_ascii c then c # unquote cs
      else (let n = rune_len (c # cs) in
        if n = 0 then replacement @ unquote cs
        else take n (c # cs) @ unquote (drop (n - 1) cs)))"
  by pat_completeness auto
termination by (relation "measure length") auto

declare json_escape.simps [simp del] unquote.simps [simp del]

subsection \<open>The scanner\<close>

datatype json =
    JNull
  | JBool bool
  | JNum string
  | JStr string
  | JArr "json list"
  | JObj "(string \<times> json) list"

datatype num_state = NNeg | NZero | NInt | NDot | NFrac | NExp | NExpSign | NExpDigits

fun num_ok :: "num_state \<Rightarrow> bool" where
  "num_ok NZero = True"
| "num_ok NInt = True"
| "num_ok NFrac = True"
| "num_ok NExpDigits = True"
| "num_ok _ = False"

abbreviation digit :: "char \<Rightarrow> bool" where
  "digit c \<equiv> in_range 48 57 c"

fun num_step :: "num_state \<Rightarrow> char \<Rightarrow> num_state option" where
  "num_step NNeg c = (if c = CHR ''0'' then Some NZero else if digit c then Some NInt else None)"
| "num_step NZero c = (if c = CHR ''.'' then Some NDot
     else if c = CHR ''e'' \<or> c = CHR ''E'' then Some NExp else None)"
| "num_step NInt c = (if digit c then Some NInt else if c = CHR ''.'' then Some NDot
     else if c = CHR ''e'' \<or> c = CHR ''E'' then Some NExp else None)"
| "num_step NDot c = (if digit c then Some NFrac else None)"
| "num_step NFrac c = (if digit c then Some NFrac
     else if c = CHR ''e'' \<or> c = CHR ''E'' then Some NExp else None)"
| "num_step NExp c = (if c = CHR ''+'' \<or> c = CHR ''-'' then Some NExpSign
     else if digit c then Some NExpDigits else None)"
| "num_step NExpSign c = (if digit c then Some NExpDigits else None)"
| "num_step NExpDigits c = (if digit c then Some NExpDigits else None)"

text \<open>Inside a string: 0, or 1 after a backslash, or 2 to 5 within the digits of an escape.\<close>

definition str_step :: "nat \<Rightarrow> char \<Rightarrow> nat option" where
  "str_step e c =
     (if e = 0 then (if c = backslash then Some 1 else if (of_char c :: nat) < 32 then None else Some 0)
      else if e = 1 then (if c = CHR ''u'' then Some 2 else map_option (\<lambda>_. 0) (simple_escape c))
      else if from_hex c = None then None else Some (if e = 5 then 0 else e + 1))"

datatype json_mode =
    MVal
  | MValOrEnd
  | MKeyOrEnd
  | MKey
  | MStr nat string
  | MKeyStr nat string
  | MColon string
  | MLit string json
  | MNum num_state string
  | MEnd json
  | MBad

datatype json_frame =
    InArr "json list"
  | InObj "(string \<times> json) list"
  | InMember "(string \<times> json) list" string

type_synonym json_state = "json_mode \<times> json_frame list"

definition json_space :: "char \<Rightarrow> bool" where
  "json_space c \<longleftrightarrow> c \<in> {CHR '' '', CHR 0x09, CHR 0x0A, CHR 0x0D}"

definition max_nesting :: nat where
  "max_nesting = 10000"

definition json_push :: "json_mode \<Rightarrow> json_frame \<Rightarrow> json_frame list \<Rightarrow> json_state" where
  "json_push m f fs = (if length fs < max_nesting then (m, f # fs) else (MBad, fs))"

definition begin_value :: "json_frame list \<Rightarrow> char \<Rightarrow> json_state" where
  "begin_value fs c =
     (if c = dquote then (MStr 0 [], fs)
      else if c = CHR ''{'' then json_push MKeyOrEnd (InObj []) fs
      else if c = CHR ''['' then json_push MValOrEnd (InArr []) fs
      else if c = CHR ''-'' then (MNum NNeg [c], fs)
      else if c = CHR ''0'' then (MNum NZero [c], fs)
      else if digit c then (MNum NInt [c], fs)
      else if c = CHR ''t'' then (MLit ''rue'' (JBool True), fs)
      else if c = CHR ''f'' then (MLit ''alse'' (JBool False), fs)
      else if c = CHR ''n'' then (MLit ''ull'' JNull, fs)
      else (MBad, fs))"

fun end_value :: "json \<Rightarrow> json_frame list \<Rightarrow> char \<Rightarrow> json_state" where
  "end_value v (InArr vs # fs) c =
     (if c = CHR '','' then (MVal, InArr (vs @ [v]) # fs)
      else if c = CHR '']'' then (MEnd (JArr (vs @ [v])), fs)
      else (MBad, fs))"
| "end_value v (InMember ms k # fs) c =
     (if c = CHR '','' then (MKey, InObj (ms @ [(k, v)]) # fs)
      else if c = CHR ''}'' then (MEnd (JObj (ms @ [(k, v)])), fs)
      else (MBad, fs))"
| "end_value v fs c = (MBad, fs)"

fun json_step :: "json_state \<Rightarrow> char \<Rightarrow> json_state" where
  "json_step (MVal, fs) c = (if json_space c then (MVal, fs) else begin_value fs c)"
| "json_step (MValOrEnd, fs) c =
     (if json_space c then (MValOrEnd, fs)
      else if c = CHR '']'' then (MEnd (JArr []), tl fs) else begin_value fs c)"
| "json_step (MKeyOrEnd, fs) c =
     (if json_space c then (MKeyOrEnd, fs)
      else if c = CHR ''}'' then (MEnd (JObj []), tl fs)
      else if c = dquote then (MKeyStr 0 [], fs) else (MBad, fs))"
| "json_step (MKey, fs) c =
     (if json_space c then (MKey, fs) else if c = dquote then (MKeyStr 0 [], fs) else (MBad, fs))"
| "json_step (MStr e raw, fs) c =
     (if e = 0 \<and> c = dquote then (MEnd (JStr raw), fs)
      else (case str_step e c of Some e' \<Rightarrow> (MStr e' (raw @ [c]), fs) | None \<Rightarrow> (MBad, fs)))"
| "json_step (MKeyStr e raw, fs) c =
     (if e = 0 \<and> c = dquote then (MColon raw, fs)
      else (case str_step e c of Some e' \<Rightarrow> (MKeyStr e' (raw @ [c]), fs) | None \<Rightarrow> (MBad, fs)))"
| "json_step (MColon k, fs) c =
     (if json_space c then (MColon k, fs)
      else (case fs of
          InObj ms # gs \<Rightarrow> if c = CHR '':'' then (MVal, InMember ms k # gs) else (MBad, fs)
        | _ \<Rightarrow> (MBad, fs)))"
| "json_step (MLit rest v, fs) c =
     (case rest of
        x # xs \<Rightarrow> if c = x then (if xs = [] then MEnd v else MLit xs v, fs) else (MBad, fs)
      | [] \<Rightarrow> (MBad, fs))"
| "json_step (MNum n raw, fs) c =
     (case num_step n c of
        Some n' \<Rightarrow> (MNum n' (raw @ [c]), fs)
      | None \<Rightarrow> if num_ok n
          then (if json_space c then (MEnd (JNum raw), fs) else end_value (JNum raw) fs c)
          else (MBad, fs))"
| "json_step (MEnd v, fs) c = (if json_space c then (MEnd v, fs) else end_value v fs c)"
| "json_step (MBad, fs) c = (MBad, fs)"

text \<open>A top-level value is complete; a number only when the next byte is not part of it.\<close>

definition json_done :: "json_state \<Rightarrow> char option \<Rightarrow> json option" where
  "json_done st next = (case st of
       (MEnd v, []) \<Rightarrow> Some v
     | (MNum n raw, []) \<Rightarrow>
         if num_ok n \<and> (case next of None \<Rightarrow> True | Some c \<Rightarrow> num_step n c = None)
         then Some (JNum raw) else None
     | _ \<Rightarrow> None)"

primrec json_run :: "string \<Rightarrow> json_state \<Rightarrow> (json \<times> string) option" where
  "json_run [] st = map_option (\<lambda>v. (v, [])) (json_done st None)"
| "json_run (c # cs) st = (case json_done st (Some c) of
       Some v \<Rightarrow> Some (v, c # cs)
     | None \<Rightarrow> json_run cs (json_step st c))"

text \<open>\<open>Decoder.Decode\<close> takes the first value and leaves the rest; \<open>Unmarshal\<close> wants nothing after it.\<close>

definition json_first :: "string \<Rightarrow> (json \<times> string) option" where
  "json_first s = json_run s (MVal, [])"

definition json_whole :: "string \<Rightarrow> json option" where
  "json_whole s = (case json_first s of
       Some (v, rest) \<Rightarrow> if list_all json_space rest then Some v else None
     | None \<Rightarrow> None)"

subsection \<open>The printer\<close>

text \<open>\<open>nl\<close> is what separates the parts at a depth, \<open>col\<close> what follows a key.\<close>

fun json_print :: "(nat \<Rightarrow> string) \<Rightarrow> string \<Rightarrow> nat \<Rightarrow> json \<Rightarrow> string" where
  "json_print nl col d JNull = ''null''"
| "json_print nl col d (JBool b) = (if b then ''true'' else ''false'')"
| "json_print nl col d (JNum raw) = raw"
| "json_print nl col d (JStr raw) = dquote # raw @ [dquote]"
| "json_print nl col d (JArr []) = ''[]''"
| "json_print nl col d (JArr (v # vs)) =
     CHR ''['' # nl (Suc d) @ json_print nl col (Suc d) v @
     concat (map (\<lambda>v. CHR '','' # nl (Suc d) @ json_print nl col (Suc d) v) vs) @ nl d @ '']''"
| "json_print nl col d (JObj []) = ''{}''"
| "json_print nl col d (JObj ((k, v) # ms)) =
     CHR ''{'' # nl (Suc d) @ dquote # k @ dquote # col @ json_print nl col (Suc d) v @
     concat (map (\<lambda>(k, v). CHR '','' # nl (Suc d) @ dquote # k @ dquote # col @
        json_print nl col (Suc d) v) ms) @ nl d @ ''}''"

definition Marshal :: "json \<Rightarrow> string" where
  "Marshal v = json_print (\<lambda>_. []) '':'' 0 v"

definition MarshalIndent :: "json \<Rightarrow> string" where
  "MarshalIndent v = json_print (\<lambda>d. CHR 0x0A # replicate (2 * d) CHR '' '') '': '' 0 v"

definition json_string :: "string \<Rightarrow> json" where
  "json_string s = JStr (json_escape s)"

definition json_object :: "(string \<times> json) list \<Rightarrow> json" where
  "json_object ms = JObj (map (\<lambda>(k, v). (json_escape k, v)) ms)"

subsection \<open>Struct fields\<close>

text \<open>
  A member goes to the field of its exact name, or else to the one that folds to the same
  name; the two runes outside ASCII that fold into it are the long s and the Kelvin sign.
\<close>

fun fold_name :: "string \<Rightarrow> string" where
  "fold_name (a # b # c # cs) =
     (if a = CHR 0xC5 \<and> b = CHR 0xBF then CHR ''s'' # fold_name (c # cs)
      else if a = CHR 0xE2 \<and> b = CHR 0x84 \<and> c = CHR 0xAA then CHR ''k'' # fold_name cs
      else to_lower a # fold_name (b # c # cs))"
| "fold_name [a, b] = (if a = CHR 0xC5 \<and> b = CHR 0xBF then ''s'' else [to_lower a, to_lower b])"
| "fold_name [a] = [to_lower a]"
| "fold_name [] = []"

definition struct_field :: "string list \<Rightarrow> string \<Rightarrow> string option" where
  "struct_field names k =
     (if k \<in> set names then Some k else find (\<lambda>n. fold_name n = fold_name k) names)"

definition struct_members :: "string list \<Rightarrow> (string \<times> json) list \<Rightarrow> (string \<times> json) list" where
  "struct_members names ms =
     List.map_filter (\<lambda>(k, v). map_option (\<lambda>n. (n, v)) (struct_field names (unquote k))) ms"

text \<open>
  Decoding the members of one field in order, starting from the zero value; null leaves a
  string as it is and makes a pointer nil. \<open>None\<close> is an error.
\<close>

fun get_field :: "('v \<Rightarrow> json \<Rightarrow> 'v option) \<Rightarrow> string \<Rightarrow> (string \<times> json) list \<Rightarrow> 'v \<Rightarrow> 'v option" where
  "get_field dec n [] x = Some x"
| "get_field dec n ((k, v) # ms) x =
     (if k = n then (case dec x v of Some y \<Rightarrow> get_field dec n ms y | None \<Rightarrow> None)
      else get_field dec n ms x)"

fun dec_string :: "string \<Rightarrow> json \<Rightarrow> string option" where
  "dec_string x (JStr raw) = Some (unquote raw)"
| "dec_string x JNull = Some x"
| "dec_string x _ = None"

fun dec_bool :: "bool \<Rightarrow> json \<Rightarrow> bool option" where
  "dec_bool x (JBool b) = Some b"
| "dec_bool x JNull = Some x"
| "dec_bool x _ = None"

fun json_members :: "json \<Rightarrow> (string \<times> json) list option" where
  "json_members (JObj ms) = Some ms"
| "json_members JNull = Some []"
| "json_members _ = None"

subsection \<open>RFC 3339 times\<close>

fun digit_run :: "string \<Rightarrow> nat \<Rightarrow> nat option" where
  "digit_run [] a = Some a"
| "digit_run (c # cs) a = (if digit c then digit_run cs (a * 10 + (of_char c - 48)) else None)"

definition uint_in :: "nat \<Rightarrow> nat \<Rightarrow> string \<Rightarrow> nat option" where
  "uint_in lo hi s = (case digit_run s 0 of
     Some n \<Rightarrow> if lo \<le> n \<and> n \<le> hi then Some n else None | None \<Rightarrow> None)"

definition leap_year :: "nat \<Rightarrow> bool" where
  "leap_year y \<longleftrightarrow> y mod 4 = 0 \<and> (y mod 100 \<noteq> 0 \<or> y mod 400 = 0)"

definition days_in :: "nat \<Rightarrow> nat \<Rightarrow> nat" where
  "days_in m y = (if m = 2 then (if leap_year y then 29 else 28)
     else if m \<in> {4, 6, 9, 11} then 30 else 31)"

text \<open>Days since 1 January 1970 in the proleptic Gregorian calendar.\<close>

definition unix_days :: "nat \<Rightarrow> nat \<Rightarrow> nat \<Rightarrow> int" where
  "unix_days y m d =
     (let y' = int y - (if m \<le> 2 then 1 else 0);
          yoe = y' mod 400;
          doy = (153 * (int m + (if 2 < m then -3 else 9)) + 2) div 5 + int d - 1
      in y' div 400 * 146097 + yoe * 365 + yoe div 4 - yoe div 100 + doy - 719468)"

definition zone_offset :: "string \<Rightarrow> int option" where
  "zone_offset s =
     (if s = ''Z'' then Some 0
      else if length s = 6 \<and> (s ! 0 = CHR ''+'' \<or> s ! 0 = CHR ''-'') \<and> s ! 3 = CHR '':'' then
        (case (uint_in 0 23 (take 2 (drop 1 s)), uint_in 0 59 (drop 4 s)) of
           (Some h, Some m) \<Rightarrow> Some ((if s ! 0 = CHR ''-'' then -1 else 1) * int ((h * 60 + m) * 60))
         | _ \<Rightarrow> None)
      else None)"

text \<open>The digits of a fraction of a second, and what follows them.\<close>

definition nanoseconds :: "string \<Rightarrow> int \<times> string" where
  "nanoseconds s = (case s of
       c # cs \<Rightarrow> if c = CHR ''.'' \<and> cs \<noteq> [] \<and> digit (hd cs)
         then (let ds = takeWhile (\<lambda>c. digit c) cs
               in (int (the (digit_run (take 9 (ds @ replicate 9 CHR ''0'')) 0)),
                   dropWhile (\<lambda>c. digit c) cs))
         else (0, s)
     | [] \<Rightarrow> (0, s))"

definition parse_rfc3339 :: "string \<Rightarrow> instant option" where
  "parse_rfc3339 s =
     (if length s < 19 \<or> \<not> (s ! 4 = CHR ''-'' \<and> s ! 7 = CHR ''-'' \<and> s ! 10 = CHR ''T'' \<and>
         s ! 13 = CHR '':'' \<and> s ! 16 = CHR '':'') then None
      else (case (uint_in 0 9999 (take 4 s), uint_in 1 12 (take 2 (drop 5 s)),
                  uint_in 0 23 (take 2 (drop 11 s)), uint_in 0 59 (take 2 (drop 14 s)),
                  uint_in 0 59 (take 2 (drop 17 s))) of
          (Some y, Some mo, Some h, Some mi, Some se) \<Rightarrow>
            (case uint_in 1 (days_in mo y) (take 2 (drop 8 s)) of
               None \<Rightarrow> None
             | Some d \<Rightarrow> (let (ns, zone) = nanoseconds (drop 19 s)
                 in map_option (\<lambda>off. (((unix_days y mo d * 24 + int h) * 60 + int mi) * 60 + int se - off)
                      * second + ns) (zone_offset zone)))
        | _ \<Rightarrow> None))"

text \<open>Decoding into a \<open>*time.Time\<close>, which reads the token as it stands.\<close>

fun dec_time :: "instant option \<Rightarrow> json \<Rightarrow> instant option option" where
  "dec_time x (JStr raw) = map_option Some (parse_rfc3339 raw)"
| "dec_time x JNull = Some None"
| "dec_time x _ = None"

subsection \<open>Base64\<close>

definition b64_table :: string where
  "b64_table = ''ABCDEFGHIJKLMNOPQRSTUVWXYZabcdefghijklmnopqrstuvwxyz0123456789+/''"

definition b64_char :: "nat \<Rightarrow> char" where
  "b64_char n = b64_table ! n"

definition b64_val :: "char \<Rightarrow> nat option" where
  "b64_val c = (if in_range 65 90 c then Some (of_char c - 65)
     else if in_range 97 122 c then Some (of_char c - 71)
     else if digit c then Some (of_char c + 4)
     else if c = CHR ''+'' then Some 62 else if c = CHR ''/'' then Some 63 else None)"

fun b64_encode :: "bytes \<Rightarrow> string" where
  "b64_encode [] = []"
| "b64_encode [a] = (let n = (of_char a :: nat) in [b64_char (n div 4), b64_char (n mod 4 * 16)] @ ''=='')"
| "b64_encode [a, b] =
     (let n = of_char a; m = (of_char b :: nat)
      in [b64_char (n div 4), b64_char (n mod 4 * 16 + m div 16), b64_char (m mod 16 * 4)] @ ''='')"
| "b64_encode (a # b # c # cs) =
     (let n = of_char a; m = of_char b; k = (of_char c :: nat)
      in [b64_char (n div 4), b64_char (n mod 4 * 16 + m div 16), b64_char (m mod 16 * 4 + k div 64),
          b64_char (k mod 64)] @ b64_encode cs)"

text \<open>Decoding of a text without line breaks; the bits left over in the last group are ignored.\<close>

fun b64_quads :: "string \<Rightarrow> bytes option" where
  "b64_quads [] = Some []"
| "b64_quads (a # b # c # d # cs) = (case (b64_val a, b64_val b) of
       (Some x, Some y) \<Rightarrow>
         (if c = CHR ''='' then
            (if d = CHR ''='' \<and> cs = [] then Some [char_of (x * 4 + y div 16)] else None)
          else (case b64_val c of
              None \<Rightarrow> None
            | Some z \<Rightarrow>
                if d = CHR ''='' then
                  (if cs = [] then Some [char_of (x * 4 + y div 16), char_of (y mod 16 * 16 + z div 4)] else None)
                else (case b64_val d of
                    None \<Rightarrow> None
                  | Some w \<Rightarrow> map_option (\<lambda>bs. char_of (x * 4 + y div 16) #
                      char_of (y mod 16 * 16 + z div 4) # char_of (z mod 4 * 64 + w) # bs) (b64_quads cs))))
     | _ \<Rightarrow> None)"
| "b64_quads _ = None"

definition b64_decode :: "string \<Rightarrow> bytes option" where
  "b64_decode s = b64_quads (filter (\<lambda>c. c \<noteq> CHR 0x0A \<and> c \<noteq> CHR 0x0D) s)"

subsection \<open>Round trip of base64\<close>

lemma b64_val_char: "n < 64 \<Longrightarrow> b64_val (b64_char n) = Some n"
proof -
  have "\<forall>n \<in> set [0..<64]. b64_val (b64_char n) = Some n"
    by (simp add: upt_rec b64_char_def b64_table_def b64_val_def in_range_def)
  then show "n < 64 \<Longrightarrow> b64_val (b64_char n) = Some n" by simp
qed

lemma b64_char_plain: "n < 64 \<Longrightarrow> b64_char n \<noteq> CHR ''='' \<and> b64_char n \<noteq> CHR 0x0A \<and> b64_char n \<noteq> CHR 0x0D \<and>
    html_safe (b64_char n) \<and> is_ascii (b64_char n)"
proof -
  have "\<forall>n \<in> set [0..<64]. b64_char n \<noteq> CHR ''='' \<and> b64_char n \<noteq> CHR 0x0A \<and> b64_char n \<noteq> CHR 0x0D \<and>
      html_safe (b64_char n) \<and> is_ascii (b64_char n)"
    by (simp add: upt_rec b64_char_def b64_table_def html_safe_def)
  then show "n < 64 \<Longrightarrow> ?thesis" by simp
qed

end
