(* ===== verification/Auth.thy ===== *)
theory Auth
  imports GoStd
begin

section \<open>Contexts, claims and tokens (internal/auth, internal/helper)\<close>

text \<open>
  A request context is a record: the error it reports the \<open>n\<close>-th time the request consults
  it (\<open>None\<close> while it is not done), the claims and the request id attached to it. The JWT
  library is not part of the repository: parsing a token is a parameter, and \<open>jwt_laws\<close> is
  the documented meaning of the options the validator passes.
\<close>

subsection \<open>Claims\<close>

record claims =
  cl_Subject :: string
  cl_Issuer :: string
  cl_Audience :: "string list"
  cl_ExpiresAt :: "instant option"
  cl_Admin :: bool
  cl_Roles :: "string list"

text \<open>A nil role list is empty, so the nil check and the search agree.\<close>

definition HasRole :: "claims \<Rightarrow> string \<Rightarrow> bool" where
  "HasRole c role \<longleftrightarrow>
     (if cl_Admin c then True else if cl_Roles c = [] then False else role \<in> set (cl_Roles c))"

fun any_role :: "string list \<Rightarrow> string list \<Rightarrow> bool" where
  "any_role granted [] = False"
| "any_role granted (r # rs) = (if r \<in> set granted then True else any_role granted rs)"

definition HasAnyRole :: "claims \<Rightarrow> string list \<Rightarrow> bool" where
  "HasAnyRole c roles \<longleftrightarrow> (if cl_Admin c then True else any_role (cl_Roles c) roles)"

lemma HasRole_iff: "HasRole c role \<longleftrightarrow> cl_Admin c \<or> role \<in> set (cl_Roles c)"
  by (simp add: HasRole_def)

lemma HasAnyRole_iff: "HasAnyRole c roles \<longleftrightarrow> cl_Admin c \<or> (\<exists>r \<in> set roles. HasRole c r)"
proof -
  have "any_role g rs \<longleftrightarrow> (\<exists>r \<in> set rs. r \<in> set g)" for g rs
    by (induction g rs rule: any_role.induct) auto
  then show ?thesis by (auto simp: HasAnyRole_def HasRole_iff)
qed

subsection \<open>Contexts\<close>

record go_context =
  cx_err :: "nat \<Rightarrow> goerr option"
  cx_claims :: "claims option"
  cx_request_id :: "string option"

definition background :: go_context where
  "background = \<lparr> cx_err = \<lambda>_. None, cx_claims = None, cx_request_id = None \<rparr>"

text \<open>\<open>helper.CheckContext\<close> at the \<open>n\<close>-th point where the request consults its context.\<close>

definition CheckContext :: "nat \<Rightarrow> go_context \<Rightarrow> goerr option" where
  "CheckContext n ctx = cx_err ctx n"

definition WithClaims :: "go_context \<Rightarrow> claims \<Rightarrow> go_context" where
  "WithClaims ctx cl = ctx\<lparr>cx_claims := Some cl\<rparr>"

definition ClaimsFromContext :: "go_context \<Rightarrow> claims option" where
  "ClaimsFromContext ctx = cx_claims ctx"

definition SubjectFromContext :: "go_context \<Rightarrow> string" where
  "SubjectFromContext ctx = (case ClaimsFromContext ctx of Some c \<Rightarrow> cl_Subject c | None \<Rightarrow> ''unknown'')"

lemma claims_roundtrip [simp]:
  "ClaimsFromContext (WithClaims ctx cl) = Some cl"
  "SubjectFromContext (WithClaims ctx cl) = cl_Subject cl"
  "cx_err (WithClaims ctx cl) = cx_err ctx"
  by (simp_all add: ClaimsFromContext_def WithClaims_def SubjectFromContext_def)

subsection \<open>The JWT library\<close>

text \<open>The method family the key function looks at, and the options of the parser.\<close>

datatype method_family = HMAC | OtherMethod

record jwt_options =
  jo_methods :: "string list"
  jo_exp_required :: bool
  jo_issuer :: "string option"
  jo_audience :: "string option"

type_synonym keyfunc = "method_family \<Rightarrow> string \<Rightarrow> bytes result"

text \<open>\<open>jwt.ParseWithClaims\<close> at an instant: whether the token is valid, and its claims.\<close>

type_synonym jwt_parser = "jwt_options \<Rightarrow> keyfunc \<Rightarrow> instant \<Rightarrow> string \<Rightarrow> (bool \<times> claims) result"

text \<open>
  \<open>genuine alg key token cl\<close>: the token carries the claims \<open>cl\<close> and a signature of method
  \<open>alg\<close> under \<open>key\<close>. \<open>family\<close> gives the method family of an algorithm name.
\<close>

definition jwt_laws ::
    "jwt_parser \<Rightarrow> (string \<Rightarrow> method_family) \<Rightarrow> (string \<Rightarrow> bytes \<Rightarrow> string \<Rightarrow> claims \<Rightarrow> bool) \<Rightarrow> bool" where
  "jwt_laws P family genuine \<longleftrightarrow> (\<forall>opts key now tok cl v. P opts key now tok = Inr (v, cl) \<longrightarrow>
     v \<and>
     (\<exists>alg k. alg \<in> set (jo_methods opts) \<and> key (family alg) alg = Inr k \<and> genuine alg k tok cl) \<and>
     (jo_exp_required opts \<longrightarrow> (\<exists>e. cl_ExpiresAt cl = Some e \<and> now < e)) \<and>
     (\<forall>i. jo_issuer opts = Some i \<longrightarrow> cl_Issuer cl = i) \<and>
     (\<forall>a. jo_audience opts = Some a \<longrightarrow> a \<in> set (cl_Audience cl)))"

subsection \<open>The validator\<close>

record jwt_validator =
  jv_secret :: bytes
  jv_issuer :: string
  jv_audience :: string

record validator_config =
  vc_Secret :: string
  vc_Issuer :: string
  vc_Audience :: string

definition NewJWTValidator :: "validator_config \<Rightarrow> jwt_validator" where
  "NewJWTValidator cfg = \<lparr> jv_secret = vc_Secret cfg, jv_issuer = vc_Issuer cfg, jv_audience = vc_Audience cfg \<rparr>"

definition jwt_options_of :: "jwt_validator \<Rightarrow> jwt_options" where
  "jwt_options_of v = \<lparr> jo_methods = [''HS256'', ''HS384'', ''HS512''], jo_exp_required = True,
     jo_issuer = (if jv_issuer v \<noteq> '''' then Some (jv_issuer v) else None),
     jo_audience = (if jv_audience v \<noteq> '''' then Some (jv_audience v) else None) \<rparr>"

definition keyfunc_of :: "jwt_validator \<Rightarrow> keyfunc" where
  "keyfunc_of v method alg =
     (if method \<noteq> HMAC then Inl (Errorf (''unexpected signing method: '' @ alg)) else Inr (jv_secret v))"

definition JWT_Validate :: "jwt_parser \<Rightarrow> jwt_validator \<Rightarrow> instant \<Rightarrow> string \<Rightarrow> claims result" where
  "JWT_Validate P v now tokenString =
     (case P (jwt_options_of v) (keyfunc_of v) now tokenString of
        Inl err \<Rightarrow> Inl (Wrapf ''token parse'' err)
      | Inr (valid, cl) \<Rightarrow>
          if \<not> valid then Inl (Errorf ''token is not valid'')
          else if cl_Subject cl = '''' then Inl (Errorf ''token missing subject (sub) claim'')
          else Inr cl)"

lemma JWT_Validate_genuine:
  assumes "jwt_laws P family genuine" and "JWT_Validate P v now tok = Inr cl"
  shows "cl_Subject cl \<noteq> ''''"
    and "\<exists>alg. alg \<in> {''HS256'', ''HS384'', ''HS512''} \<and> family alg = HMAC \<and>
      genuine alg (jv_secret v) tok cl"
    and "\<exists>e. cl_ExpiresAt cl = Some e \<and> now < e"
    and "jv_issuer v = '''' \<or> cl_Issuer cl = jv_issuer v"
    and "jv_audience v = '''' \<or> jv_audience v \<in> set (cl_Audience cl)"
proof -
  have p: "P (jwt_options_of v) (keyfunc_of v) now tok = Inr (True, cl)" and
    s: "cl_Subject cl \<noteq> ''''"
    using assms(2) by (auto simp: JWT_Validate_def split: sum.splits if_splits)
  note l = assms(1) [unfolded jwt_laws_def, rule_format, OF p]
  show "cl_Subject cl \<noteq> ''''" by (rule s)
  from l obtain alg k where "alg \<in> set (jo_methods (jwt_options_of v))"
    "keyfunc_of v (family alg) alg = Inr k" "genuine alg k tok cl"
    by blast
  then show "\<exists>alg. alg \<in> {''HS256'', ''HS384'', ''HS512''} \<and> family alg = HMAC \<and>
      genuine alg (jv_secret v) tok cl"
    by (intro exI [of _ alg]) (auto simp: jwt_options_of_def keyfunc_of_def split: if_splits)
  show "\<exists>e. cl_ExpiresAt cl = Some e \<and> now < e"
    using l by (simp add: jwt_options_of_def)
  show "jv_issuer v = '''' \<or> cl_Issuer cl = jv_issuer v"
    using l by (cases "jv_issuer v = ''''") (simp_all add: jwt_options_of_def)
  show "jv_audience v = '''' \<or> jv_audience v \<in> set (cl_Audience cl)"
    using l by (cases "jv_audience v = ''''") (simp_all add: jwt_options_of_def)
qed

subsection \<open>A parser for the witnesses\<close>

text \<open>It knows one token, signed with one key; the laws hold for it.\<close>

definition table_jwt :: "string \<Rightarrow> bytes \<Rightarrow> claims \<Rightarrow> jwt_parser" where
  "table_jwt token secret cl opts key now tok =
     (if tok = token \<and> ''HS256'' \<in> set (jo_methods opts) \<and> key HMAC ''HS256'' = Inr secret \<and>
         (jo_exp_required opts \<longrightarrow> (case cl_ExpiresAt cl of None \<Rightarrow> False | Some e \<Rightarrow> now < e)) \<and>
         (case jo_issuer opts of None \<Rightarrow> True | Some i \<Rightarrow> cl_Issuer cl = i) \<and>
         (case jo_audience opts of None \<Rightarrow> True | Some a \<Rightarrow> a \<in> set (cl_Audience cl))
      then Inr (True, cl) else Inl (Errorf ''token is invalid''))"

lemma table_jwt_laws:
  "jwt_laws (table_jwt token secret cl) (\<lambda>_. HMAC)
     (\<lambda>alg k tok c. alg = ''HS256'' \<and> k = secret \<and> tok = token \<and> c = cl)"
  by (auto simp: jwt_laws_def table_jwt_def split: if_splits option.splits)

subsection \<open>Property\<close>

text \<open>
  C16: an accepted token. Under the documented meaning of the parser options, the validator
  returns claims only for a token signed with the configured secret and an HMAC method,
  not expired, with a subject, and from the configured issuer for the configured audience
  where these are set.
\<close>

theorem jwt_validate_genuine:
  assumes "jwt_laws P family genuine" and "JWT_Validate P v now tok = Inr cl"
  shows "(\<exists>alg. alg \<in> {''HS256'', ''HS384'', ''HS512''} \<and> family alg = HMAC \<and>
      genuine alg (jv_secret v) tok cl) \<and>
    (\<exists>e. cl_ExpiresAt cl = Some e \<and> now < e) \<and> cl_Subject cl \<noteq> '''' \<and>
    (jv_issuer v = '''' \<or> cl_Issuer cl = jv_issuer v) \<and>
    (jv_audience v = '''' \<or> jv_audience v \<in> set (cl_Audience cl))"
  using JWT_Validate_genuine [OF assms] by blast

definition sample_claims :: claims where
  "sample_claims = \<lparr> cl_Subject = ''root'', cl_Issuer = ''idp'', cl_Audience = [''bv''],
     cl_ExpiresAt = Some second, cl_Admin = False, cl_Roles = [''admin''] \<rparr>"

theorem jwt_validate_genuine_witness:
  "cl_Subject sample_claims \<noteq> '''' \<and>
   JWT_Validate (table_jwt ''tok'' ''key'' sample_claims)
     (NewJWTValidator \<lparr> vc_Secret = ''key'', vc_Issuer = ''idp'', vc_Audience = '''' \<rparr>) 0 ''tok'' =
     Inr sample_claims"
proof -
  let ?v = "NewJWTValidator \<lparr> vc_Secret = ''key'', vc_Issuer = ''idp'', vc_Audience = '''' \<rparr>"
  have r: "JWT_Validate (table_jwt ''tok'' ''key'' sample_claims) ?v 0 ''tok'' = Inr sample_claims"
    by (simp add: JWT_Validate_def table_jwt_def jwt_options_of_def keyfunc_of_def
        NewJWTValidator_def sample_claims_def)
  then show ?thesis using jwt_validate_genuine [OF table_jwt_laws r] by blast
qed

end
