(* ===== verification/Http.thy ===== *)
theory Http
  imports Json Auth
begin

section \<open>net/http as the server uses it, and the response writer (internal/api: writer.go)\<close>

text \<open>
  Requests, the server's own response writer with its rules for status and headers, the
  wrapper of \<open>writer.go\<close>, query parameters, and the request id of \<open>pkg/logger\<close>. A handler
  is a function of what it reads from outside (clock, randomness, a new UUID, the order of a
  map range), of the request, of the writer it is given and of the server; it returns, panics
  or never ends, with the writer and the server it leaves.
\<close>

subsection \<open>Writers\<close>

text \<open>
  \<open>bw_header\<close> is what \<open>Header()\<close> returns, \<open>bw_sent\<close> the status line and the headers once
  sent, \<open>bw_writable\<close> whether the connection still takes bytes.
\<close>

record base_writer =
  bw_header :: "string \<rightharpoonup> string"
  bw_sent :: "(nat \<times> (string \<rightharpoonup> string)) option"
  bw_body :: bytes
  bw_writable :: bool

definition base_WriteHeader :: "nat \<Rightarrow> base_writer \<Rightarrow> base_writer" where
  "base_WriteHeader code b =
     (case bw_sent b of None \<Rightarrow> b\<lparr>bw_sent := Some (code, bw_header b)\<rparr> | Some _ \<Rightarrow> b)"

definition base_Write :: "bytes \<Rightarrow> base_writer \<Rightarrow> bool \<times> base_writer" where
  "base_Write bs b =
     (let b = base_WriteHeader 200 b
      in if bw_writable b then (True, b\<lparr>bw_body := bw_body b @ bs\<rparr>) else (False, b))"

text \<open>\<open>responseWriter\<close> embeds a writer and keeps a status and whether it was written.\<close>

datatype writer =
    BaseWriter base_writer
  | ResponseWriter writer nat bool

definition newResponseWriter :: "writer \<Rightarrow> writer" where
  "newResponseWriter w = ResponseWriter w 200 False"

fun WriteHeader :: "nat \<Rightarrow> writer \<Rightarrow> writer" where
  "WriteHeader code (BaseWriter b) = BaseWriter (base_WriteHeader code b)"
| "WriteHeader code (ResponseWriter w statusCode written) =
     (if \<not> written then ResponseWriter (WriteHeader code w) code True
      else ResponseWriter w statusCode written)"

fun Write :: "bytes \<Rightarrow> writer \<Rightarrow> bool \<times> writer" where
  "Write bs (BaseWriter b) = (let (ok, b) = base_Write bs b in (ok, BaseWriter b))"
| "Write bs (ResponseWriter w statusCode written) =
     (let (statusCode, written) = (if \<not> written then (200, True) else (statusCode, written));
          (ok, w) = Write bs w
      in (ok, ResponseWriter w statusCode written))"

text \<open>\<open>Status\<close> is asked of a wrapper only.\<close>

fun Status :: "writer \<Rightarrow> nat" where
  "Status (ResponseWriter w statusCode written) = statusCode"
| "Status (BaseWriter b) = 0"

fun embedded :: "writer \<Rightarrow> writer" where
  "embedded (ResponseWriter w statusCode written) = w"
| "embedded (BaseWriter b) = BaseWriter b"

fun base_of :: "writer \<Rightarrow> base_writer" where
  "base_of (BaseWriter b) = b"
| "base_of (ResponseWriter w _ _) = base_of w"

text \<open>\<open>w.Header().Set(key, value)\<close> and \<open>http.Error\<close>.\<close>

fun Header_Set :: "string \<Rightarrow> string \<Rightarrow> writer \<Rightarrow> writer" where
  "Header_Set k v (BaseWriter b) = BaseWriter (b\<lparr>bw_header := (bw_header b)(k \<mapsto> v)\<rparr>)"
| "Header_Set k v (ResponseWriter w st wr) = ResponseWriter (Header_Set k v w) st wr"

fun Header_Del :: "string \<Rightarrow> writer \<Rightarrow> writer" where
  "Header_Del k (BaseWriter b) = BaseWriter (b\<lparr>bw_header := (bw_header b)(k := None)\<rparr>)"
| "Header_Del k (ResponseWriter w st wr) = ResponseWriter (Header_Del k w) st wr"

definition http_Error :: "string \<Rightarrow> nat \<Rightarrow> writer \<Rightarrow> writer" where
  "http_Error msg code w =
     (let w = Header_Del ''Content-Length'' w;
          w = Header_Set ''Content-Type'' ''text/plain; charset=utf-8'' w;
          w = Header_Set ''X-Content-Type-Options'' ''nosniff'' w
      in snd (Write (msg @ [CHR 0x0A]) (WriteHeader code w)))"

definition fresh_writer :: writer where
  "fresh_writer = BaseWriter \<lparr> bw_header = Map.empty, bw_sent = None, bw_body = '''', bw_writable = True \<rparr>"

definition StatusText :: "nat \<Rightarrow> string" where
  "StatusText n =
     (if n = 400 then ''Bad Request'' else if n = 401 then ''Unauthorized''
      else if n = 403 then ''Forbidden'' else if n = 404 then ''Not Found''
      else if n = 409 then ''Conflict'' else if n = 429 then ''Too Many Requests''
      else if n = 500 then ''Internal Server Error'' else if n = 503 then ''Service Unavailable''
      else '''')"

subsection \<open>Requests\<close>

text \<open>
  \<open>rq_Header\<close> gives the first value of a header by its canonical name. \<open>rq_limit\<close> is the
  limit \<open>MaxBytesReader\<close> put on the body.
\<close>

record request =
  rq_Method :: string
  rq_Path :: string
  rq_RawQuery :: string
  rq_RemoteAddr :: string
  rq_Header :: "string \<rightharpoonup> string"
  rq_Body :: bytes
  rq_limit :: "nat option"
  rq_ctx :: go_context

definition Header_Get :: "request \<Rightarrow> string \<Rightarrow> string" where
  "Header_Get r k = (case rq_Header r k of None \<Rightarrow> '''' | Some v \<Rightarrow> v)"

definition MaxBytesReader :: "int \<Rightarrow> request \<Rightarrow> request" where
  "MaxBytesReader n r = r\<lparr>rq_limit := Some (case rq_limit r of
     None \<Rightarrow> nat (max 0 n) | Some m \<Rightarrow> min m (nat (max 0 n)))\<rparr>"

text \<open>What can be read of the body, and whether the limit cuts it.\<close>

definition readable :: "request \<Rightarrow> bytes \<times> bool" where
  "readable r = (case rq_limit r of
       None \<Rightarrow> (rq_Body r, False)
     | Some n \<Rightarrow> (take n (rq_Body r), n < length (rq_Body r)))"

text \<open>\<open>r.URL.Query().Get(name)\<close>: the first value, with pairs that do not unescape left out.\<close>

fun QueryUnescape :: "string \<Rightarrow> string option" where
  "QueryUnescape [] = Some []"
| "QueryUnescape (c # cs) =
     (if c = CHR ''%'' then (case cs of
          a # b # rest \<Rightarrow> (case (from_hex a, from_hex b) of
              (Some x, Some y) \<Rightarrow> map_option (\<lambda>s. char_of (x * 16 + y) # s) (QueryUnescape rest)
            | _ \<Rightarrow> None)
        | _ \<Rightarrow> None)
      else map_option (\<lambda>s. (if c = CHR ''+'' then CHR '' '' else c) # s) (QueryUnescape cs))"

definition query_pair :: "string \<Rightarrow> (string \<times> string) option" where
  "query_pair s =
     (if s = '''' \<or> CHR '';'' \<in> set s then None
      else (case SplitN2 (CHR ''='') s of
          [k, v] \<Rightarrow> (case (QueryUnescape k, QueryUnescape v) of
              (Some k, Some v) \<Rightarrow> Some (k, v) | _ \<Rightarrow> None)
        | _ \<Rightarrow> map_option (\<lambda>k. (k, '''')) (QueryUnescape s)))"

definition Query_Get :: "request \<Rightarrow> string \<Rightarrow> string" where
  "Query_Get r name =
     (case map_of (List.map_filter query_pair (Split (CHR ''&'') (rq_RawQuery r))) name of
        Some v \<Rightarrow> v | None \<Rightarrow> '''')"

subsection \<open>Handlers\<close>

text \<open>
  \<open>io_now n\<close> is the n-th reading of the clock a request makes, in the order of the code.
  \<open>io_uuid\<close> is what \<open>uuid.New\<close> returns for the request's id, \<open>io_ticket\<close> what it returns for
  the ticket of the demo store; it panics when no randomness is available, which is
  \<open>None\<close>.
\<close>

record io =
  io_now :: "nat \<Rightarrow> instant"
  io_rand :: "bytes result"
  io_uuid :: "string option"
  io_ticket :: "string option"
  io_order :: "string list"

datatype outcome = Returned | Panicked | Hung

type_synonym 's handler = "io \<Rightarrow> request \<Rightarrow> writer \<Rightarrow> 's \<Rightarrow> outcome \<times> writer \<times> 's"

text \<open>\<open>logger.WithRequestID\<close>, without the logger it stores; \<open>None\<close> is a panic.\<close>

definition WithRequestID :: "io \<Rightarrow> go_context \<Rightarrow> (go_context \<times> string) option" where
  "WithRequestID io ctx = (case cx_request_id ctx of
       Some rid \<Rightarrow> Some (ctx, rid)
     | None \<Rightarrow> map_option (\<lambda>rid. (ctx\<lparr>cx_request_id := Some rid\<rparr>, rid)) (io_uuid io))"

subsection \<open>Facts about writers\<close>

lemma base_of_Header_Set [simp]:
  "base_of (Header_Set k v w) = (base_of w)\<lparr>bw_header := (bw_header (base_of w))(k \<mapsto> v)\<rparr>"
  by (induction w) (simp_all add: fun_upd_def)

lemma base_of_Header_Del [simp]:
  "base_of (Header_Del k w) = (base_of w)\<lparr>bw_header := (bw_header (base_of w))(k := None)\<rparr>"
  by (induction w) (simp_all add: fun_upd_def)

text \<open>The status that was sent first stays, whatever a handler writes afterwards.\<close>

lemma base_WriteHeader_sent [simp]: "bw_sent b = Some x \<Longrightarrow> base_WriteHeader code b = b"
  by (simp add: base_WriteHeader_def)

lemma bw_sent_base_Write [simp]: "bw_sent b = Some x \<Longrightarrow> bw_sent (snd (base_Write bs b)) = Some x"
  by (simp add: base_Write_def Let_def)

lemma WriteHeader_sent: "bw_sent (base_of w) = Some x \<Longrightarrow> base_of (WriteHeader code w) = base_of w"
  by (induction w) simp_all

lemma Write_sent: "bw_sent (base_of w) = Some x \<Longrightarrow> bw_sent (base_of (snd (Write bs w))) = Some x"
  by (induction w) (simp_all add: split_beta)

text \<open>
  A wrapper agrees with what it wraps: until it was written nothing was sent through it, and
  then its status is the one sent.
\<close>

fun wrapped :: "writer \<Rightarrow> bool" where
  "wrapped (BaseWriter b) = True"
| "wrapped (ResponseWriter w st wr) \<longleftrightarrow> wrapped w \<and>
     (if wr then \<exists>h. bw_sent (base_of w) = Some (st, h) else st = 200 \<and> bw_sent (base_of w) = None)"

lemma wrapped_new: "wrapped w \<Longrightarrow> bw_sent (base_of w) = None \<Longrightarrow> wrapped (newResponseWriter w)"
  by (simp add: newResponseWriter_def)

lemma bw_sent_WriteHeader:
  "wrapped w \<Longrightarrow> bw_sent (base_of w) = None \<Longrightarrow>
     bw_sent (base_of (WriteHeader code w)) = Some (code, bw_header (base_of w))"
  by (induction w) (auto simp: base_WriteHeader_def split: if_splits)

lemma bw_sent_Write:
  "wrapped w \<Longrightarrow> bw_sent (base_of w) = None \<Longrightarrow>
     bw_sent (base_of (snd (Write bs w))) = Some (200, bw_header (base_of w))"
  by (induction w) (auto simp: base_Write_def base_WriteHeader_def Let_def split_beta split: if_splits)

lemma wrapped_WriteHeader: "wrapped w \<Longrightarrow> wrapped (WriteHeader code w)"
  by (induction w) (auto simp: bw_sent_WriteHeader split: if_splits)

lemma wrapped_Write: "wrapped w \<Longrightarrow> wrapped (snd (Write bs w))"
  by (induction w) (auto simp: bw_sent_Write Write_sent split_beta split: if_splits)

lemma wrapped_Header_Set: "wrapped w \<Longrightarrow> wrapped (Header_Set k v w)"
  by (induction w) (auto split: if_splits)

lemma wrapped_Header_Del: "wrapped w \<Longrightarrow> wrapped (Header_Del k w)"
  by (induction w) (auto split: if_splits)

lemmas wrapped_ops = wrapped_WriteHeader wrapped_Write wrapped_Header_Set wrapped_Header_Del

lemma wrapped_fresh [simp]: "wrapped fresh_writer" "bw_sent (base_of fresh_writer) = None"
  by (simp_all add: fresh_writer_def)

text \<open>The status on the wire, and what each operation makes of it.\<close>

definition sent_status :: "writer \<Rightarrow> nat option" where
  "sent_status w = map_option fst (bw_sent (base_of w))"

lemma sent_status_WriteHeader:
  "wrapped w \<Longrightarrow> sent_status (WriteHeader code w) = Some (case sent_status w of None \<Rightarrow> code | Some st \<Rightarrow> st)"
  by (cases "bw_sent (base_of w)") (simp_all add: sent_status_def bw_sent_WriteHeader WriteHeader_sent)

lemma sent_status_Write:
  "wrapped w \<Longrightarrow> sent_status (snd (Write bs w)) = Some (case sent_status w of None \<Rightarrow> 200 | Some st \<Rightarrow> st)"
  by (cases "bw_sent (base_of w)") (simp_all add: sent_status_def bw_sent_Write Write_sent)

lemma sent_status_Header [simp]:
  "sent_status (Header_Set k v w) = sent_status w" "sent_status (Header_Del k w) = sent_status w"
  by (simp_all add: sent_status_def)

lemmas sent_status_ops = sent_status_WriteHeader sent_status_Write

lemma http_Error_status:
  "wrapped w \<Longrightarrow> sent_status (http_Error msg code w) = Some (case sent_status w of None \<Rightarrow> code | Some st \<Rightarrow> st)"
  "wrapped w \<Longrightarrow> wrapped (http_Error msg code w)"
  by (simp_all add: http_Error_def Let_def sent_status_ops wrapped_ops)

end
