(* ===== verification/Validation.thy ===== *)
theory Validation
  imports GoStd
begin

section \<open>Request validation (internal/validation, internal/api: types.go, validate.go)\<close>

text \<open>
  The two regular expressions, the three tag functions the package registers, and the
  validated request types. The validator library walks the tags of a struct; it is not part
  of the repository, so it is a parameter, with its documented reading of tags as the
  hypothesis \<open>validator_laws\<close>. \<open>reference_validator\<close> shows that it can hold.
\<close>

subsection \<open>The regular expressions\<close>

text \<open>
  Both expressions are anchored sequences of a character class with a repetition range;
  \<open>MatchString\<close> tries the possible lengths of each part.
\<close>

type_synonym re_part = "(char \<Rightarrow> bool) \<times> nat \<times> nat"

fun match_parts :: "re_part list \<Rightarrow> string \<Rightarrow> bool" where
  "match_parts [] s \<longleftrightarrow> s = []"
| "match_parts ((p, lo, hi) # ps) s \<longleftrightarrow>
     list_ex (\<lambda>k. k \<le> length s \<and> list_all p (take k s) \<and> match_parts ps (drop k s)) [lo..<Suc hi]"

definition is_digit :: "char \<Rightarrow> bool" where
  "is_digit c \<longleftrightarrow> (let n = of_char c :: nat in 48 \<le> n \<and> n \<le> 57)"

definition is_letter :: "char \<Rightarrow> bool" where
  "is_letter c \<longleftrightarrow> (let n = of_char c :: nat in 65 \<le> n \<and> n \<le> 90 \<or> 97 \<le> n \<and> n \<le> 122)"

definition class_char :: "char \<Rightarrow> bool" where
  "class_char c \<longleftrightarrow> is_letter c \<or> is_digit c \<or> c = CHR ''_'' \<or> c = CHR ''-''"

definition ReEpoch :: "re_part list" where
  "ReEpoch = [(is_digit, 4, 4), (\<lambda>c. c = CHR ''-'', 1, 1), (is_digit, 2, 2)]"

definition ReClass :: "re_part list" where
  "ReClass = [(class_char, 1, 64)]"

definition Epoch :: "string \<Rightarrow> bool" where
  "Epoch s \<longleftrightarrow> match_parts ReEpoch s"

definition Class :: "string \<Rightarrow> bool" where
  "Class s \<longleftrightarrow> match_parts ReClass s"

lemma Epoch_iff:
  "Epoch s \<longleftrightarrow> (\<exists>y m. s = y @ CHR ''-'' # m \<and> length y = 4 \<and> length m = 2 \<and>
     list_all is_digit y \<and> list_all is_digit m)"
proof
  assume "Epoch s"
  then have s: "list_all is_digit (take 4 s)" "list_all (\<lambda>c. c = CHR ''-'') (take 1 (drop 4 s))"
    "list_all is_digit (take 2 (drop 5 s))" "2 \<le> length s - 5" "length s \<le> 7"
    by (simp_all add: Epoch_def ReEpoch_def upt_rec)
  then have len: "length s = 7" by arith
  then have "s = take 4 s @ take 1 (drop 4 s) @ take 2 (drop 5 s)"
    by (simp add: list_eq_iff_nth_eq nth_append)
  moreover have "take 1 (drop 4 s) = ''-''"
    using s(2) len by (cases "drop 4 s") (auto dest: arg_cong [of "drop 4 s" _ length])
  ultimately have "s = take 4 s @ CHR ''-'' # take 2 (drop 5 s)" by simp
  then show "\<exists>y m. s = y @ CHR ''-'' # m \<and> length y = 4 \<and> length m = 2 \<and>
     list_all is_digit y \<and> list_all is_digit m"
    using s len by (intro exI [of _ "take 4 s"] exI [of _ "take 2 (drop 5 s)"]) simp
next
  assume "\<exists>y m. s = y @ CHR ''-'' # m \<and> length y = 4 \<and> length m = 2 \<and>
     list_all is_digit y \<and> list_all is_digit m"
  then show "Epoch s" by (auto simp: Epoch_def ReEpoch_def upt_rec)
qed

lemma Class_iff: "Class s \<longleftrightarrow> 1 \<le> length s \<and> length s \<le> 64 \<and> list_all class_char s"
proof -
  have "Class s \<longleftrightarrow> (\<exists>k \<in> {1..<65}. k \<le> length s \<and> list_all class_char (take k s) \<and> drop k s = [])"
    by (simp add: Class_def ReClass_def list_ex_iff del: upt_Suc)
  also have "\<dots> \<longleftrightarrow> 1 \<le> length s \<and> length s \<le> 64 \<and> list_all class_char s"
    by (auto intro!: bexI [of _ "length s"])
  finally show ?thesis .
qed

text \<open>Validated names keep the separators of keys and hash inputs out.\<close>

lemma Class_excludes:
  assumes "Class s"
  shows "s \<noteq> ''''" "NUL \<notin> set s" "CHR '':'' \<notin> set s"
proof -
  have "\<not> class_char NUL" "\<not> class_char (CHR '':'')"
    by (simp_all add: class_char_def is_letter_def is_digit_def Let_def)
  with assms show "s \<noteq> ''''" "NUL \<notin> set s" "CHR '':'' \<notin> set s"
    by (auto simp: Class_iff list_all_iff)
qed

lemma Epoch_excludes:
  assumes "Epoch s"
  shows "s \<noteq> ''''" "NUL \<notin> set s" "s \<noteq> ''all''" "length s = 7"
proof -
  have "\<not> is_digit NUL" by (simp add: is_digit_def Let_def)
  moreover show len: "length s = 7" using assms by (auto simp: Epoch_iff)
  ultimately show "NUL \<notin> set s" using assms by (auto simp: Epoch_iff list_all_iff)
  show "s \<noteq> ''''" "s \<noteq> ''all''" using len by auto
qed

subsection \<open>The registered tag functions\<close>

text \<open>A field is a string or a pointer to a time; a tag is a name with its parameter.\<close>

datatype field =
    FString string
  | FTime "instant option"

type_synonym tag = "string \<times> string"

definition hex_len_tag :: "field \<Rightarrow> string \<Rightarrow> bool" where
  "hex_len_tag fl param = (case fl of
       FString field \<Rightarrow>
         if TrimSpace field = '''' then False
         else (case Atoi param of None \<Rightarrow> False
           | Some expected \<Rightarrow> (case hex_decode field of Inl _ \<Rightarrow> False
               | Inr decoded \<Rightarrow> int (length decoded) = expected))
     | _ \<Rightarrow> False)"

definition class_tag :: "field \<Rightarrow> string \<Rightarrow> bool" where
  "class_tag fl param = (case fl of FString field \<Rightarrow> Class field | _ \<Rightarrow> False)"

definition epoch_tag :: "field \<Rightarrow> string \<Rightarrow> bool" where
  "epoch_tag fl param = (case fl of FString field \<Rightarrow> Epoch field | _ \<Rightarrow> False)"

definition registered :: "string \<Rightarrow> (field \<Rightarrow> string \<Rightarrow> bool) option" where
  "registered = [''hex_len'' \<mapsto> hex_len_tag, ''class'' \<mapsto> class_tag, ''epoch'' \<mapsto> epoch_tag]"

subsection \<open>The validator library\<close>

text \<open>
  A tag list is read from left to right: \<open>required\<close> wants a value that is not the zero
  value, \<open>omitempty\<close> ends the checks of a zero value, \<open>gt\<close> on a time wants an instant after
  now, a registered tag calls its function. \<open>Struct\<close> returns nil if and only if every field
  passes.
\<close>

fun zero_field :: "field \<Rightarrow> bool" where
  "zero_field (FString s) = (s = '''')"
| "zero_field (FTime t) = (t = None)"

fun tags_pass :: "instant \<Rightarrow> tag list \<Rightarrow> field \<Rightarrow> bool" where
  "tags_pass now [] fl = True"
| "tags_pass now ((name, param) # tags) fl =
     (if name = ''omitempty'' then zero_field fl \<or> tags_pass now tags fl
      else if name = ''required'' then \<not> zero_field fl \<and> tags_pass now tags fl
      else if name = ''gt'' then
        (case fl of FTime (Some u) \<Rightarrow> now < u | _ \<Rightarrow> False) \<and> tags_pass now tags fl
      else (case registered name of None \<Rightarrow> False | Some f \<Rightarrow> f fl param) \<and> tags_pass now tags fl)"

type_synonym struct_fields = "(string \<times> tag list \<times> field) list"
type_synonym validator = "instant \<Rightarrow> struct_fields \<Rightarrow> goerr option"

definition fields_pass :: "instant \<Rightarrow> struct_fields \<Rightarrow> bool" where
  "fields_pass now fs \<longleftrightarrow> list_all (\<lambda>(_, tags, fl). tags_pass now tags fl) fs"

definition validator_laws :: "validator \<Rightarrow> bool" where
  "validator_laws Vd \<longleftrightarrow> (\<forall>now fs. Vd now fs = None \<longleftrightarrow> fields_pass now fs)"

definition reference_validator :: validator where
  "reference_validator now fs =
     (if fields_pass now fs then None else Some (Errorf ''validation failed''))"

lemma reference_validator_laws: "validator_laws reference_validator"
  by (simp add: validator_laws_def reference_validator_def)

definition ValidateStruct :: "validator \<Rightarrow> instant \<Rightarrow> struct_fields option \<Rightarrow> goerr option" where
  "ValidateStruct Vd now value = (case value of
       None \<Rightarrow> Some (Errorf ''value is nil'')
     | Some fs \<Rightarrow> Vd now fs)"

subsection \<open>The request types\<close>

record issue_request =
  iq_BlindedMessage :: string
  iq_CredentialClass :: string

record consume_request =
  cq_UnblindedSignature :: string
  cq_Witness :: string
  cq_CredentialClass :: string
  cq_KeyEpoch :: string

record admin_revoke_request =
  aq_CredentialClass :: string
  aq_KeyEpoch :: string
  aq_Reason :: string
  aq_RevokedUntil :: "instant option"

record admin_unrevoke_request =
  uq_CredentialClass :: string
  uq_KeyEpoch :: string

abbreviation "required \<equiv> (''required'', '''')"
abbreviation "omitempty \<equiv> (''omitempty'', '''')"

definition issue_fields :: "issue_request \<Rightarrow> struct_fields" where
  "issue_fields r =
     [(''BlindedMessage'', [required, (''hex_len'', ''48'')], FString (iq_BlindedMessage r)),
      (''CredentialClass'', [required, (''class'', '''')], FString (iq_CredentialClass r))]"

definition consume_fields :: "consume_request \<Rightarrow> struct_fields" where
  "consume_fields r =
     [(''UnblindedSignature'', [required, (''hex_len'', ''48'')], FString (cq_UnblindedSignature r)),
      (''Witness'', [required, (''hex_len'', ''48'')], FString (cq_Witness r)),
      (''CredentialClass'', [required, (''class'', '''')], FString (cq_CredentialClass r)),
      (''KeyEpoch'', [required, (''epoch'', '''')], FString (cq_KeyEpoch r))]"

definition revoke_fields :: "admin_revoke_request \<Rightarrow> struct_fields" where
  "revoke_fields r =
     [(''CredentialClass'', [required, (''class'', '''')], FString (aq_CredentialClass r)),
      (''KeyEpoch'', [omitempty, (''epoch'', '''')], FString (aq_KeyEpoch r)),
      (''Reason'', [required], FString (aq_Reason r)),
      (''RevokedUntil'', [omitempty, (''gt'', '''')], FTime (aq_RevokedUntil r))]"

definition unrevoke_fields :: "admin_unrevoke_request \<Rightarrow> struct_fields" where
  "unrevoke_fields r =
     [(''CredentialClass'', [required, (''class'', '''')], FString (uq_CredentialClass r)),
      (''KeyEpoch'', [omitempty, (''epoch'', '''')], FString (uq_KeyEpoch r))]"

definition ValidateIssueRequest :: "validator \<Rightarrow> instant \<Rightarrow> issue_request \<Rightarrow> goerr option" where
  "ValidateIssueRequest Vd now req = ValidateStruct Vd now (Some (issue_fields req))"

definition ValidateConsumeRequest :: "validator \<Rightarrow> instant \<Rightarrow> consume_request \<Rightarrow> goerr option" where
  "ValidateConsumeRequest Vd now req = ValidateStruct Vd now (Some (consume_fields req))"

definition ValidateAdminRevokeRequest ::
    "validator \<Rightarrow> instant \<Rightarrow> admin_revoke_request \<Rightarrow> goerr option" where
  "ValidateAdminRevokeRequest Vd now req = ValidateStruct Vd now (Some (revoke_fields req))"

definition ValidateAdminUnrevokeRequest ::
    "validator \<Rightarrow> instant \<Rightarrow> admin_unrevoke_request \<Rightarrow> goerr option" where
  "ValidateAdminUnrevokeRequest Vd now req = ValidateStruct Vd now (Some (unrevoke_fields req))"

subsection \<open>What a validated request is\<close>

text \<open>A field of 48 hex-encoded bytes.\<close>

definition hex48 :: "string \<Rightarrow> bool" where
  "hex48 s \<longleftrightarrow> (\<exists>b. hex_decode s = Inr b \<and> length b = 48)"

lemma Atoi_48: "Atoi ''48'' = Some 48"
  by (simp add: Atoi_def digit_val_def Let_def)

text \<open>A hex string holds no space, so trimming it changes nothing.\<close>

lemma hex_decode_digits:
  "hex_decode s = Inr b \<Longrightarrow> x \<in> set s \<Longrightarrow> from_hex x \<noteq> None"
  by (induction s arbitrary: b rule: hex_decode.induct)
    (auto split: option.splits sum.splits if_splits)

lemma strip_one_None:
  "(\<And>p. p \<in> set ps \<Longrightarrow> p \<noteq> [] \<Longrightarrow> hd p \<noteq> c) \<Longrightarrow> strip_one ps (c # cs) = None"
proof (induction ps)
  case (Cons p ps)
  have "take (length p) (c # cs) \<noteq> p" if "p \<noteq> []"
    using Cons.prems [of p] that by (cases p) auto
  with Cons show ?case by auto
qed simp

lemma trim_left_id:
  "(\<And>p. p \<in> set ps \<Longrightarrow> p \<noteq> [] \<Longrightarrow> hd p \<noteq> c) \<Longrightarrow> trim_left ps (c # cs) = c # cs"
  by (subst trim_left.simps) (simp add: strip_one_None)

lemma space_rune_ends:
  "p \<in> set space_runes \<Longrightarrow> from_hex (hd p) = None \<and> from_hex (last p) = None \<and> p \<noteq> []"
proof -
  have "list_all (\<lambda>p. from_hex (hd p) = None \<and> from_hex (last p) = None \<and> p \<noteq> []) space_runes"
    by (simp add: space_runes_def upt_rec from_hex_def Let_def)
  then show "p \<in> set space_runes \<Longrightarrow> from_hex (hd p) = None \<and> from_hex (last p) = None \<and> p \<noteq> []"
    by (simp add: list_all_iff)
qed

lemma TrimSpace_hex:
  assumes "\<forall>x \<in> set s. from_hex x \<noteq> None"
  shows "TrimSpace s = s"
proof (cases "s = []")
  case True
  have "strip_one ps [] = None" for ps by (induction ps) auto
  then show ?thesis using True by (simp add: TrimSpace_def trim_left.simps)
next
  case False
  then obtain c cs where s: "s = c # cs" by (cases s) auto
  have l: "trim_left space_runes s = s"
    unfolding s using assms s space_rune_ends by (intro trim_left_id) fastforce
  from False obtain d ds where r: "rev s = d # ds" by (cases "rev s") auto
  have "d \<in> set s" using r by (metis list.set_intros(1) set_rev)
  then have "trim_left (map rev space_runes) (rev s) = rev s"
    unfolding r using assms space_rune_ends
    by (intro trim_left_id) (fastforce simp: hd_rev)
  then show ?thesis using l by (simp add: TrimSpace_def)
qed

lemma hex_len_48: "hex_len_tag (FString s) ''48'' \<longleftrightarrow> hex48 s"
proof (cases "hex_decode s")
  case (Inr b)
  then have "TrimSpace s = s" by (intro TrimSpace_hex) (auto dest: hex_decode_digits)
  then show ?thesis
    using Inr hex_decode_length [OF Inr] by (auto simp: hex_len_tag_def Atoi_48 hex48_def)
qed (auto simp: hex_len_tag_def hex48_def split: option.splits)

lemma not_hex48_empty [simp]: "\<not> hex48 ''''"
  by (simp add: hex48_def)

lemmas tag_reading = ValidateStruct_def validator_laws_def fields_pass_def registered_def
  class_tag_def epoch_tag_def hex_len_48

lemma ValidateIssueRequest_ok:
  "validator_laws Vd \<Longrightarrow> ValidateIssueRequest Vd now r = None \<longleftrightarrow>
     hex48 (iq_BlindedMessage r) \<and> Class (iq_CredentialClass r)"
  by (auto simp: ValidateIssueRequest_def issue_fields_def tag_reading
      dest: Class_excludes)

lemma ValidateConsumeRequest_ok:
  "validator_laws Vd \<Longrightarrow> ValidateConsumeRequest Vd now r = None \<longleftrightarrow>
     hex48 (cq_UnblindedSignature r) \<and> hex48 (cq_Witness r) \<and>
     Class (cq_CredentialClass r) \<and> Epoch (cq_KeyEpoch r)"
  by (auto simp: ValidateConsumeRequest_def consume_fields_def tag_reading
      dest: Class_excludes Epoch_excludes)

lemma ValidateAdminRevokeRequest_ok:
  "validator_laws Vd \<Longrightarrow> ValidateAdminRevokeRequest Vd now r = None \<longleftrightarrow>
     Class (aq_CredentialClass r) \<and> (aq_KeyEpoch r = '''' \<or> Epoch (aq_KeyEpoch r)) \<and>
     aq_Reason r \<noteq> '''' \<and> (\<forall>u. aq_RevokedUntil r = Some u \<longrightarrow> now < u)"
  by (cases "aq_RevokedUntil r")
    (auto simp: ValidateAdminRevokeRequest_def revoke_fields_def tag_reading
      dest: Class_excludes Epoch_excludes)

lemma ValidateAdminUnrevokeRequest_ok:
  "validator_laws Vd \<Longrightarrow> ValidateAdminUnrevokeRequest Vd now r = None \<longleftrightarrow>
     Class (uq_CredentialClass r) \<and> (uq_KeyEpoch r = '''' \<or> Epoch (uq_KeyEpoch r))"
  by (auto simp: ValidateAdminUnrevokeRequest_def unrevoke_fields_def tag_reading
      dest: Class_excludes Epoch_excludes)

subsection \<open>Property\<close>

text \<open>
  C33: request validation lets exactly the well-formed requests through. With a validator
  that reads tags as documented, a redemption request passes if and only if signature and
  witness are 48 hex-encoded bytes, the class has 1 to 64 letters, digits, underscores or
  hyphens, and the epoch has the form YYYY-MM; a revocation request if and only if class and
  optional epoch are of that form, a reason is given and an end lies in the future.
\<close>

theorem request_validation_exact:
  assumes "validator_laws Vd"
  shows "(ValidateConsumeRequest Vd now c = None \<longleftrightarrow>
      hex48 (cq_UnblindedSignature c) \<and> hex48 (cq_Witness c) \<and>
      (length (cq_CredentialClass c) \<in> {1..64} \<and> list_all class_char (cq_CredentialClass c)) \<and>
      (\<exists>y m. cq_KeyEpoch c = y @ CHR ''-'' # m \<and> length y = 4 \<and> length m = 2 \<and>
         list_all is_digit y \<and> list_all is_digit m)) \<and>
    (ValidateAdminRevokeRequest Vd now a = None \<longleftrightarrow>
      Class (aq_CredentialClass a) \<and> (aq_KeyEpoch a = '''' \<or> Epoch (aq_KeyEpoch a)) \<and>
      aq_Reason a \<noteq> '''' \<and> (case aq_RevokedUntil a of None \<Rightarrow> True | Some u \<Rightarrow> now < u))"
  using assms
  by (auto simp: ValidateConsumeRequest_ok ValidateAdminRevokeRequest_ok Class_iff Epoch_iff
      split: option.splits)

theorem request_validation_exact_witness:
  "ValidateAdminRevokeRequest reference_validator 0
     \<lparr> aq_CredentialClass = ''gold'', aq_KeyEpoch = '''', aq_Reason = ''leak'',
       aq_RevokedUntil = Some 5 \<rparr> = None"
  using request_validation_exact [OF reference_validator_laws, where now = 0 and a =
      "\<lparr> aq_CredentialClass = ''gold'', aq_KeyEpoch = '''', aq_Reason = ''leak'',
         aq_RevokedUntil = Some 5 \<rparr>"]
  by (simp add: Class_iff class_char_def is_letter_def Let_def)

end
