(* ===== verification/Sha256.thy ===== *)
theory Sha256
  imports GoStd
begin

unbundle bit_operations_syntax

section \<open>crypto/sha256 and crypto/hkdf\<close>

text \<open>
  SHA-256, HMAC and HKDF as the standard library computes them, on byte strings. The
  round constants are the fractional parts of the cube roots of the first 64 primes, the
  initial state those of the square roots of the first 8. Every definition is executable,
  so the published test vectors can be evaluated.
\<close>

type_synonym w32 = "32 word"

definition sha256_k :: "w32 list" where
  "sha256_k =
    [1116352408, 1899447441, 3049323471, 3921009573, 961987163, 1508970993,
     2453635748, 2870763221, 3624381080, 310598401, 607225278, 1426881987,
     1925078388, 2162078206, 2614888103, 3248222580, 3835390401, 4022224774,
     264347078, 604807628, 770255983, 1249150122, 1555081692, 1996064986,
     2554220882, 2821834349, 2952996808, 3210313671, 3336571891, 3584528711,
     113926993, 338241895, 666307205, 773529912, 1294757372, 1396182291,
     1695183700, 1986661051, 2177026350, 2456956037, 2730485921, 2820302411,
     3259730800, 3345764771, 3516065817, 3600352804, 4094571909, 275423344,
     430227734, 506948616, 659060556, 883997877, 958139571, 1322822218,
     1537002063, 1747873779, 1955562222, 2024104815, 2227730452, 2361852424,
     2428436474, 2756734187, 3204031479, 3329325298]"

definition sha256_h0 :: "w32 list" where
  "sha256_h0 =
    [1779033703, 3144134277, 1013904242, 2773480762, 1359893119, 2600822924,
     528734635, 1541459225]"

definition rotr :: "nat \<Rightarrow> w32 \<Rightarrow> w32" where
  "rotr n x = drop_bit n x OR push_bit (32 - n) x"

definition word_of_bytes :: "bytes \<Rightarrow> w32" where
  "word_of_bytes bs = word_of_int (be_val bs)"

fun block_words :: "nat \<Rightarrow> bytes \<Rightarrow> w32 list" where
  "block_words 0 bs = []"
| "block_words (Suc k) bs = word_of_bytes (take 4 bs) # block_words k (drop 4 bs)"

text \<open>
  The message schedule, kept newest first: word \<open>t\<close> needs the words 2, 7, 15 and 16
  places back.
\<close>

fun schedule :: "nat \<Rightarrow> w32 list \<Rightarrow> w32 list" where
  "schedule 0 ws = ws"
| "schedule (Suc k) ws =
     (let a = ws ! 1; b = ws ! 14;
          s1 = rotr 17 a XOR rotr 19 a XOR drop_bit 10 a;
          s0 = rotr 7 b XOR rotr 18 b XOR drop_bit 3 b
      in schedule k ((s1 + ws ! 6 + s0 + ws ! 15) # ws))"

definition message_schedule :: "bytes \<Rightarrow> w32 list" where
  "message_schedule block = rev (schedule 48 (rev (block_words 16 block)))"

type_synonym sha_state = "w32 \<times> w32 \<times> w32 \<times> w32 \<times> w32 \<times> w32 \<times> w32 \<times> w32"

fun sha_round :: "sha_state \<Rightarrow> w32 \<times> w32 \<Rightarrow> sha_state" where
  "sha_round (a, b, c, d, e, f, g, h) (k, w) =
     (let S1 = rotr 6 e XOR rotr 11 e XOR rotr 25 e;
          ch = (e AND f) XOR (NOT e AND g);
          t1 = h + S1 + ch + k + w;
          S0 = rotr 2 a XOR rotr 13 a XOR rotr 22 a;
          maj = (a AND b) XOR (a AND c) XOR (b AND c)
      in (t1 + S0 + maj, a, b, c, d + t1, e, f, g))"

fun sha_add :: "sha_state \<Rightarrow> sha_state \<Rightarrow> sha_state" where
  "sha_add (a, b, c, d, e, f, g, h) (a', b', c', d', e', f', g', h') =
     (a + a', b + b', c + c', d + d', e + e', f + f', g + g', h + h')"

definition sha_compress :: "sha_state \<Rightarrow> bytes \<Rightarrow> sha_state" where
  "sha_compress st block =
     sha_add st (foldl sha_round st (zip sha256_k (message_schedule block)))"

fun sha_blocks :: "nat \<Rightarrow> sha_state \<Rightarrow> bytes \<Rightarrow> sha_state" where
  "sha_blocks 0 st bs = st"
| "sha_blocks (Suc k) st bs = sha_blocks k (sha_compress st (take 64 bs)) (drop 64 bs)"

definition sha_pad :: "bytes \<Rightarrow> bytes" where
  "sha_pad m = m @ CHR 0x80 # replicate ((119 - length m mod 64) mod 64) NUL @
     be_bytes 8 (8 * int (length m) mod 2 ^ 64)"

definition sha_init :: sha_state where
  "sha_init = (case sha256_h0 of [a, b, c, d, e, f, g, h] \<Rightarrow> (a, b, c, d, e, f, g, h))"

fun sha_digest :: "sha_state \<Rightarrow> bytes" where
  "sha_digest (a, b, c, d, e, f, g, h) =
     concat (map (\<lambda>w. be_bytes 4 (uint w)) [a, b, c, d, e, f, g, h])"

definition sha256 :: "bytes \<Rightarrow> bytes" where
  "sha256 m = (let p = sha_pad m in sha_digest (sha_blocks (length p div 64) sha_init p))"

subsection \<open>HMAC and HKDF (RFC 2104, RFC 5869)\<close>

definition byte_xor :: "int \<Rightarrow> char \<Rightarrow> char" where
  "byte_xor k c = char_of (uint ((word_of_int k :: 8 word) XOR word_of_int (of_char c)))"

definition hmac_key :: "bytes \<Rightarrow> bytes" where
  "hmac_key k = (let k' = (if 64 < length k then sha256 k else k)
     in k' @ replicate (64 - length k') NUL)"

definition hmac_sha256 :: "bytes \<Rightarrow> bytes \<Rightarrow> bytes" where
  "hmac_sha256 k m =
     sha256 (map (byte_xor 92) (hmac_key k) @ sha256 (map (byte_xor 54) (hmac_key k) @ m))"

definition hkdf_extract :: "bytes \<Rightarrow> bytes \<Rightarrow> bytes" where
  "hkdf_extract secret salt = hmac_sha256 (if salt = [] then replicate 32 NUL else salt) secret"

text \<open>\<open>T(i) = HMAC(prk, T(i-1) || info || i)\<close> for \<open>i = 1, 2, \<dots>\<close>.\<close>

fun hkdf_blocks :: "nat \<Rightarrow> nat \<Rightarrow> bytes \<Rightarrow> bytes \<Rightarrow> bytes \<Rightarrow> bytes" where
  "hkdf_blocks 0 i prk info t = []"
| "hkdf_blocks (Suc n) i prk info t =
     (let t' = hmac_sha256 prk (t @ info @ [char_of i]) in t' @ hkdf_blocks n (Suc i) prk info t')"

definition hkdf_expand :: "bytes \<Rightarrow> string \<Rightarrow> nat \<Rightarrow> bytes" where
  "hkdf_expand prk info len = take len (hkdf_blocks ((len + 31) div 32) 1 prk info [])"

text \<open>\<open>hkdf.Key\<close>: an output longer than 255 blocks is an error.\<close>

definition hkdf_Key :: "bytes \<Rightarrow> bytes \<Rightarrow> string \<Rightarrow> nat \<Rightarrow> bytes result" where
  "hkdf_Key secret salt info len =
     (if 255 * 32 < len then Inl (Errorf ''hkdf: requested key length too large'')
      else Inr (hkdf_expand (hkdf_extract secret salt) info len))"

subsection \<open>Lengths\<close>

lemma length_sha256 [simp]: "length (sha256 m) = 32"
proof -
  have "length (sha_digest st) = 32" for st
    by (cases st rule: sha_digest.cases) simp
  then show ?thesis by (simp add: sha256_def Let_def)
qed

lemma length_hmac_sha256 [simp]: "length (hmac_sha256 k m) = 32"
  by (simp add: hmac_sha256_def)

lemma length_hkdf_blocks [simp]: "length (hkdf_blocks n i prk info t) = 32 * n"
  by (induction n arbitrary: i t) (simp_all add: Let_def)

lemma length_hkdf_expand [simp]: "length (hkdf_expand prk info len) = len"
proof -
  have "len \<le> 32 * ((len + 31) div 32)" by simp
  then show ?thesis by (simp add: hkdf_expand_def)
qed

text \<open>The padded message is a whole number of blocks.\<close>

lemma pad_residue:
  assumes "m < (64::nat)"
  shows "m + (1 + ((119 - m) mod 64 + 8)) = (if m \<le> 55 then 64 else 128)"
proof (cases "m \<le> 55")
  case True
  then have "119 - m = (55 - m) + 64" by simp
  then have "(119 - m) mod 64 = (55 - m) mod 64"
    by (simp only: mod_add_self2)
  with True show ?thesis by simp
next
  case False
  with assms show ?thesis by simp
qed

lemma sha_pad_blocks: "length (sha_pad m) mod 64 = 0"
proof -
  define q r where "q = length m div 64" and "r = length m mod 64"
  then have len: "length m = 64 * q + r" and r: "r < 64" by simp_all
  have "length (sha_pad m) = 64 * q + (r + (1 + ((119 - r) mod 64 + 8)))"
    by (simp add: sha_pad_def len r)
  also have "\<dots> mod 64 = 0"
    unfolding pad_residue [OF r] by simp
  finally show ?thesis .
qed

end
