(* ===== verification/Blst.thy ===== *)
theory Blst
  imports Sha256
begin

section \<open>The curve library blst, a parameter of the model\<close>

text \<open>
  The elliptic-curve arithmetic is done by \<open>github.com/supranational/blst\<close>, which is not
  part of the repository. Its operations are the fields of a record that every definition
  using them takes as an argument. A \<open>P1\<close> and its \<open>P1Affine\<close> are one point; conversions
  between the two representations leave no trace. \<open>Add\<close> and \<open>Mul\<close> on scalars return the
  value and a flag, as the library does.

  What the program relies on is the predicate \<open>blst_laws\<close>: scalars are the residues modulo
  the group order, the points of the two subgroups form cyclic groups of that order, the
  pairing is bilinear and non-degenerate, and the encodings are those of the library. It is
  stated through a view \<open>dlog\<close> that reads a scalar, and a point relative to the generator of
  its group, as a residue. The view occurs in hypotheses only, never in the program's
  definitions. At the end a group of order 3 shows that the laws can hold.
\<close>

record ('p1, 'p2, 's, 'ml) blst =
  hash_to_g1 :: "bytes \<Rightarrow> bytes \<Rightarrow> 'p1"
  p1_mult :: "'p1 \<Rightarrow> 's \<Rightarrow> 'p1"
  p1_add :: "'p1 \<Rightarrow> 'p1 \<Rightarrow> 'p1"
  p1_equals :: "'p1 \<Rightarrow> 'p1 \<Rightarrow> bool"
  p1_in_g1 :: "'p1 \<Rightarrow> bool"
  p1_sig_validate :: "'p1 \<Rightarrow> bool"
  p1_compress :: "'p1 \<Rightarrow> bytes option"
  p1_serialize :: "'p1 \<Rightarrow> bytes"
  p1_uncompress :: "bytes \<Rightarrow> 'p1 option"
  p2_generator :: "'p2"
  p2_mult :: "'p2 \<Rightarrow> 's \<Rightarrow> 'p2"
  p2_add :: "'p2 \<Rightarrow> 'p2 \<Rightarrow> 'p2"
  p2_equals :: "'p2 \<Rightarrow> 'p2 \<Rightarrow> bool"
  p2_in_g2 :: "'p2 \<Rightarrow> bool"
  p2_key_validate :: "'p2 \<Rightarrow> bool"
  p2_compress :: "'p2 \<Rightarrow> bytes option"
  p2_serialize :: "'p2 \<Rightarrow> bytes"
  p2_uncompress :: "bytes \<Rightarrow> 'p2 option"
  sc_serialize :: "'s \<Rightarrow> bytes"
  sc_from_be :: "bytes \<Rightarrow> 's"
  sc_hash_to :: "bytes \<Rightarrow> bytes \<Rightarrow> 's option"
  sc_add :: "'s \<Rightarrow> 's \<Rightarrow> 's \<times> bool"
  sc_mul :: "'s \<Rightarrow> 's \<Rightarrow> 's \<times> bool"
  sc_inverse :: "'s \<Rightarrow> 's"
  sc_equals :: "'s \<Rightarrow> 's \<Rightarrow> bool"
  miller_loop :: "'p2 \<Rightarrow> 'p1 \<Rightarrow> 'ml"
  final_verify :: "'ml \<Rightarrow> 'ml \<Rightarrow> bool"
  core_verify :: "'p1 \<Rightarrow> bool \<Rightarrow> 'p2 \<Rightarrow> bool \<Rightarrow> bytes \<Rightarrow> bytes \<Rightarrow> bool"

record ('p1, 'p2, 's) dlog =
  ord :: int
  sv :: "'s \<Rightarrow> int"
  d1 :: "'p1 \<Rightarrow> int"
  d2 :: "'p2 \<Rightarrow> int"

subsection \<open>The documented behaviour\<close>

text \<open>Scalars: the residues modulo the group order, with the library's arithmetic and codec.\<close>

definition sc_range_law :: "('p1, 'p2, 's) dlog \<Rightarrow> int \<Rightarrow> bool" where
  "sc_range_law D bound \<longleftrightarrow> 1 < ord D \<and> ord D \<le> bound \<and> (\<forall>s. 0 \<le> sv D s \<and> sv D s < ord D)"

definition sc_eq_law :: "('p1, 'p2, 's, 'ml) blst \<Rightarrow> ('p1, 'p2, 's) dlog \<Rightarrow> bool" where
  "sc_eq_law B D \<longleftrightarrow> inj (sv D) \<and> (\<forall>s t. sc_equals B s t \<longleftrightarrow> s = t)"

definition sc_arith_law :: "('p1, 'p2, 's, 'ml) blst \<Rightarrow> ('p1, 'p2, 's) dlog \<Rightarrow> bool" where
  "sc_arith_law B D \<longleftrightarrow>
     (\<forall>s t. sv D (fst (sc_add B s t)) = (sv D s + sv D t) mod ord D) \<and>
     (\<forall>s t. snd (sc_add B s t) \<longleftrightarrow> sv D (fst (sc_add B s t)) \<noteq> 0) \<and>
     (\<forall>s t. sv D (fst (sc_mul B s t)) = (sv D s * sv D t) mod ord D) \<and>
     (\<forall>s t. snd (sc_mul B s t) \<longleftrightarrow> sv D (fst (sc_mul B s t)) \<noteq> 0)"

definition sc_unit_law :: "('p1, 'p2, 's, 'ml) blst \<Rightarrow> ('p1, 'p2, 's) dlog \<Rightarrow> bool" where
  "sc_unit_law B D \<longleftrightarrow>
     (\<forall>s. sv D s \<noteq> 0 \<longrightarrow> (sv D s * sv D (sc_inverse B s)) mod ord D = 1) \<and>
     (\<forall>m d s. sc_hash_to B m d = Some s \<longrightarrow> sv D s \<noteq> 0)"

definition sc_codec_law :: "('p1, 'p2, 's, 'ml) blst \<Rightarrow> ('p1, 'p2, 's) dlog \<Rightarrow> bool" where
  "sc_codec_law B D \<longleftrightarrow>
     (\<forall>s. length (sc_serialize B s) = 32) \<and>
     (\<forall>s. be_val (sc_serialize B s) = sv D s) \<and>
     (\<forall>b. length b = 32 \<longrightarrow> be_val b < ord D \<longrightarrow> sv D (sc_from_be B b) = be_val b)"

text \<open>The two groups: cyclic of that order, with the library's membership tests and codecs.\<close>

definition g1_range_law :: "('p1, 'p2, 's, 'ml) blst \<Rightarrow> ('p1, 'p2, 's) dlog \<Rightarrow> bool" where
  "g1_range_law B D \<longleftrightarrow>
     (\<forall>p. p1_in_g1 B p \<longrightarrow> 0 \<le> d1 D p \<and> d1 D p < ord D) \<and>
     inj_on (d1 D) (Collect (p1_in_g1 B)) \<and>
     (\<forall>p q. p1_equals B p q \<longleftrightarrow> p = q)"

definition g1_group_law :: "('p1, 'p2, 's, 'ml) blst \<Rightarrow> ('p1, 'p2, 's) dlog \<Rightarrow> bool" where
  "g1_group_law B D \<longleftrightarrow>
     (\<forall>m d. p1_in_g1 B (hash_to_g1 B m d)) \<and>
     (\<forall>p s. p1_in_g1 B p \<longrightarrow> p1_in_g1 B (p1_mult B p s) \<and>
        d1 D (p1_mult B p s) = (d1 D p * sv D s) mod ord D) \<and>
     (\<forall>p q. p1_in_g1 B p \<longrightarrow> p1_in_g1 B q \<longrightarrow> p1_in_g1 B (p1_add B p q) \<and>
        d1 D (p1_add B p q) = (d1 D p + d1 D q) mod ord D) \<and>
     (\<forall>p. p1_sig_validate B p \<longleftrightarrow> p1_in_g1 B p \<and> d1 D p \<noteq> 0)"

definition g1_codec_law :: "('p1, 'p2, 's, 'ml) blst \<Rightarrow> bool" where
  "g1_codec_law B \<longleftrightarrow>
     (\<forall>p. p1_in_g1 B p \<longrightarrow> (\<exists>c. p1_compress B p = Some c \<and> length c = 48 \<and>
        p1_uncompress B c = Some p)) \<and>
     (\<forall>p. length (p1_serialize B p) = 96) \<and>
     inj_on (p1_serialize B) (Collect (p1_in_g1 B))"

definition g2_range_law :: "('p1, 'p2, 's, 'ml) blst \<Rightarrow> ('p1, 'p2, 's) dlog \<Rightarrow> bool" where
  "g2_range_law B D \<longleftrightarrow>
     (\<forall>p. p2_in_g2 B p \<longrightarrow> 0 \<le> d2 D p \<and> d2 D p < ord D) \<and>
     inj_on (d2 D) (Collect (p2_in_g2 B)) \<and>
     (\<forall>p q. p2_equals B p q \<longleftrightarrow> p = q)"

definition g2_group_law :: "('p1, 'p2, 's, 'ml) blst \<Rightarrow> ('p1, 'p2, 's) dlog \<Rightarrow> bool" where
  "g2_group_law B D \<longleftrightarrow>
     p2_in_g2 B (p2_generator B) \<and> d2 D (p2_generator B) = 1 \<and>
     (\<forall>p s. p2_in_g2 B p \<longrightarrow> p2_in_g2 B (p2_mult B p s) \<and>
        d2 D (p2_mult B p s) = (d2 D p * sv D s) mod ord D) \<and>
     (\<forall>p q. p2_in_g2 B p \<longrightarrow> p2_in_g2 B q \<longrightarrow> p2_in_g2 B (p2_add B p q) \<and>
        d2 D (p2_add B p q) = (d2 D p + d2 D q) mod ord D) \<and>
     (\<forall>p. p2_key_validate B p \<longleftrightarrow> p2_in_g2 B p \<and> d2 D p \<noteq> 0)"

definition g2_codec_law :: "('p1, 'p2, 's, 'ml) blst \<Rightarrow> bool" where
  "g2_codec_law B \<longleftrightarrow>
     (\<forall>p. p2_in_g2 B p \<longrightarrow> (\<exists>c. p2_compress B p = Some c \<and> length c = 96 \<and>
        p2_uncompress B c = Some p))"

text \<open>The pairing is bilinear and non-degenerate.\<close>

definition pairing_laws :: "('p1, 'p2, 's, 'ml) blst \<Rightarrow> ('p1, 'p2, 's) dlog \<Rightarrow> bool" where
  "pairing_laws B D \<longleftrightarrow>
     (\<forall>q p q' p'. p1_in_g1 B p \<and> p1_in_g1 B p' \<and> p2_in_g2 B q \<and> p2_in_g2 B q' \<longrightarrow>
        (final_verify B (miller_loop B q p) (miller_loop B q' p') \<longleftrightarrow>
           (d2 D q * d1 D p) mod ord D = (d2 D q' * d1 D p') mod ord D))"

text \<open>
  The verification of a message, which the code calls with both checks on: for a signature and a
  key that pass them it compares the pairings of the signature and of the hashed message. Only the
  verification of messages needs this law; it is not one of \<open>blst_laws\<close>.
\<close>

definition core_verify_law :: "('p1, 'p2, 's, 'ml) blst \<Rightarrow> ('p1, 'p2, 's) dlog \<Rightarrow> bool" where
  "core_verify_law B D \<longleftrightarrow> (\<forall>sig pk m d. p1_sig_validate B sig \<and> p2_key_validate B pk \<longrightarrow>
     (core_verify B sig True pk True m d \<longleftrightarrow> d1 D sig = (d2 D pk * d1 D (hash_to_g1 B m d)) mod ord D))"

text \<open>The order of the scalar field, as \<open>NewBlstScalarFromBytes\<close> spells it.\<close>

definition fr_order :: int where
  "fr_order = 0x73eda753299d7d483339d80809a1d80553bda402fffe5bfeffffffff00000001"

definition blst_laws :: "('p1, 'p2, 's, 'ml) blst \<Rightarrow> ('p1, 'p2, 's) dlog \<Rightarrow> bool" where
  "blst_laws B D \<longleftrightarrow>
     sc_range_law D fr_order \<and> sc_eq_law B D \<and> sc_arith_law B D \<and> sc_unit_law B D \<and>
     sc_codec_law B D \<and> g1_range_law B D \<and> g1_group_law B D \<and> g1_codec_law B \<and>
     g2_range_law B D \<and> g2_group_law B D \<and> g2_codec_law B \<and> pairing_laws B D"

subsection \<open>The laws as rules\<close>

lemma ord_gt_1: "blst_laws B D \<Longrightarrow> 1 < ord D"
  and ord_le_fr: "blst_laws B D \<Longrightarrow> ord D \<le> fr_order"
  and sv_nonneg: "blst_laws B D \<Longrightarrow> 0 \<le> sv D s"
  and sv_less: "blst_laws B D \<Longrightarrow> sv D s < ord D"
  by (simp_all add: blst_laws_def sc_range_law_def)

lemma sv_inj: "blst_laws B D \<Longrightarrow> sv D s = sv D t \<longleftrightarrow> s = t"
  and sc_equals_iff: "blst_laws B D \<Longrightarrow> sc_equals B s t \<longleftrightarrow> s = t"
  by (simp_all add: blst_laws_def sc_eq_law_def inj_eq)

lemma sv_add: "blst_laws B D \<Longrightarrow> sv D (fst (sc_add B s t)) = (sv D s + sv D t) mod ord D"
  and sc_add_ok: "blst_laws B D \<Longrightarrow> snd (sc_add B s t) \<longleftrightarrow> sv D (fst (sc_add B s t)) \<noteq> 0"
  and sv_mul: "blst_laws B D \<Longrightarrow> sv D (fst (sc_mul B s t)) = (sv D s * sv D t) mod ord D"
  and sc_mul_ok: "blst_laws B D \<Longrightarrow> snd (sc_mul B s t) \<longleftrightarrow> sv D (fst (sc_mul B s t)) \<noteq> 0"
  by (simp_all add: blst_laws_def sc_arith_law_def)

lemma sc_inverse_unit:
    "blst_laws B D \<Longrightarrow> sv D s \<noteq> 0 \<Longrightarrow> (sv D s * sv D (sc_inverse B s)) mod ord D = 1"
  and sc_hash_nonzero: "blst_laws B D \<Longrightarrow> sc_hash_to B m d = Some s \<Longrightarrow> sv D s \<noteq> 0"
  by (auto simp: blst_laws_def sc_unit_law_def)

lemma sc_serialize_length: "blst_laws B D \<Longrightarrow> length (sc_serialize B s) = 32"
  and sc_serialize_val: "blst_laws B D \<Longrightarrow> be_val (sc_serialize B s) = sv D s"
  and sc_from_be_val:
    "blst_laws B D \<Longrightarrow> length b = 32 \<Longrightarrow> be_val b < ord D \<Longrightarrow> sv D (sc_from_be B b) = be_val b"
  by (simp_all add: blst_laws_def sc_codec_law_def)

lemma d1_nonneg: "blst_laws B D \<Longrightarrow> p1_in_g1 B p \<Longrightarrow> 0 \<le> d1 D p"
  and d1_less: "blst_laws B D \<Longrightarrow> p1_in_g1 B p \<Longrightarrow> d1 D p < ord D"
  and d1_inj: "blst_laws B D \<Longrightarrow> p1_in_g1 B p \<Longrightarrow> p1_in_g1 B q \<Longrightarrow> d1 D p = d1 D q \<longleftrightarrow> p = q"
  and p1_equals_iff: "blst_laws B D \<Longrightarrow> p1_equals B p q \<longleftrightarrow> p = q"
  by (auto simp: blst_laws_def g1_range_law_def dest: inj_onD)

lemma hash_in_g1: "blst_laws B D \<Longrightarrow> p1_in_g1 B (hash_to_g1 B m d)"
  and p1_mult_in: "blst_laws B D \<Longrightarrow> p1_in_g1 B p \<Longrightarrow> p1_in_g1 B (p1_mult B p s)"
  and d1_mult: "blst_laws B D \<Longrightarrow> p1_in_g1 B p \<Longrightarrow> d1 D (p1_mult B p s) = (d1 D p * sv D s) mod ord D"
  and p1_add_in: "blst_laws B D \<Longrightarrow> p1_in_g1 B p \<Longrightarrow> p1_in_g1 B q \<Longrightarrow> p1_in_g1 B (p1_add B p q)"
  and d1_add: "blst_laws B D \<Longrightarrow> p1_in_g1 B p \<Longrightarrow> p1_in_g1 B q \<Longrightarrow>
     d1 D (p1_add B p q) = (d1 D p + d1 D q) mod ord D"
  and sig_validate_iff: "blst_laws B D \<Longrightarrow> p1_sig_validate B p \<longleftrightarrow> p1_in_g1 B p \<and> d1 D p \<noteq> 0"
  by (simp_all add: blst_laws_def g1_group_law_def)

lemma p1_serialize_length: "blst_laws B D \<Longrightarrow> length (p1_serialize B p) = 96"
  and p1_serialize_inj: "blst_laws B D \<Longrightarrow> p1_in_g1 B p \<Longrightarrow> p1_in_g1 B q \<Longrightarrow>
     p1_serialize B p = p1_serialize B q \<longleftrightarrow> p = q"
  by (auto simp: blst_laws_def g1_codec_law_def dest: inj_onD)

lemma p1_compress_round:
  assumes "blst_laws B D" and "p1_in_g1 B p"
  obtains c where "p1_compress B p = Some c" "length c = 48" "p1_uncompress B c = Some p"
  using assms by (auto simp: blst_laws_def g1_codec_law_def)

lemma gen_in_g2: "blst_laws B D \<Longrightarrow> p2_in_g2 B (p2_generator B)"
  and d2_gen: "blst_laws B D \<Longrightarrow> d2 D (p2_generator B) = 1"
  and p2_mult_in: "blst_laws B D \<Longrightarrow> p2_in_g2 B q \<Longrightarrow> p2_in_g2 B (p2_mult B q s)"
  and d2_mult: "blst_laws B D \<Longrightarrow> p2_in_g2 B q \<Longrightarrow> d2 D (p2_mult B q s) = (d2 D q * sv D s) mod ord D"
  and p2_add_in: "blst_laws B D \<Longrightarrow> p2_in_g2 B q \<Longrightarrow> p2_in_g2 B q' \<Longrightarrow> p2_in_g2 B (p2_add B q q')"
  and d2_add: "blst_laws B D \<Longrightarrow> p2_in_g2 B q \<Longrightarrow> p2_in_g2 B q' \<Longrightarrow>
     d2 D (p2_add B q q') = (d2 D q + d2 D q') mod ord D"
  and key_validate_iff: "blst_laws B D \<Longrightarrow> p2_key_validate B q \<longleftrightarrow> p2_in_g2 B q \<and> d2 D q \<noteq> 0"
  by (simp_all add: blst_laws_def g2_group_law_def)

lemma d2_nonneg: "blst_laws B D \<Longrightarrow> p2_in_g2 B q \<Longrightarrow> 0 \<le> d2 D q"
  and d2_less: "blst_laws B D \<Longrightarrow> p2_in_g2 B q \<Longrightarrow> d2 D q < ord D"
  and d2_inj: "blst_laws B D \<Longrightarrow> p2_in_g2 B q \<Longrightarrow> p2_in_g2 B q' \<Longrightarrow> d2 D q = d2 D q' \<longleftrightarrow> q = q'"
  and p2_equals_iff: "blst_laws B D \<Longrightarrow> p2_equals B q q' \<longleftrightarrow> q = q'"
  by (auto simp: blst_laws_def g2_range_law_def dest: inj_onD)

lemma p2_compress_round:
  assumes "blst_laws B D" and "p2_in_g2 B p"
  obtains c where "p2_compress B p = Some c" "length c = 96" "p2_uncompress B c = Some p"
  using assms by (auto simp: blst_laws_def g2_codec_law_def)

lemma final_verify_iff:
  "blst_laws B D \<Longrightarrow> p1_in_g1 B p \<Longrightarrow> p1_in_g1 B p' \<Longrightarrow> p2_in_g2 B q \<Longrightarrow> p2_in_g2 B q' \<Longrightarrow>
   final_verify B (miller_loop B q p) (miller_loop B q' p') \<longleftrightarrow>
     (d2 D q * d1 D p) mod ord D = (d2 D q' * d1 D p') mod ord D"
  by (simp add: blst_laws_def pairing_laws_def)

lemmas blst_rules =
  sc_equals_iff p1_equals_iff p2_equals_iff p1_mult_in p1_add_in p2_mult_in p2_add_in
  gen_in_g2 d2_gen hash_in_g1

declare blst_rules [blst_simps]

text \<open>Equal points are recognised by their residues.\<close>

lemma p1_eqI: "blst_laws B D \<Longrightarrow> p1_in_g1 B p \<Longrightarrow> p1_in_g1 B q \<Longrightarrow> d1 D p = d1 D q \<Longrightarrow> p = q"
  by (rule d1_inj [THEN iffD1])

lemma p2_eqI: "blst_laws B D \<Longrightarrow> p2_in_g2 B p \<Longrightarrow> p2_in_g2 B q \<Longrightarrow> d2 D p = d2 D q \<Longrightarrow> p = q"
  by (rule d2_inj [THEN iffD1])

lemma d1_mod: "blst_laws B D \<Longrightarrow> p1_in_g1 B p \<Longrightarrow> d1 D p mod ord D = d1 D p"
  by (simp add: d1_nonneg d1_less)

lemma sv_mod: "blst_laws B D \<Longrightarrow> sv D s mod ord D = sv D s"
  by (simp add: sv_nonneg sv_less)

text \<open>Every residue is the value of a scalar.\<close>

lemma sv_surj:
  assumes "blst_laws B D" and "0 \<le> v" and "v < ord D"
  obtains s where "sv D s = v"
proof -
  have "(256::int) ^ 32 > fr_order" by (simp add: fr_order_def)
  then have "v < 256 ^ 32" using assms ord_le_fr [of B D] by simp
  then have "be_val (be_bytes 32 v) = v" using assms(2) by (rule be_val_be_bytes [rotated])
  then have "sv D (sc_from_be B (be_bytes 32 v)) = v"
    using assms by (simp add: sc_from_be_val)
  then show thesis by (rule that)
qed

subsection \<open>The laws can hold: a group of order 3\<close>

text \<open>
  Scalars and both groups are the residues modulo 3, a pairing value is a product. The
  encodings are big-endian numbers of the library's widths; the hash of a message is
  1 or 2 by the parity of its length. The witnesses of the properties that assume
  \<open>blst_laws\<close> run the program on this library.
\<close>

datatype z3 = Z0 | Z1 | Z2

fun z3_val :: "z3 \<Rightarrow> int" where
  "z3_val Z0 = 0"
| "z3_val Z1 = 1"
| "z3_val Z2 = 2"

definition z3_of :: "int \<Rightarrow> z3" where
  "z3_of i = (if i mod 3 = 0 then Z0 else if i mod 3 = 1 then Z1 else Z2)"

definition z3_add :: "z3 \<Rightarrow> z3 \<Rightarrow> z3" where
  "z3_add a b = z3_of (z3_val a + z3_val b)"

definition z3_mul :: "z3 \<Rightarrow> z3 \<Rightarrow> z3" where
  "z3_mul a b = z3_of (z3_val a * z3_val b)"

definition z3_hash :: "bytes \<Rightarrow> z3" where
  "z3_hash m = (if even (length m) then Z1 else Z2)"

definition z3_enc :: "nat \<Rightarrow> z3 \<Rightarrow> bytes" where
  "z3_enc w a = be_bytes w (z3_val a)"

definition z3_dec :: "nat \<Rightarrow> bytes \<Rightarrow> z3 option" where
  "z3_dec w b = (if length b = w \<and> be_val b < 3 then Some (z3_of (be_val b)) else None)"

definition z3_blst :: "(z3, z3, z3, z3) blst" where
  "z3_blst = \<lparr>
     hash_to_g1 = (\<lambda>m d. z3_hash (m @ d)),
     p1_mult = z3_mul, p1_add = z3_add, p1_equals = (=), p1_in_g1 = (\<lambda>_. True),
     p1_sig_validate = (\<lambda>p. p \<noteq> Z0), p1_compress = (\<lambda>p. Some (z3_enc 48 p)),
     p1_serialize = z3_enc 96, p1_uncompress = z3_dec 48,
     p2_generator = Z1, p2_mult = z3_mul, p2_add = z3_add, p2_equals = (=),
     p2_in_g2 = (\<lambda>_. True), p2_key_validate = (\<lambda>p. p \<noteq> Z0),
     p2_compress = (\<lambda>p. Some (z3_enc 96 p)), p2_serialize = z3_enc 192,
     p2_uncompress = z3_dec 96,
     sc_serialize = z3_enc 32, sc_from_be = (\<lambda>b. z3_of (be_val b)),
     sc_hash_to = (\<lambda>m d. Some (z3_hash (m @ d))),
     sc_add = (\<lambda>a b. (z3_add a b, z3_add a b \<noteq> Z0)),
     sc_mul = (\<lambda>a b. (z3_mul a b, z3_mul a b \<noteq> Z0)),
     sc_inverse = id, sc_equals = (=),
     miller_loop = z3_mul, final_verify = (=),
     core_verify = (\<lambda>sig _ pk _ m d. z3_mul pk (z3_hash (m @ d)) = sig) \<rparr>"

lemma z3_ops:
  "p1_mult z3_blst = z3_mul" "p1_in_g1 z3_blst p" "p2_in_g2 z3_blst q" "sc_inverse z3_blst = id"
  "p1_compress z3_blst p = Some (z3_enc 48 p)"
  by (simp_all add: z3_blst_def)

lemma z3_mul_simps [simp]:
  "z3_mul Z0 b = Z0" "z3_mul Z1 b = b" "z3_mul Z2 Z0 = Z0" "z3_mul Z2 Z1 = Z2" "z3_mul Z2 Z2 = Z1"
  by (cases b; simp add: z3_mul_def z3_of_def)+

definition z3_dlog :: "(z3, z3, z3) dlog" where
  "z3_dlog = \<lparr> ord = 3, sv = z3_val, d1 = z3_val, d2 = z3_val \<rparr>"

lemma z3_val_range: "0 \<le> z3_val a" "z3_val a < 3"
  by (cases a; simp)+

lemma z3_val_of: "z3_val (z3_of i) = i mod 3"
proof -
  have "i mod 3 = 0 \<or> i mod 3 = 1 \<or> i mod 3 = 2" by presburger
  then show ?thesis by (auto simp: z3_of_def)
qed

lemma z3_val_eq: "z3_val a = z3_val b \<longleftrightarrow> a = b"
  by (cases a; cases b) simp_all

lemma z3_val_0: "z3_val a = 0 \<longleftrightarrow> a = Z0"
  by (cases a) simp_all

lemma z3_of_val: "z3_of (z3_val a) = a"
  by (cases a) (simp_all add: z3_of_def)

lemma be_val_z3_enc: "0 < w \<Longrightarrow> be_val (z3_enc w a) = z3_val a"
proof -
  assume "0 < w"
  then have "(256::int) ^ 1 \<le> 256 ^ w" by (intro power_increasing) simp_all
  then have "z3_val a < 256 ^ w" using z3_val_range(2) [of a] by simp
  then show ?thesis by (simp add: z3_enc_def be_val_be_bytes z3_val_range)
qed

lemma z3_codec: "0 < w \<Longrightarrow> z3_dec w (z3_enc w a) = Some a"
  by (simp add: z3_dec_def be_val_z3_enc z3_val_range z3_of_val) (simp add: z3_enc_def)

lemma z3_enc_inj: "0 < w \<Longrightarrow> inj (z3_enc w)"
  by (metis be_val_z3_enc injI z3_val_eq)

lemma z3_blst_laws: "blst_laws z3_blst z3_dlog"
proof -
  have "sc_range_law z3_dlog fr_order"
    by (simp add: sc_range_law_def z3_dlog_def fr_order_def z3_val_range)
  moreover have "sc_eq_law z3_blst z3_dlog"
    by (simp add: sc_eq_law_def z3_blst_def z3_dlog_def inj_def z3_val_eq)
  moreover have "sc_arith_law z3_blst z3_dlog"
    by (simp add: sc_arith_law_def z3_blst_def z3_dlog_def z3_add_def z3_mul_def z3_val_of)
      (simp add: z3_val_0 [symmetric] z3_val_of)
  moreover have "sc_unit_law z3_blst z3_dlog"
  proof -
    have "z3_val s \<noteq> 0 \<longrightarrow> (z3_val s * z3_val s) mod 3 = 1" for s by (cases s) simp_all
    then show ?thesis
      by (simp add: sc_unit_law_def z3_blst_def z3_dlog_def z3_hash_def)
  qed
  moreover have "sc_codec_law z3_blst z3_dlog"
    by (simp add: sc_codec_law_def z3_blst_def z3_dlog_def be_val_z3_enc z3_val_of be_val_nonneg)
      (simp add: z3_enc_def)
  moreover have "g1_range_law z3_blst z3_dlog"
    by (simp add: g1_range_law_def z3_blst_def z3_dlog_def z3_val_range inj_def z3_val_eq)
  moreover have "g1_group_law z3_blst z3_dlog"
    by (simp add: g1_group_law_def z3_blst_def z3_dlog_def z3_add_def z3_mul_def z3_val_of z3_val_0)
  moreover have "g1_codec_law z3_blst"
    by (simp add: g1_codec_law_def z3_blst_def z3_codec z3_enc_inj) (simp add: z3_enc_def)
  moreover have "g2_range_law z3_blst z3_dlog"
    by (simp add: g2_range_law_def z3_blst_def z3_dlog_def z3_val_range inj_def z3_val_eq)
  moreover have "g2_group_law z3_blst z3_dlog"
    by (simp add: g2_group_law_def z3_blst_def z3_dlog_def z3_add_def z3_mul_def z3_val_of z3_val_0)
  moreover have "g2_codec_law z3_blst"
    by (simp add: g2_codec_law_def z3_blst_def z3_codec) (simp add: z3_enc_def)
  moreover have "pairing_laws z3_blst z3_dlog"
    by (simp add: pairing_laws_def z3_blst_def z3_dlog_def z3_mul_def z3_val_of flip: z3_val_eq)
  ultimately show ?thesis by (simp add: blst_laws_def)
qed

lemma z3_core_verify_law: "core_verify_law z3_blst z3_dlog"
  by (auto simp: core_verify_law_def z3_blst_def z3_dlog_def z3_mul_def z3_val_of z3_val_eq [symmetric])

end
