(* ===== verification/Curve.thy ===== *)
theory Curve
  imports Blst
begin

section \<open>Scalars and points (pkg/crypto: scalar.go, point.go, serialize.go)\<close>

text \<open>
  A \<open>BlstScalar\<close>, a \<open>G1Point\<close> and a \<open>G2Point\<close> wrap one value of the curve library, so
  the wrapper is the value. The methods and constructors below are those of the package,
  with their checks in the order of the code. A nil byte slice is \<open>None\<close>.
\<close>

subsection \<open>Scalars\<close>

definition randomScalarDST :: bytes where
  "randomScalarDST = ''BCIS-V1-INTERNAL-RANDOM''"

text \<open>\<open>Bytes\<close> copies the serialisation into an array of 32 bytes.\<close>

definition Scalar_Bytes :: "('p1, 'p2, 's, 'ml) blst \<Rightarrow> 's \<Rightarrow> bytes" where
  "Scalar_Bytes B s = take 32 (sc_serialize B s @ replicate 32 NUL)"

definition Scalar_IsZero :: "('p1, 'p2, 's, 'ml) blst \<Rightarrow> 's \<Rightarrow> bool" where
  "Scalar_IsZero B s = list_all (\<lambda>v. v = NUL) (sc_serialize B s)"

definition PubKey :: "('p1, 'p2, 's, 'ml) blst \<Rightarrow> 's \<Rightarrow> 'p2" where
  "PubKey B s = p2_mult B (p2_generator B) s"

definition NewBlstScalarFromBytes :: "('p1, 'p2, 's, 'ml) blst \<Rightarrow> bytes \<Rightarrow> 's result" where
  "NewBlstScalarFromBytes B b =
     (if length b \<noteq> 32 then Inl (Errorf ''scalar must be 32 bytes'')
      else if fr_order \<le> be_val b then Inl (Errorf ''scalar is out of range'')
      else Inr (sc_from_be B b))"

definition NewBlstScalarWithDomain ::
    "('p1, 'p2, 's, 'ml) blst \<Rightarrow> bytes \<Rightarrow> bytes \<Rightarrow> 's option" where
  "NewBlstScalarWithDomain B b domain = sc_hash_to B b domain"

text \<open>The 48 bytes of \<open>rand.Read\<close>, or its error, are an argument.\<close>

definition NewRandomScalar :: "('p1, 'p2, 's, 'ml) blst \<Rightarrow> bytes result \<Rightarrow> 's result" where
  "NewRandomScalar B rnd = (case rnd of
       Inl e \<Rightarrow> Inl e
     | Inr seed \<Rightarrow> (case sc_hash_to B seed randomScalarDST of
         None \<Rightarrow> Inl (Errorf ''random scalar generation failed'')
       | Some s \<Rightarrow> Inr s))"

subsection \<open>Points\<close>

definition G1_Compress :: "('p1, 'p2, 's, 'ml) blst \<Rightarrow> 'p1 \<Rightarrow> bytes option" where
  "G1_Compress B p = p1_compress B p"

definition G1_Serialize :: "('p1, 'p2, 's, 'ml) blst \<Rightarrow> 'p1 \<Rightarrow> bytes" where
  "G1_Serialize B p = p1_serialize B p"

definition G1_IsValid :: "('p1, 'p2, 's, 'ml) blst \<Rightarrow> 'p1 \<Rightarrow> bool" where
  "G1_IsValid B p = p1_sig_validate B p"

definition G2_Compress :: "('p1, 'p2, 's, 'ml) blst \<Rightarrow> 'p2 \<Rightarrow> bytes option" where
  "G2_Compress B p = p2_compress B p"

definition G2_Serialize :: "('p1, 'p2, 's, 'ml) blst \<Rightarrow> 'p2 \<Rightarrow> bytes" where
  "G2_Serialize B p = p2_serialize B p"

definition G2_IsValid :: "('p1, 'p2, 's, 'ml) blst \<Rightarrow> 'p2 \<Rightarrow> bool" where
  "G2_IsValid B p = p2_key_validate B p"

subsection \<open>Deserialisation with the subgroup check\<close>

definition DeserializeG1 :: "('p1, 'p2, 's, 'ml) blst \<Rightarrow> bytes \<Rightarrow> 'p1 result" where
  "DeserializeG1 B data = (case p1_uncompress B data of
       None \<Rightarrow> Inl (Errorf ''invalid G1 point: deserialization failed'')
     | Some p \<Rightarrow>
         if \<not> p1_in_g1 B p then Inl (Errorf ''G1 point not in correct subgroup'') else Inr p)"

definition DeserializeG2 :: "('p1, 'p2, 's, 'ml) blst \<Rightarrow> bytes \<Rightarrow> 'p2 result" where
  "DeserializeG2 B data = (case p2_uncompress B data of
       None \<Rightarrow> Inl (Errorf ''invalid G2 point: deserialization failed'')
     | Some p \<Rightarrow>
         if \<not> p2_in_g2 B p then Inl (Errorf ''G2 point not in correct subgroup'') else Inr p)"

text \<open>\<open>hex.EncodeToString\<close> of a possibly nil slice.\<close>

definition hex_of :: "bytes option \<Rightarrow> string" where
  "hex_of b = (case b of None \<Rightarrow> '''' | Some c \<Rightarrow> hex_encode c)"

lemma hex_of_Some [simp]: "hex_of (Some c) = hex_encode c"
  by (simp add: hex_of_def)

subsection \<open>Lemmas\<close>

lemma Scalar_Bytes_eq: "blst_laws B D \<Longrightarrow> Scalar_Bytes B s = sc_serialize B s"
  by (simp add: Scalar_Bytes_def sc_serialize_length)

lemma length_Scalar_Bytes [simp]: "length (Scalar_Bytes B s) = 32"
  by (simp add: Scalar_Bytes_def)

lemma Scalar_IsZero_iff:
  assumes "blst_laws B D"
  shows "Scalar_IsZero B s \<longleftrightarrow> sv D s = 0"
proof -
  have z: "be_val (replicate n NUL) = 0" for n
  proof (induction n)
    case (Suc n)
    have "replicate (Suc n) NUL = replicate n NUL @ [NUL]"
      by (simp add: replicate_append_same)
    with Suc show ?case by (simp del: replicate_Suc)
  qed simp
  have a: "list_all (\<lambda>v. v = NUL) xs \<longleftrightarrow> xs = replicate (length xs) NUL" for xs
    by (induction xs) auto
  have "Scalar_IsZero B s \<longleftrightarrow> sc_serialize B s = replicate 32 NUL"
    unfolding Scalar_IsZero_def a by (simp only: sc_serialize_length [OF assms])
  also have "\<dots> \<longleftrightarrow> be_val (sc_serialize B s) = be_val (replicate 32 NUL)"
    using sc_serialize_length [OF assms, of s] by (simp add: be_val_inj)
  finally show ?thesis
    by (simp add: z sc_serialize_val [OF assms])
qed

lemma PubKey_in: "blst_laws B D \<Longrightarrow> p2_in_g2 B (PubKey B s)"
  by (simp add: PubKey_def blst_simps)

lemma d2_PubKey: "blst_laws B D \<Longrightarrow> d2 D (PubKey B s) = sv D s"
  by (simp add: PubKey_def d2_mult blst_simps sv_mod)

lemma PubKey_inj: "blst_laws B D \<Longrightarrow> PubKey B s = PubKey B t \<longleftrightarrow> s = t"
  by (metis d2_PubKey sv_inj)

lemma NewRandomScalar_nonzero:
  "blst_laws B D \<Longrightarrow> NewRandomScalar B rnd = Inr s \<Longrightarrow> sv D s \<noteq> 0"
  by (auto simp: NewRandomScalar_def sc_hash_nonzero split: sum.splits option.splits)

text \<open>A scalar survives being stored as bytes: the round trip the client's state file makes.\<close>

lemma scalar_bytes_roundtrip:
  assumes "blst_laws B D"
  shows "NewBlstScalarFromBytes B (Scalar_Bytes B s) = Inr s"
proof -
  let ?b = "sc_serialize B s"
  have len: "length ?b = 32" and val: "be_val ?b = sv D s"
    using assms by (simp_all add: sc_serialize_length sc_serialize_val)
  have lt: "be_val ?b < ord D" using val sv_less [OF assms] by simp
  have "sv D (sc_from_be B ?b) = sv D s"
    using sc_from_be_val [OF assms len lt] val by simp
  then have "sc_from_be B ?b = s" using sv_inj [OF assms] by simp
  moreover have "be_val ?b < fr_order" using lt ord_le_fr [OF assms] by simp
  ultimately show ?thesis
    using len by (simp add: NewBlstScalarFromBytes_def Scalar_Bytes_eq [OF assms])
qed

lemma NewBlstScalarFromBytes_ok_iff:
  "ok (NewBlstScalarFromBytes B b) \<longleftrightarrow> length b = 32 \<and> be_val b < fr_order"
  by (simp add: NewBlstScalarFromBytes_def not_le)

lemma DeserializeG1_in: "DeserializeG1 B b = Inr p \<Longrightarrow> p1_in_g1 B p"
  by (auto simp: DeserializeG1_def split: option.splits if_splits)

lemma DeserializeG2_in: "DeserializeG2 B b = Inr p \<Longrightarrow> p2_in_g2 B p"
  by (auto simp: DeserializeG2_def split: option.splits if_splits)

lemma deserialize_compress_G1:
  assumes "blst_laws B D" and "p1_in_g1 B p"
  obtains c where "G1_Compress B p = Some c" "length c = 48" "DeserializeG1 B c = Inr p"
proof -
  obtain c where "p1_compress B p = Some c" "length c = 48" "p1_uncompress B c = Some p"
    using p1_compress_round [OF assms] .
  with assms(2) show thesis
    by (intro that [of c]) (simp_all add: G1_Compress_def DeserializeG1_def)
qed

lemma deserialize_compress_G2:
  assumes "blst_laws B D" and "p2_in_g2 B p"
  obtains c where "G2_Compress B p = Some c" "length c = 96" "DeserializeG2 B c = Inr p"
proof -
  obtain c where "p2_compress B p = Some c" "length c = 96" "p2_uncompress B c = Some p"
    using p2_compress_round [OF assms] .
  with assms(2) show thesis
    by (intro that [of c]) (simp_all add: G2_Compress_def DeserializeG2_def)
qed

text \<open>What the API sends for a point of the group decodes to that point.\<close>

lemma hex_point_roundtrip:
  assumes "blst_laws B D" and "p1_in_g1 B p"
  obtains c where "hex_decode (hex_of (G1_Compress B p)) = Inr c" "length c = 48"
    "DeserializeG1 B c = Inr p"
proof -
  obtain c where "G1_Compress B p = Some c" "length c = 48" "DeserializeG1 B c = Inr p"
    using deserialize_compress_G1 [OF assms] .
  then show thesis by (intro that [of c]) simp_all
qed

end
