(* ===== verification/Engine.thy ===== *)
theory Engine
  imports Curve
begin

section \<open>The BLS12-381 engine (pkg/crypto: bls.go, dleq.go)\<close>

text \<open>
  Blinding, blind signing, unblinding, the two signature checks, and the non-interactive
  proof of equality of discrete logarithms. An engine carries its hash-to-curve function;
  its other operations do not depend on it. The randomness of \<open>NewRandomScalar\<close> is an
  argument.
\<close>

record 'p1 engine =
  hashToCurve :: "bytes \<Rightarrow> bytes option \<Rightarrow> 'p1 result"

definition defaultHashToCurve ::
    "('p1, 'p2, 's, 'ml) blst \<Rightarrow> bytes \<Rightarrow> bytes option \<Rightarrow> 'p1 result" where
  "defaultHashToCurve B data dst = (case dst of
       None \<Rightarrow> Inl (Errorf ''dst required'')
     | Some d \<Rightarrow> Inr (hash_to_g1 B data d))"

definition NewBLS12Engine :: "('p1, 'p2, 's, 'ml) blst \<Rightarrow> 'p1 engine" where
  "NewBLS12Engine B = \<lparr> hashToCurve = defaultHashToCurve B \<rparr>"

definition NewBLS12EngineWithHash :: "(bytes \<Rightarrow> bytes option \<Rightarrow> 'p1 result) \<Rightarrow> 'p1 engine" where
  "NewBLS12EngineWithHash hashFn = \<lparr> hashToCurve = hashFn \<rparr>"

definition HashToCurve :: "'p1 engine \<Rightarrow> bytes \<Rightarrow> bytes option \<Rightarrow> 'p1 result" where
  "HashToCurve e data dst = hashToCurve e data dst"

definition BlindMessage :: "('p1, 'p2, 's, 'ml) blst \<Rightarrow> 'p1 \<Rightarrow> 's \<Rightarrow> 'p1 result" where
  "BlindMessage B msg r = Inr (p1_mult B msg r)"

definition SignBlinded :: "('p1, 'p2, 's, 'ml) blst \<Rightarrow> 'p1 \<Rightarrow> 's \<Rightarrow> 'p1 result" where
  "SignBlinded B blinded sk = Inr (p1_mult B blinded sk)"

definition UnblindSignature :: "('p1, 'p2, 's, 'ml) blst \<Rightarrow> 'p1 \<Rightarrow> 's \<Rightarrow> 'p1 result" where
  "UnblindSignature B sig r = (let inv = sc_inverse B r in Inr (p1_mult B sig inv))"

definition Verify :: "('p1, 'p2, 's, 'ml) blst \<Rightarrow> 'p1 \<Rightarrow> bytes \<Rightarrow> bytes \<Rightarrow> 'p2 \<Rightarrow> bool" where
  "Verify B sig msg dst pk = core_verify B sig True pk True msg dst"

definition VerifyPoint :: "('p1, 'p2, 's, 'ml) blst \<Rightarrow> 'p1 \<Rightarrow> 'p1 \<Rightarrow> 'p2 \<Rightarrow> bool" where
  "VerifyPoint B sig msgPoint pk =
     (let gt1 = miller_loop B (p2_generator B) sig;
          gt2 = miller_loop B pk msgPoint
      in final_verify B gt1 gt2)"

subsection \<open>Discrete-logarithm equality\<close>

definition dleqProofDst :: bytes where
  "dleqProofDst = ''BCIS-V1-DLEQ-CHALLENGE''"

record ('p1, 'p2, 's) dleq_proof =
  pf_R1 :: 'p2
  pf_R2 :: 'p1
  pf_S :: 's
  pf_C :: 's

definition computeChallenge ::
    "('p1, 'p2, 's, 'ml) blst \<Rightarrow> 'p2 \<Rightarrow> 'p1 \<Rightarrow> 'p2 \<Rightarrow> 'p1 \<Rightarrow> 'p1 \<Rightarrow> 's result" where
  "computeChallenge B R1 R2 PK Bprime Cprime =
     (case p2_compress B R1 of None \<Rightarrow> Inl (Errorf ''R1 compress returned nil'')
      | Some r1Comp \<Rightarrow>
     (case p1_compress B R2 of None \<Rightarrow> Inl (Errorf ''R2 compress returned nil'')
      | Some r2Comp \<Rightarrow>
     (case p2_compress B PK of None \<Rightarrow> Inl (Errorf ''PK compress returned nil'')
      | Some pkComp \<Rightarrow>
     (case p1_compress B Bprime of None \<Rightarrow> Inl (Errorf ''Bprime compress returned nil'')
      | Some bComp \<Rightarrow>
     (case p1_compress B Cprime of None \<Rightarrow> Inl (Errorf ''Cprime compress returned nil'')
      | Some cComp \<Rightarrow>
        let data = r1Comp @ r2Comp @ pkComp @ bComp @ cComp in
        (case sc_hash_to B data dleqProofDst of
           None \<Rightarrow> Inl (Errorf ''challenge hash-to-scalar failed'')
         | Some c \<Rightarrow> Inr c))))))"

definition DLEQProve ::
    "('p1, 'p2, 's, 'ml) blst \<Rightarrow> bytes result \<Rightarrow> 's \<Rightarrow> 'p1 \<Rightarrow> 'p2 \<Rightarrow>
     ('p1, 'p2, 's) dleq_proof result" where
  "DLEQProve B rnd sk blinded pk =
     (case NewRandomScalar B rnd of Inl e \<Rightarrow> Inl e
      | Inr t \<Rightarrow>
        let R1 = p2_mult B (p2_generator B) t;
            R2 = p1_mult B blinded t;
            Cprime = p1_mult B blinded sk
        in (case computeChallenge B R1 R2 pk blinded Cprime of Inl e \<Rightarrow> Inl e
      | Inr c \<Rightarrow>
        let (c_sk, mul_ok) = sc_mul B c sk
        in if \<not> mul_ok then Inl (Errorf ''scalar multiplication failed'')
           else let (s, add_ok) = sc_add B t c_sk
                in if \<not> add_ok then Inl (Errorf ''scalar addition failed'')
                   else Inr \<lparr> pf_R1 = R1, pf_R2 = R2, pf_S = s, pf_C = c \<rparr>))"

definition DLEQVerify ::
    "('p1, 'p2, 's, 'ml) blst \<Rightarrow> ('p1, 'p2, 's) dleq_proof \<Rightarrow> 'p1 \<Rightarrow> 'p1 \<Rightarrow> 'p2 \<Rightarrow> bool" where
  "DLEQVerify B proof blinded sig pk =
     (case computeChallenge B (pf_R1 proof) (pf_R2 proof) pk blinded sig of
        Inl e \<Rightarrow> False
      | Inr cPrime \<Rightarrow>
        if \<not> sc_equals B (pf_C proof) cPrime then False
        else let left1 = p2_mult B (p2_generator B) (pf_S proof);
                 right1 = p2_add B (pf_R1 proof) (p2_mult B pk (pf_C proof))
             in if \<not> p2_equals B left1 right1 then False
                else let left2 = p1_mult B blinded (pf_S proof);
                         right2 = p1_add B (pf_R2 proof) (p1_mult B sig (pf_C proof))
                     in p1_equals B left2 right2)"

subsection \<open>Blind signatures\<close>

text \<open>Blinding then signing multiplies the exponents.\<close>

lemma d1_blind_sign:
  assumes "blst_laws B D" and "p1_in_g1 B m"
  shows "d1 D (p1_mult B (p1_mult B m r) sk) = (d1 D m * (sv D r * sv D sk)) mod ord D"
  using assms by (simp add: d1_mult blst_simps mod_mult_assoc_left)

text \<open>Multiplying by a scalar and then by its inverse is the identity on the group.\<close>

lemma mult_inverse_cancel:
  assumes L: "blst_laws B D" and m: "p1_in_g1 B m" and r: "sv D r \<noteq> 0"
  shows "p1_mult B (p1_mult B (p1_mult B m r) s) (sc_inverse B r) = p1_mult B m s"
proof (rule p1_eqI [OF L])
  let ?n = "ord D" and ?i = "sv D (sc_inverse B r)"
  have unit: "(sv D r * ?i) mod ?n = 1"
    using sc_inverse_unit [OF L r] .
  have "d1 D (p1_mult B (p1_mult B (p1_mult B m r) s) (sc_inverse B r)) =
      (d1 D m * (sv D r * sv D s) mod ?n * ?i) mod ?n"
    by (subst d1_mult [OF L]) (use L m in \<open>simp_all add: blst_simps d1_blind_sign\<close>)
  also have "\<dots> = ((d1 D m * sv D s) * (sv D r * ?i)) mod ?n"
    unfolding mod_mult_left_eq by (simp only: ac_simps)
  also have "\<dots> = ((d1 D m * sv D s) * ((sv D r * ?i) mod ?n)) mod ?n"
    by (simp add: mod_mult_right_eq)
  also have "\<dots> = d1 D (p1_mult B m s)"
    using L m unit by (simp add: d1_mult)
  finally show "d1 D (p1_mult B (p1_mult B (p1_mult B m r) s) (sc_inverse B r)) =
      d1 D (p1_mult B m s)" .
qed (use L m in \<open>simp_all add: blst_simps\<close>)

text \<open>The pairing check accepts exactly the point the secret key produces.\<close>

lemma VerifyPoint_PubKey_iff:
  assumes L: "blst_laws B D" and sig: "p1_in_g1 B sig" and m: "p1_in_g1 B m"
  shows "VerifyPoint B sig m (PubKey B sk) \<longleftrightarrow> sig = p1_mult B m sk"
proof -
  have "VerifyPoint B sig m (PubKey B sk) \<longleftrightarrow>
      (1 * d1 D sig) mod ord D = (sv D sk * d1 D m) mod ord D"
    using L sig m
    by (simp add: VerifyPoint_def Let_def final_verify_iff PubKey_in d2_PubKey blst_simps)
  also have "\<dots> \<longleftrightarrow> d1 D sig = d1 D (p1_mult B m sk)"
    using L sig m by (simp add: d1_mult mult.commute d1_mod)
  also have "\<dots> \<longleftrightarrow> sig = p1_mult B m sk"
    using L sig m by (simp add: d1_inj blst_simps)
  finally show ?thesis .
qed

subsection \<open>The equality proof\<close>

lemma computeChallenge_det:
  assumes "computeChallenge B R1 R2 PK Bp Cp = Inr c"
  shows "\<exists>m. sc_hash_to B m dleqProofDst = Some c"
  using assms by (auto simp: computeChallenge_def Let_def split: option.splits)

lemma DLEQProve_cases:
  assumes "DLEQProve B rnd sk blinded pk = Inr pf"
  obtains t c where "NewRandomScalar B rnd = Inr t"
    "pf_R1 pf = p2_mult B (p2_generator B) t" "pf_R2 pf = p1_mult B blinded t"
    "computeChallenge B (pf_R1 pf) (pf_R2 pf) pk blinded (p1_mult B blinded sk) = Inr c"
    "pf_C pf = c" "pf_S pf = fst (sc_add B t (fst (sc_mul B c sk)))"
  using assms
  by (auto simp: DLEQProve_def Let_def split: sum.splits prod.splits if_splits)

text \<open>The verification equations, read as residues.\<close>

lemma DLEQVerify_residues:
  assumes L: "blst_laws B D" and b: "p1_in_g1 B blinded" and s: "p1_in_g1 B sig"
    and pk: "p2_in_g2 B pk" and R1: "p2_in_g2 B (pf_R1 pf)" and R2: "p1_in_g1 B (pf_R2 pf)"
  shows "DLEQVerify B pf blinded sig pk \<longleftrightarrow>
     computeChallenge B (pf_R1 pf) (pf_R2 pf) pk blinded sig = Inr (pf_C pf) \<and>
     sv D (pf_S pf) = (d2 D (pf_R1 pf) + d2 D pk * sv D (pf_C pf)) mod ord D \<and>
     (d1 D blinded * sv D (pf_S pf)) mod ord D =
       (d1 D (pf_R2 pf) + d1 D sig * sv D (pf_C pf)) mod ord D"
proof -
  have e2: "p2_mult B (p2_generator B) (pf_S pf) = p2_add B (pf_R1 pf) (p2_mult B pk (pf_C pf)) \<longleftrightarrow>
      sv D (pf_S pf) = (d2 D (pf_R1 pf) + d2 D pk * sv D (pf_C pf)) mod ord D"
    using L pk R1
    by (simp add: d2_inj [OF L, symmetric] blst_simps d2_mult d2_add sv_mod mod_add_right_eq)
  have e1: "p1_mult B blinded (pf_S pf) = p1_add B (pf_R2 pf) (p1_mult B sig (pf_C pf)) \<longleftrightarrow>
      (d1 D blinded * sv D (pf_S pf)) mod ord D =
        (d1 D (pf_R2 pf) + d1 D sig * sv D (pf_C pf)) mod ord D"
    using L b s R2
    by (simp add: d1_inj [OF L, symmetric] blst_simps d1_mult d1_add mod_add_right_eq)
  show ?thesis
    using L e1 e2
    by (auto simp: DLEQVerify_def Let_def blst_simps split: sum.splits if_splits)
qed

subsection \<open>Field arithmetic behind the soundness of the proof\<close>

text \<open>Two residues that agree after multiplication by a non-zero residue are equal.\<close>

lemma residue_cancel:
  assumes L: "blst_laws B D" and e: "e mod ord D \<noteq> 0"
    and eq: "(e * a) mod ord D = (e * b) mod ord D"
  shows "a mod ord D = b mod ord D"
proof -
  have n: "1 < ord D" using ord_gt_1 [OF L] .
  obtain u where u: "sv D u = e mod ord D"
    using sv_surj [OF L, of "e mod ord D"] n by auto
  then have "(sv D u * sv D (sc_inverse B u)) mod ord D = 1 mod ord D"
    using sc_inverse_unit [OF L, of u] e n by simp
  moreover have "(sv D u * a) mod ord D = (sv D u * b) mod ord D"
    unfolding u mod_mult_left_eq by (rule eq)
  ultimately show ?thesis by (rule mod_cancel_unit)
qed

lemma residue_no_zero_divisors:
  assumes L: "blst_laws B D" and "a mod ord D \<noteq> 0" and "b mod ord D \<noteq> 0"
  shows "(a * b) mod ord D \<noteq> 0"
  using residue_cancel [OF L assms(2), of b 0] assms(3) by auto

lemma two_challenges_residue:
  fixes n :: int
  assumes "s mod n = (r1 + k * c) mod n" and "s' mod n = (r1 + k * c') mod n"
    and "(b * s) mod n = (r2 + g * c) mod n" and "(b * s') mod n = (r2 + g * c') mod n"
  shows "((c - c') * g) mod n = ((c - c') * (b * k)) mod n"
proof -
  have "(b * s - b * s') mod n = ((r2 + g * c) - (r2 + g * c')) mod n"
    using assms(3,4) by (rule mod_diff_cong)
  moreover have "(b * s - b * s') mod n = (b * (r1 + k * c) - b * (r1 + k * c')) mod n"
    using assms(1,2) by (intro mod_diff_cong mod_mult_cong refl)
  ultimately have "((r2 + g * c) - (r2 + g * c')) mod n = (b * (r1 + k * c) - b * (r1 + k * c')) mod n"
    by simp
  then show ?thesis by (simp add: algebra_simps)
qed

lemma DLEQVerify_accepts:
  assumes L: "blst_laws B D" and V: "DLEQVerify (B\<lparr>sc_hash_to := h\<rparr>) pf b sig pk"
    and b: "p1_in_g1 B b" and s: "p1_in_g1 B sig" and pk: "p2_in_g2 B pk"
    and R1: "p2_in_g2 B (pf_R1 pf)" and R2: "p1_in_g1 B (pf_R2 pf)"
  shows "sv D (pf_S pf) mod ord D = (d2 D (pf_R1 pf) + d2 D pk * sv D (pf_C pf)) mod ord D"
    and "(d1 D b * sv D (pf_S pf)) mod ord D = (d1 D (pf_R2 pf) + d1 D sig * sv D (pf_C pf)) mod ord D"
proof -
  have "p2_mult B (p2_generator B) (pf_S pf) = p2_add B (pf_R1 pf) (p2_mult B pk (pf_C pf))"
    and "p1_mult B b (pf_S pf) = p1_add B (pf_R2 pf) (p1_mult B sig (pf_C pf))"
    using V L by (auto simp: DLEQVerify_def Let_def blst_simps split: sum.splits if_splits)
  then have "d2 D (p2_mult B (p2_generator B) (pf_S pf)) = d2 D (p2_add B (pf_R1 pf) (p2_mult B pk (pf_C pf)))"
    and "d1 D (p1_mult B b (pf_S pf)) = d1 D (p1_add B (pf_R2 pf) (p1_mult B sig (pf_C pf)))"
    by simp_all
  then show "sv D (pf_S pf) mod ord D = (d2 D (pf_R1 pf) + d2 D pk * sv D (pf_C pf)) mod ord D"
    and "(d1 D b * sv D (pf_S pf)) mod ord D = (d1 D (pf_R2 pf) + d1 D sig * sv D (pf_C pf)) mod ord D"
    using L b s pk R1 R2
    by (simp_all add: blst_simps d1_mult d1_add d2_mult d2_add mod_add_right_eq)
qed

lemma blinding_factor_exists:
  assumes L: "blst_laws B D" and m: "p1_in_g1 B m" "d1 D m \<noteq> 0" and b: "p1_in_g1 B b"
  obtains r where "p1_mult B m r = b"
proof -
  have n: "1 < ord D" using ord_gt_1 [OF L] .
  obtain u where u: "sv D u = d1 D m"
    using sv_surj [OF L, of "d1 D m"] d1_nonneg [OF L m(1)] d1_less [OF L m(1)] by auto
  obtain r where r: "sv D r = (sv D (sc_inverse B u) * d1 D b) mod ord D"
    using sv_surj [OF L, of "(sv D (sc_inverse B u) * d1 D b) mod ord D"] n by auto
  have "d1 D (p1_mult B m r) = ((sv D u * sv D (sc_inverse B u)) mod ord D * d1 D b) mod ord D"
    using L m by (simp add: d1_mult u r mod_mult_right_eq mod_mult_left_eq mult.assoc)
  also have "\<dots> = d1 D b"
    using sc_inverse_unit [OF L, of u] m(2) d1_mod [OF L b] by (simp add: u)
  finally have "p1_mult B m r = b"
    using L m b by (intro p1_eqI [OF L]) (simp_all add: blst_simps)
  then show thesis by (rule that)
qed

lemma blinding_factor_unique:
  assumes L: "blst_laws B D" and m: "p1_in_g1 B m" "d1 D m \<noteq> 0"
    and eq: "p1_mult B m r = p1_mult B m r'"
  shows "r = r'"
proof -
  have eq': "(d1 D m * sv D r) mod ord D = (d1 D m * sv D r') mod ord D"
    using eq L m by (metis d1_mult)
  have "d1 D m mod ord D \<noteq> 0"
    using m d1_mod [OF L m(1)] by simp
  from residue_cancel [OF L this eq'] have "sv D r mod ord D = sv D r' mod ord D" .
  then show ?thesis using L by (simp add: sv_mod sv_inj)
qed

text \<open>
  The prover answers whenever its randomness and the challenge hash are available, unless
  the response happens to be the zero scalar.
\<close>

lemma DLEQProve_returns:
  assumes L: "blst_laws B D" and t: "NewRandomScalar B rnd = Inr t"
    and c: "computeChallenge B (PubKey B t) (p1_mult B b t) pk b (p1_mult B b sk) = Inr c"
    and sk: "sv D sk \<noteq> 0" and resp: "(sv D t + sv D c * sv D sk) mod ord D \<noteq> 0"
  shows "ok (DLEQProve B rnd sk b pk)"
proof -
  have "sv D c \<noteq> 0"
    using computeChallenge_det [OF c] sc_hash_nonzero [OF L] by blast
  then have "snd (sc_mul B c sk)"
    using residue_no_zero_divisors [OF L, of "sv D c" "sv D sk"] sk L
    by (simp add: sc_mul_ok sv_mul sv_mod)
  moreover have "snd (sc_add B t (fst (sc_mul B c sk)))"
    using resp L by (simp add: sc_add_ok sv_add sv_mul mod_add_right_eq)
  ultimately show ?thesis
    using t c by (auto simp: DLEQProve_def Let_def PubKey_def split: prod.splits)
qed

lemma DLEQProve_verifies:
  assumes L: "blst_laws B D" and b: "p1_in_g1 B b"
    and prove: "DLEQProve B rnd sk b (PubKey B sk) = Inr pf" and sign: "SignBlinded B b sk = Inr sig"
  shows "DLEQVerify B pf b sig (PubKey B sk)"
proof -
  obtain t c where R1: "pf_R1 pf = p2_mult B (p2_generator B) t" and R2: "pf_R2 pf = p1_mult B b t"
    and ch: "computeChallenge B (pf_R1 pf) (pf_R2 pf) (PubKey B sk) b (p1_mult B b sk) = Inr c"
    and C: "pf_C pf = c" and S: "pf_S pf = fst (sc_add B t (fst (sc_mul B c sk)))"
    using DLEQProve_cases [OF prove] by metis
  have s: "sig = p1_mult B b sk" using sign by (simp add: SignBlinded_def)
  have sv: "sv D (pf_S pf) = (sv D t + sv D c * sv D sk) mod ord D"
    using L by (simp add: S sv_add sv_mul mod_add_right_eq)
  have "sv D (pf_S pf) = (d2 D (pf_R1 pf) + d2 D (PubKey B sk) * sv D (pf_C pf)) mod ord D"
    using L by (simp add: sv R1 C d2_PubKey d2_mult blst_simps sv_mod mult.commute)
  moreover have "(d1 D b * sv D (pf_S pf)) mod ord D =
      (d1 D (pf_R2 pf) + d1 D sig * sv D (pf_C pf)) mod ord D"
    using L b by (simp add: sv R2 s C d1_mult mod_mult_right_eq mod_add_left_eq mod_add_mult_left)
      (simp add: algebra_simps)
  ultimately show ?thesis
    using L b ch by (simp add: DLEQVerify_residues PubKey_in R1 R2 s C blst_simps)
qed

subsection \<open>Properties\<close>

text \<open>The verification of a message accepts what the key signs.\<close>

lemma Verify_signed:
  assumes L: "blst_laws B D" and V: "core_verify_law B D" and m: "G1_IsValid B (hash_to_g1 B msg dst)" and k: "sv D sk \<noteq> 0"
  shows "Verify B (p1_mult B (hash_to_g1 B msg dst) sk) msg dst (PubKey B sk)"
proof -
  let ?m = "hash_to_g1 B msg dst"
  have m': "p1_in_g1 B ?m" "d1 D ?m \<noteq> 0" using m by (simp_all add: G1_IsValid_def sig_validate_iff [OF L])
  have d: "d1 D (p1_mult B ?m sk) = (d2 D (PubKey B sk) * d1 D ?m) mod ord D"
    using L m' by (simp add: d1_mult d2_PubKey mult.commute mod_mult_right_eq)
  obtain u where u: "sv D u = d1 D ?m"
    using sv_surj [OF L, of "d1 D ?m"] d1_nonneg [OF L m'(1)] d1_less [OF L m'(1)] by auto
  have "(d1 D ?m * sv D sk) mod ord D \<noteq> 0"
  proof
    assume z: "(d1 D ?m * sv D sk) mod ord D = 0"
    have "sv D sk mod ord D = ((sv D u * sv D (sc_inverse B u)) mod ord D * sv D sk) mod ord D"
      using sc_inverse_unit [OF L, of u] u m'(2) by simp
    also have "\<dots> = (sv D (sc_inverse B u) * ((d1 D ?m * sv D sk) mod ord D)) mod ord D"
      by (simp add: u mod_mult_left_eq mod_mult_right_eq ac_simps)
    finally show False using z k by (simp add: sv_mod [OF L])
  qed
  then have "p1_sig_validate B (p1_mult B ?m sk)" using L m' by (simp add: sig_validate_iff d1_mult blst_simps)
  moreover have "p2_key_validate B (PubKey B sk)" using L k by (simp add: key_validate_iff PubKey_in d2_PubKey)
  ultimately show ?thesis using V d by (simp add: core_verify_law_def Verify_def)
qed

text \<open>
  C10: the blind-signature protocol is correct. For a message point of the group and a
  blinding factor the random-scalar generator returned, unblinding the blind signature gives
  exactly the signature of the message point, and the redemption check accepts it. When the
  message point is the hash of a message and not the identity, and the key is not zero, the
  verification of the message accepts it too.
\<close>

theorem blind_signature_correct:
  assumes L: "blst_laws B D" and m: "p1_in_g1 B m" and r: "NewRandomScalar B rnd = Inr r"
    and blind: "BlindMessage B m r = Inr b" and sign: "SignBlinded B b sk = Inr s"
    and unblind: "UnblindSignature B s r = Inr sig"
  shows "SignBlinded B m sk = Inr sig \<and> VerifyPoint B sig m (PubKey B sk) \<and>
    (\<forall>msg dst. core_verify_law B D \<and> m = hash_to_g1 B msg dst \<and> G1_IsValid B m \<and> sv D sk \<noteq> 0 \<longrightarrow>
       Verify B sig msg dst (PubKey B sk))"
proof -
  have "sv D r \<noteq> 0" using NewRandomScalar_nonzero [OF L r] .
  then have sig: "sig = p1_mult B m sk"
    using mult_inverse_cancel [OF L m, of r sk] blind sign unblind
    by (simp add: BlindMessage_def SignBlinded_def UnblindSignature_def)
  then have "VerifyPoint B sig m (PubKey B sk)"
    using L m VerifyPoint_PubKey_iff [OF L _ m] by (simp add: blst_simps)
  then show ?thesis using sig Verify_signed [OF L] by (auto simp: SignBlinded_def)
qed

theorem blind_signature_correct_witness:
  "SignBlinded z3_blst Z1 Z2 = Inr Z2 \<and> VerifyPoint z3_blst Z2 Z1 (PubKey z3_blst Z2) \<and>
   Verify z3_blst Z2 '''' '''' (PubKey z3_blst Z2)"
proof -
  have "SignBlinded z3_blst Z1 Z2 = Inr Z2 \<and> VerifyPoint z3_blst Z2 Z1 (PubKey z3_blst Z2) \<and>
    (\<forall>msg dst. core_verify_law z3_blst z3_dlog \<and> Z1 = hash_to_g1 z3_blst msg dst \<and> G1_IsValid z3_blst Z1 \<and> sv z3_dlog Z2 \<noteq> 0 \<longrightarrow>
       Verify z3_blst Z2 msg dst (PubKey z3_blst Z2))"
  proof (rule blind_signature_correct [OF z3_blst_laws])
    show "p1_in_g1 z3_blst Z1" by (simp add: z3_blst_def)
    show "NewRandomScalar z3_blst (Inr ''seed'') = Inr Z2"
      by (simp add: NewRandomScalar_def z3_blst_def z3_hash_def randomScalarDST_def)
    show "BlindMessage z3_blst Z1 Z2 = Inr Z2" "SignBlinded z3_blst Z2 Z2 = Inr Z1"
      "UnblindSignature z3_blst Z1 Z2 = Inr Z2"
      by (simp_all add: BlindMessage_def SignBlinded_def UnblindSignature_def z3_blst_def
          z3_mul_def z3_of_def)
  qed
  moreover have "Z1 = hash_to_g1 z3_blst '''' ''''" "G1_IsValid z3_blst Z1" "sv z3_dlog Z2 \<noteq> 0"
    by (simp_all add: z3_blst_def z3_hash_def G1_IsValid_def z3_dlog_def)
  ultimately show ?thesis using z3_core_verify_law by blast
qed

text \<open>
  C18: the redemption check is exact. Among points of the group it accepts one signature per
  witness point and key, the one the secret key produces: no second signature of the same
  witness, hence no second nullifier, passes.
\<close>

theorem verify_point_exact:
  assumes "blst_laws B D" and "p1_in_g1 B sig" and "p1_in_g1 B m"
  shows "VerifyPoint B sig m (PubKey B sk) \<longleftrightarrow> SignBlinded B m sk = Inr sig"
  using VerifyPoint_PubKey_iff [OF assms] by (auto simp: SignBlinded_def)

theorem verify_point_exact_witness:
  "VerifyPoint z3_blst Z1 Z1 (PubKey z3_blst Z2) \<longleftrightarrow> SignBlinded z3_blst Z1 Z2 = Inr Z1"
  by (rule verify_point_exact [OF z3_blst_laws]) (simp_all add: z3_blst_def)

text \<open>
  The equality proof is complete. Every proof the server's prover returns for a blinded
  point of the group is accepted by the client's verifier for the blind signature under the
  server's public key; and the prover returns one whenever its randomness and the challenge
  hash are available, the key is not zero and neither is the response.
\<close>

lemma dleq_complete:
  assumes "blst_laws B D" and "p1_in_g1 B b" and "SignBlinded B b sk = Inr sig"
  shows "(\<forall>pf. DLEQProve B rnd sk b (PubKey B sk) = Inr pf \<longrightarrow> DLEQVerify B pf b sig (PubKey B sk)) \<and>
    (\<forall>t c. NewRandomScalar B rnd = Inr t \<longrightarrow>
       computeChallenge B (PubKey B t) (p1_mult B b t) (PubKey B sk) b sig = Inr c \<longrightarrow>
       sv D sk \<noteq> 0 \<longrightarrow> (sv D t + sv D c * sv D sk) mod ord D \<noteq> 0 \<longrightarrow>
       ok (DLEQProve B rnd sk b (PubKey B sk)))"
  using DLEQProve_verifies [OF assms(1,2) _ assms(3)] DLEQProve_returns [OF assms(1)] assms(3)
  by (auto simp: SignBlinded_def)

lemma dleq_complete_witness:
  "\<exists>pf. DLEQProve z3_blst (Inr ''seed'') Z2 Z2 (PubKey z3_blst Z2) = Inr pf \<and>
     DLEQVerify z3_blst pf Z2 Z1 (PubKey z3_blst Z2)"
proof -
  let ?pf = "\<lparr>pf_R1 = Z2, pf_R2 = Z1, pf_S = Z1, pf_C = Z1\<rparr>"
  have p: "DLEQProve z3_blst (Inr ''seed'') Z2 Z2 (PubKey z3_blst Z2) = Inr ?pf"
    by (simp add: DLEQProve_def NewRandomScalar_def computeChallenge_def z3_blst_def z3_hash_def
        randomScalarDST_def dleqProofDst_def z3_mul_def z3_add_def z3_of_def z3_enc_def PubKey_def)
  have "DLEQVerify z3_blst ?pf Z2 Z1 (PubKey z3_blst Z2)"
    by (rule dleq_complete [OF z3_blst_laws, THEN conjunct1, rule_format, OF _ _ p])
      (simp_all add: SignBlinded_def z3_blst_def z3_mul_def z3_of_def)
  with p show ?thesis by blast
qed

text \<open>
  C11: the equality proof is sound. If for one commitment \<open>(R1, R2)\<close> a prover can answer two
  different challenges (the challenge hash being replaced by another function \<open>h\<close> for the
  second run, as when a random oracle is rewound), then the blind signature is the blinded
  point multiplied by the secret key of the public key: for a wrong signature at most one
  challenge can be answered.
\<close>

theorem dleq_special_sound:
  assumes L: "blst_laws B D"
    and in1: "p1_in_g1 B b" and in2: "p1_in_g1 B sig" and in3: "p1_in_g1 B (pf_R2 pf)"
    and in4: "p2_in_g2 B (pf_R1 pf)"
    and run1: "DLEQVerify B pf b sig (PubKey B sk)"
    and run2: "DLEQVerify (B\<lparr>sc_hash_to := h\<rparr>) pf' b sig (PubKey B sk)"
    and same: "pf_R1 pf' = pf_R1 pf" "pf_R2 pf' = pf_R2 pf" and diff: "pf_C pf \<noteq> pf_C pf'"
  shows "SignBlinded B b sk = Inr sig"
proof -
  have run1': "DLEQVerify (B\<lparr>sc_hash_to := sc_hash_to B\<rparr>) pf b sig (PubKey B sk)"
    using run1 by simp
  note eqs = DLEQVerify_accepts [OF L run1' in1 in2 PubKey_in [OF L] in4 in3]
    DLEQVerify_accepts [OF L run2 in1 in2 PubKey_in [OF L], unfolded same, OF in4 in3]
  let ?e = "sv D (pf_C pf) - sv D (pf_C pf')"
  have eq: "(?e * d1 D sig) mod ord D = (?e * (d1 D b * sv D sk)) mod ord D"
    using two_challenges_residue [OF eqs(1) eqs(3) eqs(2) eqs(4)] by (simp add: d2_PubKey [OF L])
  have "?e mod ord D \<noteq> 0"
  proof
    assume "?e mod ord D = 0"
    then have "sv D (pf_C pf) mod ord D = sv D (pf_C pf') mod ord D"
      by (simp add: mod_eq_dvd_iff mod_eq_0_iff_dvd)
    then show False using diff L by (simp add: sv_mod sv_inj)
  qed
  from residue_cancel [OF L this eq] have "d1 D sig mod ord D = (d1 D b * sv D sk) mod ord D" .
  then have "sig = p1_mult B b sk"
    using L in1 in2 by (intro p1_eqI [OF L]) (simp_all add: blst_simps d1_mult d1_mod)
  then show ?thesis by (simp add: SignBlinded_def)
qed

theorem dleq_special_sound_witness:
  "SignBlinded z3_blst Z2 Z2 = Inr Z1"
proof (rule dleq_special_sound [OF z3_blst_laws, where h = "\<lambda>_ _. Some Z2"
      and pf = "\<lparr>pf_R1 = Z2, pf_R2 = Z1, pf_S = Z1, pf_C = Z1\<rparr>"
      and pf' = "\<lparr>pf_R1 = Z2, pf_R2 = Z1, pf_S = Z0, pf_C = Z2\<rparr>"])
  show "DLEQVerify z3_blst \<lparr>pf_R1 = Z2, pf_R2 = Z1, pf_S = Z1, pf_C = Z1\<rparr> Z2 Z1 (PubKey z3_blst Z2)"
    and "DLEQVerify (z3_blst\<lparr>sc_hash_to := \<lambda>_ _. Some Z2\<rparr>)
       \<lparr>pf_R1 = Z2, pf_R2 = Z1, pf_S = Z0, pf_C = Z2\<rparr> Z2 Z1 (PubKey z3_blst Z2)"
    by (simp_all add: DLEQVerify_def computeChallenge_def z3_blst_def z3_hash_def
        dleqProofDst_def z3_mul_def z3_add_def z3_of_def z3_enc_def PubKey_def)
qed (simp_all add: z3_blst_def)

text \<open>
  C29: blinding hides the message perfectly. For a message point other than the identity there
  is, for any point of the group, exactly one scalar that blinds the first into the second, so
  the blinded point the server sees is consistent with every such message. The identity stays as
  it is under every scalar.
\<close>

theorem blinding_perfect:
  assumes L: "blst_laws B D" and m: "p1_in_g1 B m" and b: "p1_in_g1 B b"
  shows "if G1_IsValid B m then \<exists>!r. BlindMessage B m r = Inr b
    else \<forall>r. BlindMessage B m r = Inr m"
proof (cases "G1_IsValid B m")
  case True
  then have m': "d1 D m \<noteq> 0" by (simp add: G1_IsValid_def sig_validate_iff [OF L])
  obtain r where r: "p1_mult B m r = b"
    using blinding_factor_exists [OF L m m' b] .
  have "\<exists>!r. BlindMessage B m r = Inr b"
  proof (rule ex1I [of _ r])
    show "BlindMessage B m r = Inr b" using r by (simp add: BlindMessage_def)
  next
    fix r' assume "BlindMessage B m r' = Inr b"
    then have "p1_mult B m r' = p1_mult B m r" using r by (simp add: BlindMessage_def)
    then show "r' = r" using blinding_factor_unique [OF L m m'] by blast
  qed
  then show ?thesis using True by simp
next
  case False
  then have "d1 D m = 0" using m by (simp add: G1_IsValid_def sig_validate_iff [OF L])
  then have "p1_mult B m r = m" for r
    using L m by (intro p1_eqI [OF L]) (simp_all add: d1_mult blst_simps)
  then show ?thesis using False by (simp add: BlindMessage_def)
qed

theorem blinding_perfect_witness:
  "(\<exists>!r. BlindMessage z3_blst Z1 r = Inr Z2) \<and> (\<forall>r. BlindMessage z3_blst Z0 r = Inr Z0)"
proof
  have v: "G1_IsValid z3_blst Z1" "\<not> G1_IsValid z3_blst Z0" "p1_in_g1 z3_blst x" for x
    by (simp_all add: G1_IsValid_def z3_blst_def)
  show "\<exists>!r. BlindMessage z3_blst Z1 r = Inr Z2"
    using blinding_perfect [OF z3_blst_laws v(3) v(3), of Z1 Z2] v(1) by simp
  show "\<forall>r. BlindMessage z3_blst Z0 r = Inr Z0"
    using blinding_perfect [OF z3_blst_laws v(3) v(3), of Z0 Z0] v(2) by simp
qed

end
