(* ===== verification/KeyDerivation.thy ===== *)
theory KeyDerivation
  imports Engine
begin

section \<open>Secure memory, signing keys and nullifiers
  (pkg/securememory, pkg/crypto: derive.go, nullifier.go)\<close>

text \<open>
  \<open>memguard\<close> is not part of the repository: sealing bytes into an enclave and opening one
  are the two fields of a record parameter. A signing key is derived from the seed in the
  enclave, the epoch and the credential class; a nullifier is a hash of the epoch, the class
  and the signature. Both build their hash input by joining fields with a NUL byte.
\<close>

subsection \<open>Enclaves\<close>

record 'e memguard =
  mg_seal :: "bytes \<Rightarrow> 'e"
  mg_open :: "'e \<Rightarrow> bytes result"

text \<open>The documented behaviour: opening what was sealed gives the bytes back.\<close>

definition memguard_laws :: "'e memguard \<Rightarrow> bool" where
  "memguard_laws M \<longleftrightarrow> (\<forall>b. b \<noteq> [] \<longrightarrow> mg_open M (mg_seal M b) = Inr b)"

definition NewEnclaveFromBytes :: "'e memguard \<Rightarrow> bytes \<Rightarrow> 'e" where
  "NewEnclaveFromBytes M data = mg_seal M data"

definition Enclave_Open :: "'e memguard \<Rightarrow> 'e \<Rightarrow> bytes result" where
  "Enclave_Open M e = (case mg_open M e of Inl err \<Rightarrow> Inl err | Inr buf \<Rightarrow> Inr buf)"

definition plain_memguard :: "bytes memguard" where
  "plain_memguard = \<lparr> mg_seal = id, mg_open = Inr \<rparr>"

lemma plain_memguard_laws: "memguard_laws plain_memguard"
  by (simp add: memguard_laws_def plain_memguard_def)

lemma open_sealed: "memguard_laws M \<Longrightarrow> b \<noteq> [] \<Longrightarrow> Enclave_Open M (NewEnclaveFromBytes M b) = Inr b"
  by (simp add: memguard_laws_def Enclave_Open_def NewEnclaveFromBytes_def)

subsection \<open>Signing keys\<close>

definition protocolTag :: string where "protocolTag = ''BCIS''"
definition purpose :: string where "purpose = ''SIGNING_KEY''"
definition salt :: bytes where "salt = ''BCIS-V1-SALT''"

definition derive_info :: "string \<Rightarrow> string \<Rightarrow> string" where
  "derive_info epoch credentialClass =
     protocolTag @ [NUL] @ purpose @ [NUL] @ epoch @ [NUL] @ credentialClass"

definition DeriveSigningKey ::
    "('p1, 'p2, 's, 'ml) blst \<Rightarrow> 'e memguard \<Rightarrow> 'e option \<Rightarrow> string \<Rightarrow> string \<Rightarrow> 's result" where
  "DeriveSigningKey B M seedEnclave epoch credentialClass =
     (case seedEnclave of None \<Rightarrow> Inl (Errorf ''master seed cannot be empty'')
      | Some e \<Rightarrow>
     (case Enclave_Open M e of Inl err \<Rightarrow> Inl err
      | Inr masterSeed \<Rightarrow>
        if masterSeed = [] then Inl (Errorf ''master seed cannot be empty'')
        else if epoch = '''' then Inl (Errorf ''epoch cannot be empty'')
        else if credentialClass = '''' then Inl (Errorf ''credential class cannot be empty'')
        else (case hkdf_Key masterSeed salt (derive_info epoch credentialClass) 64 of
            Inl err \<Rightarrow> Inl err
          | Inr hkdf_key \<Rightarrow> (case sc_hash_to B hkdf_key ''BCIS-V1-SCALAR'' of
              None \<Rightarrow> Inl (Errorf ''hash-to-scalar failed'')
            | Some sk \<Rightarrow> Inr sk))))"

text \<open>The output key material, as a function of seed, epoch and class.\<close>

definition derive_okm :: "bytes \<Rightarrow> string \<Rightarrow> string \<Rightarrow> bytes" where
  "derive_okm seed epoch credentialClass =
     hkdf_expand (hkdf_extract seed salt) (derive_info epoch credentialClass) 64"

lemma derive_info_inj:
  assumes "NUL \<notin> set e" and "NUL \<notin> set e'"
  shows "derive_info e c = derive_info e' c' \<longleftrightarrow> e = e' \<and> c = c'"
  using sep_append_eq_iff [OF assms] by (simp add: derive_info_def)

text \<open>The derivation on its only path without an error.\<close>

lemma DeriveSigningKey_ok_iff:
  "DeriveSigningKey B M seed ep cl = Inr sk \<longleftrightarrow>
     (\<exists>e ms. seed = Some e \<and> Enclave_Open M e = Inr ms \<and> ms \<noteq> [] \<and> ep \<noteq> '''' \<and> cl \<noteq> '''' \<and>
        sc_hash_to B (derive_okm ms ep cl) ''BCIS-V1-SCALAR'' = Some sk)"
  by (auto simp: DeriveSigningKey_def hkdf_Key_def derive_okm_def split: option.splits sum.splits)

lemma DeriveSigningKey_nonzero:
  "blst_laws B D \<Longrightarrow> DeriveSigningKey B M seed ep cl = Inr sk \<Longrightarrow> sv D sk \<noteq> 0"
  by (auto simp: DeriveSigningKey_ok_iff sc_hash_nonzero)

subsection \<open>Nullifiers\<close>

definition nullifier_preimage ::
    "('p1, 'p2, 's, 'ml) blst \<Rightarrow> string \<Rightarrow> string \<Rightarrow> 'p1 \<Rightarrow> bytes" where
  "nullifier_preimage B epoch credentialClass sig =
     ''BCIS-V1'' @ [NUL] @ epoch @ [NUL] @ credentialClass @ [NUL] @ G1_Serialize B sig @ [CHR 0x01]"

definition ComputeNullifier ::
    "('p1, 'p2, 's, 'ml) blst \<Rightarrow> string \<Rightarrow> string \<Rightarrow> 'p1 \<Rightarrow> bytes" where
  "ComputeNullifier B epoch credentialClass sig = sha256 (nullifier_preimage B epoch credentialClass sig)"

lemma length_ComputeNullifier [simp]: "length (ComputeNullifier B e c sig) = 32"
  by (simp add: ComputeNullifier_def)

lemma nullifier_preimage_inj:
  assumes L: "blst_laws B D" and s: "p1_in_g1 B sig" "p1_in_g1 B sig'"
    and "NUL \<notin> set e" "NUL \<notin> set e'" "NUL \<notin> set c" "NUL \<notin> set c'"
  shows "nullifier_preimage B e c sig = nullifier_preimage B e' c' sig' \<longleftrightarrow>
     e = e' \<and> c = c' \<and> sig = sig'"
  using assms sep_append_eq_iff [of NUL e e'] sep_append_eq_iff [of NUL c c'] p1_serialize_inj [OF L s]
  by (simp add: nullifier_preimage_def G1_Serialize_def)

text \<open>A collision of the hash function, the event the program's replay protection rules out.\<close>

definition sha256_collision :: "bytes \<Rightarrow> bytes \<Rightarrow> bool" where
  "sha256_collision a b \<longleftrightarrow> a \<noteq> b \<and> sha256 a = sha256 b"

lemma nullifier_eq_cases:
  assumes "blst_laws B D" "p1_in_g1 B sig" "p1_in_g1 B sig'"
    "NUL \<notin> set e" "NUL \<notin> set e'" "NUL \<notin> set c" "NUL \<notin> set c'"
    and "ComputeNullifier B e c sig = ComputeNullifier B e' c' sig'"
    and "\<not> sha256_collision (nullifier_preimage B e c sig) (nullifier_preimage B e' c' sig')"
  shows "e = e' \<and> c = c' \<and> sig = sig'"
  using assms nullifier_preimage_inj [OF assms(1-7)]
  by (auto simp: ComputeNullifier_def sha256_collision_def)

subsection \<open>Properties\<close>

text \<open>
  C30: nullifiers separate redemptions. For epochs and classes without NUL bytes (the
  validated ones) and signatures of the group, two redemptions share a nullifier only if
  they agree on epoch, class and signature, or their two hash inputs are a SHA-256 collision.
\<close>

theorem nullifier_separates:
  assumes "blst_laws B D" and "p1_in_g1 B sig" "p1_in_g1 B sig'"
    and "NUL \<notin> set e" "NUL \<notin> set e'" "NUL \<notin> set c" "NUL \<notin> set c'"
  shows "ComputeNullifier B e c sig = ComputeNullifier B e' c' sig' \<longleftrightarrow>
     (e, c, sig) = (e', c', sig') \<or>
     sha256_collision (nullifier_preimage B e c sig) (nullifier_preimage B e' c' sig')"
  using nullifier_preimage_inj [OF assms]
  by (auto simp: ComputeNullifier_def sha256_collision_def)

theorem nullifier_separates_witness:
  "ComputeNullifier z3_blst ''2026-01'' ''gold'' Z1 = ComputeNullifier z3_blst ''2026-02'' ''gold'' Z1 \<longleftrightarrow>
     (''2026-01'', ''gold'', Z1) = (''2026-02'', ''gold'', Z1) \<or>
     sha256_collision (nullifier_preimage z3_blst ''2026-01'' ''gold'' Z1)
       (nullifier_preimage z3_blst ''2026-02'' ''gold'' Z1)"
  by (rule nullifier_separates [OF z3_blst_laws]) (simp_all add: z3_blst_def)

text \<open>
  C31: key derivation fails exactly on its checked inputs and separates contexts. A key is
  returned if and only if the seed enclave opens to non-empty bytes, epoch and class are
  non-empty and the hash to a scalar succeeds; and two contexts whose epochs hold no NUL
  byte have the same HKDF info string only if both epoch and class agree.
\<close>

theorem derive_key_spec:
  assumes "NUL \<notin> set ep" and "NUL \<notin> set ep'"
  shows "(ok (DeriveSigningKey B M seed ep cl) \<longleftrightarrow>
      (\<exists>e ms sk. seed = Some e \<and> Enclave_Open M e = Inr ms \<and> ms \<noteq> [] \<and> ep \<noteq> '''' \<and> cl \<noteq> '''' \<and>
         sc_hash_to B (derive_okm ms ep cl) ''BCIS-V1-SCALAR'' = Some sk)) \<and>
    (derive_info ep cl = derive_info ep' cl' \<longleftrightarrow> ep = ep' \<and> cl = cl')"
  using derive_info_inj [OF assms] by (auto simp: ok_iff DeriveSigningKey_ok_iff)

theorem derive_key_spec_witness:
  "(ok (DeriveSigningKey z3_blst plain_memguard (Some ''seed'') ''2026-01'' ''gold'') \<longleftrightarrow>
      (\<exists>e ms sk. Some ''seed'' = Some e \<and> Enclave_Open plain_memguard e = Inr ms \<and> ms \<noteq> [] \<and>
         ''2026-01'' \<noteq> '''' \<and> ''gold'' \<noteq> '''' \<and>
         sc_hash_to z3_blst (derive_okm ms ''2026-01'' ''gold'') ''BCIS-V1-SCALAR'' = Some sk)) \<and>
    (derive_info ''2026-01'' ''gold'' = derive_info ''2026-02'' ''gold'' \<longleftrightarrow>
      ''2026-01'' = ''2026-02'' \<and> ''gold'' = ''gold'')"
  by (rule derive_key_spec) simp_all

end
