(* ===== verification/Config.thy ===== *)
theory Config
  imports Validation KeyDerivation
begin

section \<open>Configuration (internal/service: config.go, mode.go)\<close>

text \<open>
  The configuration record, its overrides from the environment, the loading of the master
  seed and the validation policy of each mode. Methods with a pointer receiver return the
  updated record. \<open>os.Getenv\<close> is a function argument (unset and empty are the same to the
  code), \<open>os.ReadFile\<close> another.
\<close>

subsection \<open>Modes\<close>

definition ModeDevelopment :: string where "ModeDevelopment = ''development''"
definition ModeTest :: string where "ModeTest = ''test''"
definition ModeProduction :: string where "ModeProduction = ''production''"

definition Mode_IsProduction :: "string \<Rightarrow> bool" where
  "Mode_IsProduction m \<longleftrightarrow> m = ModeProduction"

definition Mode_IsValid :: "string \<Rightarrow> bool" where
  "Mode_IsValid m \<longleftrightarrow> m = ModeDevelopment \<or> m = ModeTest \<or> m = ModeProduction"

subsection \<open>The record\<close>

definition SecretSourceInline :: string where "SecretSourceInline = ''inline''"
definition SecretSourceEnv :: string where "SecretSourceEnv = ''env''"
definition SecretSourceFile :: string where "SecretSourceFile = ''file''"

record 'e config =
  cf_Mode :: string
  cf_MasterSeedEnclave :: "'e option"
  cf_MasterSeedHex :: string
  cf_MasterSeedSource :: string
  cf_ListenAddr :: string
  cf_ActiveEpoch :: string
  cf_SupportedEpochs :: "string list"
  cf_DST :: string
  cf_AuthSecret :: string
  cf_JWTIssuer :: string
  cf_JWTAudience :: string
  cf_RedisAddr :: string
  cf_RedisPassword :: string
  cf_RedisDB :: int
  cf_RedisExpiration :: int
  cf_RevocationRedisAddr :: string
  cf_RevocationRedisPassword :: string
  cf_RevocationRedisDB :: int
  cf_RateLimitBurst :: int
  cf_RateLimit :: int
  cf_MaxClients :: int
  cf_UseMemoryStore :: bool
  cf_UseDemo :: bool

type_synonym env = "string \<Rightarrow> string"

subsection \<open>ApplyEnvOverrides\<close>

definition env_string :: "env \<Rightarrow> string \<Rightarrow> (string \<Rightarrow> 'e config \<Rightarrow> 'e config) \<Rightarrow> 'e config \<Rightarrow> 'e config" where
  "env_string getenv name set_field c =
     (let v = getenv name in if v \<noteq> '''' then set_field v c else c)"

definition env_int :: "env \<Rightarrow> string \<Rightarrow> (int \<Rightarrow> 'e config \<Rightarrow> 'e config) \<Rightarrow> 'e config \<Rightarrow> 'e config" where
  "env_int getenv name set_field c =
     (let v = getenv name in
      if v \<noteq> '''' then (case Atoi v of Some parsed \<Rightarrow> set_field parsed c | None \<Rightarrow> c) else c)"

definition env_bool :: "env \<Rightarrow> string \<Rightarrow> (bool \<Rightarrow> 'e config \<Rightarrow> 'e config) \<Rightarrow> 'e config \<Rightarrow> 'e config" where
  "env_bool getenv name set_field c =
     (let v = getenv name in
      if v \<noteq> '''' then (case ParseBool v of Some parsed \<Rightarrow> set_field parsed c | None \<Rightarrow> c) else c)"

definition ApplyEnvOverrides :: "env \<Rightarrow> 'e config \<Rightarrow> 'e config" where
  "ApplyEnvOverrides getenv c0 =
     (let c = env_string getenv ''BLINDVAULT_MODE'' (\<lambda>v c. c\<lparr>cf_Mode := v\<rparr>) c0;
          c = env_string getenv ''ACTIVE_EPOCH'' (\<lambda>v c. c\<lparr>cf_ActiveEpoch := v\<rparr>) c;
          c = env_string getenv ''SUPPORTED_EPOCHS''
                (\<lambda>v c. c\<lparr>cf_SupportedEpochs := map TrimSpace (Split (CHR '','') v)\<rparr>) c;
          c = env_string getenv ''DST'' (\<lambda>v c. c\<lparr>cf_DST := v\<rparr>) c;
          c = env_string getenv ''AUTH_SECRET'' (\<lambda>v c. c\<lparr>cf_AuthSecret := v\<rparr>) c;
          c = env_string getenv ''JWT_ISSUER'' (\<lambda>v c. c\<lparr>cf_JWTIssuer := v\<rparr>) c;
          c = env_string getenv ''JWT_AUDIENCE'' (\<lambda>v c. c\<lparr>cf_JWTAudience := v\<rparr>) c;
          c = env_string getenv ''LISTEN_ADDR'' (\<lambda>v c. c\<lparr>cf_ListenAddr := v\<rparr>) c;
          c = env_string getenv ''REDIS_ADDR'' (\<lambda>v c. c\<lparr>cf_RedisAddr := v\<rparr>) c;
          c = env_string getenv ''REDIS_PASSWORD'' (\<lambda>v c. c\<lparr>cf_RedisPassword := v\<rparr>) c;
          c = env_int getenv ''REDIS_DB'' (\<lambda>v c. c\<lparr>cf_RedisDB := v\<rparr>) c;
          c = env_int getenv ''REDIS_EXPIRATION'' (\<lambda>v c. c\<lparr>cf_RedisExpiration := v\<rparr>) c;
          c = env_string getenv ''REVOCATION_REDIS_ADDR'' (\<lambda>v c. c\<lparr>cf_RevocationRedisAddr := v\<rparr>) c;
          c = env_string getenv ''REVOCATION_REDIS_PASSWORD''
                (\<lambda>v c. c\<lparr>cf_RevocationRedisPassword := v\<rparr>) c;
          c = env_int getenv ''REVOCATION_REDIS_DB'' (\<lambda>v c. c\<lparr>cf_RevocationRedisDB := v\<rparr>) c;
          c = env_bool getenv ''USE_MEMORY_STORE'' (\<lambda>v c. c\<lparr>cf_UseMemoryStore := v\<rparr>) c;
          c = env_bool getenv ''USE_DEMO'' (\<lambda>v c. c\<lparr>cf_UseDemo := v\<rparr>) c;
          c = env_int getenv ''RATE_LIMIT_BURST'' (\<lambda>v c. c\<lparr>cf_RateLimitBurst := v\<rparr>) c;
          c = env_int getenv ''RATE_LIMIT_REQUESTS'' (\<lambda>v c. c\<lparr>cf_RateLimit := v\<rparr>) c
      in env_int getenv ''MAX_CLIENTS'' (\<lambda>v c. c\<lparr>cf_MaxClients := v\<rparr>) c)"

subsection \<open>The master seed\<close>

definition seal_seed ::
    "'e memguard \<Rightarrow> string \<Rightarrow> 'e config \<Rightarrow> goerr option \<times> 'e config" where
  "seal_seed M seedHex c = (case hex_decode seedHex of
       Inl err \<Rightarrow> (Some (Wrapf ''master seed is not valid hex'' err), c)
     | Inr raw \<Rightarrow>
         if length raw \<noteq> 32
         then (Some (Errorf (''master seed must decode to 32 bytes, got '' @ nat_str (length raw))), c)
         else (None, c\<lparr>cf_MasterSeedEnclave := Some (NewEnclaveFromBytes M raw),
                 cf_MasterSeedHex := ''''\<rparr>))"

definition LoadMasterSeed ::
    "'e memguard \<Rightarrow> env \<Rightarrow> (string \<Rightarrow> bytes result) \<Rightarrow> 'e config \<Rightarrow> goerr option \<times> 'e config" where
  "LoadMasterSeed M getenv readFile c =
     (if getenv ''BLINDVAULT_MASTER_SEED_HEX'' \<noteq> ''''
      then seal_seed M (getenv ''BLINDVAULT_MASTER_SEED_HEX'')
             (c\<lparr>cf_MasterSeedSource := SecretSourceEnv\<rparr>)
      else if getenv ''BLINDVAULT_SEED_FILE'' \<noteq> ''''
      then (case readFile (getenv ''BLINDVAULT_SEED_FILE'') of
              Inl err \<Rightarrow> (Some (Wrapf ''read seed file'' err), c)
            | Inr data \<Rightarrow> seal_seed M (TrimSpace data) (c\<lparr>cf_MasterSeedSource := SecretSourceFile\<rparr>))
      else if cf_MasterSeedHex c \<noteq> ''''
      then seal_seed M (cf_MasterSeedHex c) (c\<lparr>cf_MasterSeedSource := SecretSourceInline\<rparr>)
      else (Some (Errorf ''no master seed source configured''), c))"

text \<open>\<open>MasterSeed\<close> returns the enclave, sealing the inline seed on first use.\<close>

definition MasterSeed :: "'e memguard \<Rightarrow> 'e config \<Rightarrow> 'e result \<times> 'e config" where
  "MasterSeed M c = (case cf_MasterSeedEnclave c of
       Some e \<Rightarrow> (Inr e, c)
     | None \<Rightarrow>
        if cf_MasterSeedHex c \<noteq> '''' then
          (case hex_decode (cf_MasterSeedHex c) of
             Inl err \<Rightarrow> (Inl (Wrapf ''Unable to deserialize masterseed from Config'' err), c)
           | Inr seed \<Rightarrow>
               if length seed \<noteq> 32
               then (Inl (Errorf ''master seed must be 32 bytes (64 hex characters)''), c)
               else let e = NewEnclaveFromBytes M seed
                    in (Inr e, c\<lparr>cf_MasterSeedEnclave := Some e\<rparr>))
        else (Inl (Errorf ''Master seed not loaded''), c))"

definition DSTBytes :: "'e config \<Rightarrow> bytes" where
  "DSTBytes c = cf_DST c"

fun epoch_listed :: "string list \<Rightarrow> string \<Rightarrow> bool" where
  "epoch_listed [] epoch = False"
| "epoch_listed (e # es) epoch = (if e = epoch then True else epoch_listed es epoch)"

definition IsEpochSupported :: "'e config \<Rightarrow> string \<Rightarrow> bool" where
  "IsEpochSupported c epoch = epoch_listed (cf_SupportedEpochs c) epoch"

lemma IsEpochSupported_iff [simp]: "IsEpochSupported c epoch \<longleftrightarrow> epoch \<in> set (cf_SupportedEpochs c)"
proof -
  have "epoch_listed es epoch \<longleftrightarrow> epoch \<in> set es" for es by (induction es) auto
  then show ?thesis by (simp add: IsEpochSupported_def)
qed

subsection \<open>Validate\<close>

definition applyDevDefaults :: "'e config \<Rightarrow> 'e config" where
  "applyDevDefaults c =
     (let c = (if cf_MaxClients c \<le> 0 then c\<lparr>cf_MaxClients := 100000\<rparr> else c)
      in if cf_RedisExpiration c \<le> 0 then c\<lparr>cf_RedisExpiration := 2592000\<rparr> else c)"

definition validateNonProduction :: "'e config \<Rightarrow> goerr list \<Rightarrow> 'e config \<times> goerr list" where
  "validateNonProduction c errs =
     (let errs = (if cf_AuthSecret c = '''' then verr_Add errs (Some (Errorf ''auth_secret is required'')) else errs);
          errs = (if cf_RedisAddr c = '''' \<and> \<not> cf_UseMemoryStore c
            then verr_Add errs (Some (Errorf ''either redis_addr or use_memory_store must be set''))
            else errs);
          c = (if cf_DST c = '''' then c\<lparr>cf_DST := ''BCIS-V1-MESSAGE''\<rparr> else c)
      in (applyDevDefaults c, errs))"

text \<open>The warning about the default DST is a log line and is not modelled.\<close>

definition validateProduction :: "'e config \<Rightarrow> goerr list \<Rightarrow> goerr list" where
  "validateProduction c errs =
     (let errs = (if cf_MasterSeedSource c = SecretSourceInline
            then verr_Add errs (Some (Errorf (''blindvault_master_seed_hex from config file(YAML) is forbidden in production; '' @
                   ''use BLINDVAULT_MASTER_SEED_HEX or BLINDVAULT_SEED_FILE''))) else errs);
          errs = (if cf_UseMemoryStore c
            then verr_Add errs (Some (Errorf ''use_memory_store is forbidden in production'')) else errs);
          errs = (if cf_AuthSecret c = ''''
            then verr_Add errs (Some (Errorf ''auth_secret is required in production''))
            else let errs = (if length (cf_AuthSecret c) < 32
                   then verr_Add errs (Some (Errorf (''auth_secret must be at least 32 characters in production (got '' @
                          nat_str (length (cf_AuthSecret c)) @ '')''))) else errs)
                 in if cf_AuthSecret c = ''super-secret-token'' \<or> cf_AuthSecret c = ''changeme''
                    then verr_Add errs (Some (Errorf ''auth_secret is a well-known default value''))
                    else errs);
          errs = (if cf_JWTIssuer c = ''''
            then verr_Add errs (Some (Errorf ''jwt_issuer is required in production'')) else errs);
          errs = (if cf_JWTAudience c = ''''
            then verr_Add errs (Some (Errorf ''jwt_audience is required in production'')) else errs);
          errs = (if cf_UseDemo c
            then verr_Add errs (Some (Errorf ''use_demo is forbidden in production'')) else errs);
          errs = (if cf_RedisAddr c = ''''
            then verr_Add errs (Some (Errorf ''redis_addr is required in production'')) else errs);
          errs = (if cf_MaxClients c \<le> 0
            then verr_Add errs (Some (Errorf ''max_clients must be > 0'')) else errs)
      in if cf_RedisExpiration c \<le> 0
         then verr_Add errs (Some (Errorf ''redis_expiration must be > 0'')) else errs)"

text \<open>The loop over the supported epochs, with the set of those already seen.\<close>

fun check_epochs :: "string set \<Rightarrow> string list \<Rightarrow> goerr list \<Rightarrow> goerr list" where
  "check_epochs seen [] errs = errs"
| "check_epochs seen (e # es) errs =
     (let errs = (if \<not> Epoch e
            then verr_Add errs (Some (Errorf (''supported_epoch '' @ Quote e @ '' must be YYYY-MM'')))
            else errs);
          errs = (if e \<in> seen
            then verr_Add errs (Some (Errorf (''duplicate supported_epoch '' @ Quote e))) else errs)
      in check_epochs (insert e seen) es errs)"

text \<open>The first and the last group of checks of \<open>Validate\<close>, which every mode runs.\<close>

definition validate_always :: "'e config \<Rightarrow> goerr list" where
  "validate_always c =
     (let errs = [];
          errs = (if \<not> Mode_IsValid (cf_Mode c)
            then verr_Add errs (Some (Errorf (''mode '' @ Quote (cf_Mode c) @
                   '' is not one of: development, test, production''))) else errs);
          errs = (if cf_MasterSeedEnclave c = None
            then verr_Add errs (Some (Errorf ''master seed not loaded; call LoadMasterSeed first''))
            else errs)
      in if cf_ActiveEpoch c = ''''
         then verr_Add errs (Some (Errorf ''active_epoch is required''))
         else if \<not> Epoch (cf_ActiveEpoch c)
         then verr_Add errs (Some (Errorf (''active_epoch '' @ Quote (cf_ActiveEpoch c) @
                '' must be YYYY-MM''))) else errs)"

definition validate_epochs :: "'e config \<Rightarrow> goerr list \<Rightarrow> 'e config \<times> goerr list" where
  "validate_epochs c errs =
     (let c = (if cf_SupportedEpochs c = [] \<and> cf_ActiveEpoch c \<noteq> ''''
            then c\<lparr>cf_SupportedEpochs := [cf_ActiveEpoch c]\<rparr> else c);
          errs = check_epochs {} (cf_SupportedEpochs c) errs;
          errs = (if cf_ActiveEpoch c \<noteq> '''' \<and> \<not> IsEpochSupported c (cf_ActiveEpoch c)
            then verr_Add errs (Some (Errorf (''active_epoch '' @ Quote (cf_ActiveEpoch c) @
                   '' is not present in supported_epochs''))) else errs)
      in (c, errs))"

definition Validate :: "'e config \<Rightarrow> goerr option \<times> 'e config" where
  "Validate c =
     (let errs = validate_always c;
          (c, errs) =
            (if cf_Mode c = ModeProduction then (c, validateProduction c errs)
             else if cf_Mode c = ModeDevelopment \<or> cf_Mode c = ModeTest then validateNonProduction c errs
             else (c, errs));
          (c, errs) = validate_epochs c errs
      in (verr_Err errs, c))"

subsection \<open>What a valid configuration is\<close>

definition production_ok :: "'e config \<Rightarrow> bool" where
  "production_ok c \<longleftrightarrow> cf_MasterSeedSource c \<noteq> SecretSourceInline \<and> \<not> cf_UseMemoryStore c \<and>
     32 \<le> length (cf_AuthSecret c) \<and> cf_JWTIssuer c \<noteq> '''' \<and> cf_JWTAudience c \<noteq> '''' \<and>
     \<not> cf_UseDemo c \<and> cf_RedisAddr c \<noteq> '''' \<and> 0 < cf_MaxClients c \<and> 0 < cf_RedisExpiration c"

definition nonproduction_ok :: "'e config \<Rightarrow> bool" where
  "nonproduction_ok c \<longleftrightarrow> cf_AuthSecret c \<noteq> '''' \<and> (cf_RedisAddr c \<noteq> '''' \<or> cf_UseMemoryStore c)"

definition epochs_of :: "'e config \<Rightarrow> string list" where
  "epochs_of c = (if cf_SupportedEpochs c = [] \<and> cf_ActiveEpoch c \<noteq> ''''
     then [cf_ActiveEpoch c] else cf_SupportedEpochs c)"

lemma verr_Add_neq [simp]: "verr_Add v (Some e) \<noteq> []" by simp

lemma check_epochs_Nil_iff:
  "check_epochs seen es errs = [] \<longleftrightarrow>
     errs = [] \<and> list_all Epoch es \<and> distinct es \<and> set es \<inter> seen = {}"
proof (induction es arbitrary: seen errs)
  case (Cons e es)
  then show ?case by (auto simp: Let_def)
qed simp

lemma validateProduction_Nil_iff:
  "validateProduction c errs = [] \<longleftrightarrow> errs = [] \<and> production_ok c"
  by (auto simp: validateProduction_def production_ok_def Let_def)

lemma validateNonProduction_Nil_iff:
  "snd (validateNonProduction c errs) = [] \<longleftrightarrow> errs = [] \<and> nonproduction_ok c"
  by (auto simp: validateNonProduction_def nonproduction_ok_def Let_def)

text \<open>The record after \<open>Validate\<close>: the defaults of the modes other than production, and the epoch list.\<close>

definition validated :: "'e config \<Rightarrow> 'e config" where
  "validated c =
     (let c = (if cf_Mode c = ModeProduction then c
               else if cf_Mode c = ModeDevelopment \<or> cf_Mode c = ModeTest
               then applyDevDefaults (if cf_DST c = '''' then c\<lparr>cf_DST := ''BCIS-V1-MESSAGE''\<rparr> else c)
               else c)
      in c\<lparr>cf_SupportedEpochs := epochs_of c\<rparr>)"

lemma applyDevDefaults_simps [simp]:
  "cf_Mode (applyDevDefaults c) = cf_Mode c"
  "cf_MasterSeedEnclave (applyDevDefaults c) = cf_MasterSeedEnclave c"
  "cf_MasterSeedHex (applyDevDefaults c) = cf_MasterSeedHex c"
  "cf_ActiveEpoch (applyDevDefaults c) = cf_ActiveEpoch c"
  "cf_SupportedEpochs (applyDevDefaults c) = cf_SupportedEpochs c"
  "cf_AuthSecret (applyDevDefaults c) = cf_AuthSecret c"
  "cf_RedisAddr (applyDevDefaults c) = cf_RedisAddr c"
  "cf_UseMemoryStore (applyDevDefaults c) = cf_UseMemoryStore c"
  "cf_DST (applyDevDefaults c) = cf_DST c"
  "epochs_of (applyDevDefaults c) = epochs_of c"
  by (simp_all add: applyDevDefaults_def epochs_of_def Let_def)

lemma applyDevDefaults_positive:
  "0 < cf_MaxClients (applyDevDefaults c)" "0 < cf_RedisExpiration (applyDevDefaults c)"
  by (simp_all add: applyDevDefaults_def Let_def)

lemma applyDevDefaults_idem:
  "0 < cf_MaxClients c \<Longrightarrow> 0 < cf_RedisExpiration c \<Longrightarrow> applyDevDefaults c = c"
  by (simp add: applyDevDefaults_def Let_def)

lemma Validate_snd: "snd (Validate c) = validated c"
  by (auto simp: Validate_def validated_def validateNonProduction_def validate_epochs_def
      epochs_of_def Let_def)

definition config_ok :: "'e config \<Rightarrow> bool" where
  "config_ok c \<longleftrightarrow> Mode_IsValid (cf_Mode c) \<and> cf_MasterSeedEnclave c \<noteq> None \<and>
     Epoch (cf_ActiveEpoch c) \<and>
     (if cf_Mode c = ModeProduction then production_ok c else nonproduction_ok c) \<and>
     list_all Epoch (epochs_of c) \<and> distinct (epochs_of c) \<and> cf_ActiveEpoch c \<in> set (epochs_of c)"

lemma modes_distinct [simp]:
  "ModeDevelopment \<noteq> ModeProduction" "ModeTest \<noteq> ModeProduction" "ModeTest \<noteq> ModeDevelopment"
  "ModeProduction \<noteq> ModeDevelopment" "ModeProduction \<noteq> ModeTest" "ModeDevelopment \<noteq> ModeTest"
  by (simp_all add: ModeDevelopment_def ModeTest_def ModeProduction_def)

lemma validate_always_Nil_iff:
  "validate_always c = [] \<longleftrightarrow> Mode_IsValid (cf_Mode c) \<and> cf_MasterSeedEnclave c \<noteq> None \<and>
     Epoch (cf_ActiveEpoch c)"
  by (auto simp: validate_always_def Let_def dest: Epoch_excludes)

lemma validate_epochs_Nil_iff:
  assumes "cf_ActiveEpoch c \<noteq> ''''"
  shows "snd (validate_epochs c errs) = [] \<longleftrightarrow> errs = [] \<and> list_all Epoch (epochs_of c) \<and>
     distinct (epochs_of c) \<and> cf_ActiveEpoch c \<in> set (epochs_of c)"
  using assms by (auto simp: validate_epochs_def epochs_of_def Let_def check_epochs_Nil_iff)

lemma validate_epochs_mono: "snd (validate_epochs c errs) = [] \<Longrightarrow> errs = []"
  by (auto simp: validate_epochs_def Let_def check_epochs_Nil_iff split: if_splits)

lemma validateNonProduction_keeps [simp]:
  "cf_ActiveEpoch (fst (validateNonProduction c errs)) = cf_ActiveEpoch c"
  "cf_SupportedEpochs (fst (validateNonProduction c errs)) = cf_SupportedEpochs c"
  "epochs_of (fst (validateNonProduction c errs)) = epochs_of c"
  by (simp_all add: validateNonProduction_def epochs_of_def Let_def)

lemma Validate_None_iff: "fst (Validate c) = None \<longleftrightarrow> config_ok c"
proof -
  define m where "m = (if cf_Mode c = ModeProduction then (c, validateProduction c (validate_always c))
     else if cf_Mode c = ModeDevelopment \<or> cf_Mode c = ModeTest
     then validateNonProduction c (validate_always c) else (c, validate_always c))"
  have keeps: "cf_ActiveEpoch (fst m) = cf_ActiveEpoch c" "epochs_of (fst m) = epochs_of c"
    by (simp_all add: m_def)
  have mode: "snd m = [] \<longleftrightarrow> validate_always c = [] \<and>
      (if cf_Mode c = ModeProduction then production_ok c else nonproduction_ok c)"
    by (auto simp: m_def validateProduction_Nil_iff validateNonProduction_Nil_iff
        validate_always_Nil_iff Mode_IsValid_def)
  have "fst (Validate c) = None \<longleftrightarrow> snd (validate_epochs (fst m) (snd m)) = []"
    by (simp add: Validate_def m_def [symmetric] Let_def split_beta)
  also have "\<dots> \<longleftrightarrow> snd m = [] \<and> snd (validate_epochs (fst m) (snd m)) = []"
    using validate_epochs_mono by blast
  also have "\<dots> \<longleftrightarrow> config_ok c"
  proof (cases "Epoch (cf_ActiveEpoch c)")
    case True
    then show ?thesis
      using validate_epochs_Nil_iff [of "fst m" "snd m"] keeps mode Epoch_excludes(1) [OF True]
      by (auto simp: config_ok_def validate_always_Nil_iff)
  qed (auto simp: mode validate_always_Nil_iff config_ok_def)
  finally show ?thesis .
qed

lemma applyDevDefaults_positive_ok [simp]:
  "applyDevDefaults (applyDevDefaults c) = applyDevDefaults c"
  by (simp add: applyDevDefaults_idem applyDevDefaults_positive)

lemma applyDevDefaults_epochs:
  "applyDevDefaults (c\<lparr>cf_SupportedEpochs := x\<rparr>) = (applyDevDefaults c)\<lparr>cf_SupportedEpochs := x\<rparr>"
  by (simp add: applyDevDefaults_def Let_def)

lemma validated_simps [simp]:
  "cf_Mode (validated c) = cf_Mode c"
  "cf_MasterSeedEnclave (validated c) = cf_MasterSeedEnclave c"
  "cf_ActiveEpoch (validated c) = cf_ActiveEpoch c"
  "cf_SupportedEpochs (validated c) = epochs_of c"
  "cf_AuthSecret (validated c) = cf_AuthSecret c"
  "cf_RedisAddr (validated c) = cf_RedisAddr c"
  "cf_UseMemoryStore (validated c) = cf_UseMemoryStore c"
  by (simp_all add: validated_def epochs_of_def Let_def)

lemma epochs_of_validated [simp]: "epochs_of (validated c) = epochs_of c"
  by (simp add: epochs_of_def)

lemma production_ok_validated:
  "cf_Mode c = ModeProduction \<Longrightarrow> production_ok (validated c) = production_ok c"
  by (simp add: validated_def production_ok_def)

lemma nonproduction_ok_validated [simp]: "nonproduction_ok (validated c) = nonproduction_ok c"
  by (simp add: nonproduction_ok_def)

lemma config_ok_validated: "config_ok (validated c) = config_ok c"
  by (simp add: config_ok_def production_ok_validated)

lemma validated_idem: "validated (validated c) = validated c"
proof -
  have e: "epochs_of (d\<lparr>cf_SupportedEpochs := epochs_of c\<rparr>) = epochs_of c"
    if "cf_ActiveEpoch d = cf_ActiveEpoch c" for d
    using that by (simp add: epochs_of_def)
  consider "cf_Mode c = ModeProduction" | "cf_Mode c = ModeDevelopment \<or> cf_Mode c = ModeTest"
    | "cf_Mode c \<noteq> ModeProduction" "cf_Mode c \<noteq> ModeDevelopment" "cf_Mode c \<noteq> ModeTest"
    by blast
  then show ?thesis
  proof cases
    case 2
    then have np: "cf_Mode c \<noteq> ModeProduction" by auto
    let ?d = "applyDevDefaults (if cf_DST c = '''' then c\<lparr>cf_DST := ''BCIS-V1-MESSAGE''\<rparr> else c)"
    have v: "validated c = ?d\<lparr>cf_SupportedEpochs := epochs_of c\<rparr>"
      using 2 np by (simp add: validated_def epochs_of_def Let_def)
    have d: "cf_DST (validated c) \<noteq> ''''" unfolding v by simp
    have "applyDevDefaults (validated c) = validated c"
      unfolding v applyDevDefaults_epochs by simp
    then have "validated (validated c) = (validated c)\<lparr>cf_SupportedEpochs := epochs_of c\<rparr>"
      using 2 np d unfolding validated_def [of "validated c"] by (simp add: Let_def)
    also have "\<dots> = validated c" by (rule config.equality) simp_all
    finally show ?thesis .
  qed (simp_all add: validated_def e)
qed

text \<open>The errors depend only on what \<open>Validate\<close> leaves as it is.\<close>

lemma validate_epochs_errors:
  "snd (validate_epochs c errs) =
     (let errs = check_epochs {} (epochs_of c) errs
      in if cf_ActiveEpoch c \<noteq> '''' \<and> cf_ActiveEpoch c \<notin> set (epochs_of c)
         then verr_Add errs (Some (Errorf (''active_epoch '' @ Quote (cf_ActiveEpoch c) @
                '' is not present in supported_epochs''))) else errs)"
proof -
  let ?d = "if cf_SupportedEpochs c = [] \<and> cf_ActiveEpoch c \<noteq> '''' then c\<lparr>cf_SupportedEpochs := [cf_ActiveEpoch c]\<rparr> else c"
  have "cf_SupportedEpochs ?d = epochs_of c" "cf_ActiveEpoch ?d = cf_ActiveEpoch c" by (simp_all add: epochs_of_def)
  then show ?thesis by (simp only: validate_epochs_def Let_def IsEpochSupported_iff snd_conv)
qed

lemma validate_epochs_cong:
  "epochs_of c = epochs_of d \<Longrightarrow> cf_ActiveEpoch c = cf_ActiveEpoch d \<Longrightarrow>
   snd (validate_epochs c errs) = snd (validate_epochs d errs)"
  by (simp only: validate_epochs_errors)

lemma Validate_errors_again: "fst (Validate (validated c)) = fst (Validate c)"
proof -
  have always: "validate_always (validated c) = validate_always c"
    by (simp add: validate_always_def)
  have prod: "validateProduction (validated c) errs = validateProduction c errs"
    if p: "cf_Mode c = ModeProduction" for errs
  proof -
    have "validated c = c\<lparr>cf_SupportedEpochs := epochs_of c\<rparr>" using p by (simp add: validated_def)
    then have "cf_MasterSeedSource (validated c) = cf_MasterSeedSource c" "cf_UseMemoryStore (validated c) = cf_UseMemoryStore c"
      "cf_AuthSecret (validated c) = cf_AuthSecret c" "cf_JWTIssuer (validated c) = cf_JWTIssuer c"
      "cf_JWTAudience (validated c) = cf_JWTAudience c" "cf_UseDemo (validated c) = cf_UseDemo c"
      "cf_RedisAddr (validated c) = cf_RedisAddr c" "cf_MaxClients (validated c) = cf_MaxClients c"
      "cf_RedisExpiration (validated c) = cf_RedisExpiration c" by simp_all
    then show ?thesis by (simp only: validateProduction_def)
  qed
  have nonprod: "snd (validateNonProduction (validated c) errs) = snd (validateNonProduction c errs)" for errs
    by (simp add: validateNonProduction_def Let_def)
  have ep: "snd (validate_epochs (fst (validateNonProduction (validated c) errs)) e) =
      snd (validate_epochs (fst (validateNonProduction c errs)) e)"
    "snd (validate_epochs (validated c) e) = snd (validate_epochs c e)" for errs e
    by (intro validate_epochs_cong; simp)+
  show ?thesis
    by (simp add: Validate_def Let_def split_beta always prod nonprod ep)
qed

lemma Validate_idem: "Validate (snd (Validate c)) = Validate c"
  by (rule prod_eqI) (simp_all add: Validate_snd Validate_errors_again validated_idem)

subsection \<open>Loading the seed\<close>

lemma seal_seed_ok:
  assumes "memguard_laws M" and "seal_seed M hex c = (None, c')"
  shows "\<exists>e raw. cf_MasterSeedEnclave c' = Some e \<and> Enclave_Open M e = Inr raw \<and> length raw = 32 \<and>
      hex_decode hex = Inr raw"
    and "cf_MasterSeedHex c' = ''''" and "cf_MasterSeedSource c' = cf_MasterSeedSource c"
proof -
  obtain raw where r: "hex_decode hex = Inr raw" "length raw = 32"
    "c' = c\<lparr>cf_MasterSeedEnclave := Some (NewEnclaveFromBytes M raw), cf_MasterSeedHex := ''''\<rparr>"
    using assms(2) by (auto simp: seal_seed_def split: sum.splits if_splits)
  then have "raw \<noteq> []" by auto
  with r assms(1) show "\<exists>e raw. cf_MasterSeedEnclave c' = Some e \<and> Enclave_Open M e = Inr raw \<and>
      length raw = 32 \<and> hex_decode hex = Inr raw"
    by (intro exI [of _ "NewEnclaveFromBytes M raw"] exI [of _ raw]) (simp add: open_sealed)
  show "cf_MasterSeedHex c' = ''''" "cf_MasterSeedSource c' = cf_MasterSeedSource c"
    using r by simp_all
qed

lemma seal_seed_fails: "seal_seed M hex c = (Some err, c') \<Longrightarrow> c' = c"
  by (auto simp: seal_seed_def split: sum.splits if_splits)

text \<open>A development configuration, for the witnesses.\<close>

definition sample_config :: "bytes config" where
  "sample_config = \<lparr> cf_Mode = ModeDevelopment, cf_MasterSeedEnclave = None,
     cf_MasterSeedHex = hex_encode (replicate 32 CHR ''k''), cf_MasterSeedSource = '''',
     cf_ListenAddr = '':8080'', cf_ActiveEpoch = ''2026-01'', cf_SupportedEpochs = [],
     cf_DST = ''BCIS-V1-MESSAGE'', cf_AuthSecret = ''secret'', cf_JWTIssuer = '''',
     cf_JWTAudience = '''', cf_RedisAddr = '''', cf_RedisPassword = '''', cf_RedisDB = 0,
     cf_RedisExpiration = 2592000, cf_RevocationRedisAddr = '''',
     cf_RevocationRedisPassword = '''', cf_RevocationRedisDB = 1, cf_RateLimitBurst = 20,
     cf_RateLimit = 100, cf_MaxClients = 100000, cf_UseMemoryStore = True, cf_UseDemo = True \<rparr>"

subsection \<open>Properties\<close>

text \<open>
  C34: the configurations \<open>Validate\<close> accepts, in every mode. The mode is known, the seed is
  loaded, the active epoch and every supported epoch have the form YYYY-MM, the list has no
  duplicate and holds the active epoch; in production the seed is not inline, the stores are
  not in memory, the demo is off, the secret has 32 bytes, issuer, audience and Redis
  address are set and both limits are positive; in the other modes a secret and a store are
  given. Validating the record it leaves behind gives the same result.
\<close>

theorem config_validate_exact:
  "(fst (Validate c) = None \<longleftrightarrow>
      cf_Mode c \<in> {ModeDevelopment, ModeTest, ModeProduction} \<and> cf_MasterSeedEnclave c \<noteq> None \<and>
      Epoch (cf_ActiveEpoch c) \<and>
      (if cf_Mode c = ModeProduction
       then cf_MasterSeedSource c \<noteq> SecretSourceInline \<and> \<not> cf_UseMemoryStore c \<and>
         32 \<le> length (cf_AuthSecret c) \<and> cf_JWTIssuer c \<noteq> '''' \<and> cf_JWTAudience c \<noteq> '''' \<and>
         \<not> cf_UseDemo c \<and> cf_RedisAddr c \<noteq> '''' \<and> 0 < cf_MaxClients c \<and> 0 < cf_RedisExpiration c
       else cf_AuthSecret c \<noteq> '''' \<and> \<not> (cf_RedisAddr c = '''' \<and> \<not> cf_UseMemoryStore c)) \<and>
      (cf_SupportedEpochs c = [] \<or>
       list_all Epoch (cf_SupportedEpochs c) \<and> distinct (cf_SupportedEpochs c) \<and>
       cf_ActiveEpoch c \<in> set (cf_SupportedEpochs c))) \<and>
   Validate (snd (Validate c)) = Validate c"
proof
  show "Validate (snd (Validate c)) = Validate c" by (rule Validate_idem)
qed (auto simp: Validate_None_iff config_ok_def production_ok_def nonproduction_ok_def
    epochs_of_def Mode_IsValid_def dest: Epoch_excludes)

text \<open>
  A loaded seed. When \<open>LoadMasterSeed\<close> succeeds, the enclave opens to exactly 32
  bytes, the hex text is gone from the record, the source is the first one set of
  environment, file and inline, and \<open>MasterSeed\<close> serves that enclave without changing the
  record; when it fails, the enclave is left as it was.
\<close>

lemma load_master_seed_spec:
  assumes "memguard_laws M"
  shows "case LoadMasterSeed M getenv readFile c of
      (None, c') \<Rightarrow>
        (\<exists>e raw. cf_MasterSeedEnclave c' = Some e \<and> Enclave_Open M e = Inr raw \<and> length raw = 32 \<and>
           MasterSeed M c' = (Inr e, c')) \<and>
        cf_MasterSeedHex c' = '''' \<and>
        cf_MasterSeedSource c' =
          (if getenv ''BLINDVAULT_MASTER_SEED_HEX'' \<noteq> '''' then SecretSourceEnv
           else if getenv ''BLINDVAULT_SEED_FILE'' \<noteq> '''' then SecretSourceFile
           else SecretSourceInline)
    | (Some err, c') \<Rightarrow> cf_MasterSeedEnclave c' = cf_MasterSeedEnclave c"
proof (cases "LoadMasterSeed M getenv readFile c")
  case (Pair r c')
  show ?thesis
  proof (cases r)
    case None
    with Pair obtain hex src where
      s: "seal_seed M hex (c\<lparr>cf_MasterSeedSource := src\<rparr>) = (None, c')"
      and src: "src = (if getenv ''BLINDVAULT_MASTER_SEED_HEX'' \<noteq> '''' then SecretSourceEnv
           else if getenv ''BLINDVAULT_SEED_FILE'' \<noteq> '''' then SecretSourceFile
           else SecretSourceInline)"
      by (fastforce simp: LoadMasterSeed_def split: if_splits sum.splits)
    note ok = seal_seed_ok [OF assms s]
    then show ?thesis using Pair None src by (auto simp: MasterSeed_def)
  next
    case (Some err)
    with Pair show ?thesis
      by (auto simp: LoadMasterSeed_def dest!: seal_seed_fails split: if_splits sum.splits)
  qed
qed

lemma load_master_seed_spec_witness:
  "case LoadMasterSeed plain_memguard (\<lambda>_. '''') (\<lambda>_. Inl (Errorf ''no file'')) sample_config of
     (None, c') \<Rightarrow>
        (\<exists>e raw. cf_MasterSeedEnclave c' = Some e \<and> Enclave_Open plain_memguard e = Inr raw \<and>
           length raw = 32 \<and> MasterSeed plain_memguard c' = (Inr e, c')) \<and>
        cf_MasterSeedHex c' = '''' \<and> cf_MasterSeedSource c' = SecretSourceInline
   | (Some err, c') \<Rightarrow> cf_MasterSeedEnclave c' = cf_MasterSeedEnclave sample_config"
  using load_master_seed_spec [OF plain_memguard_laws, where getenv = "\<lambda>_. ''''" and
      readFile = "\<lambda>_. Inl (Errorf ''no file'')" and c = sample_config]
  by (simp split: prod.splits option.splits)

end
