(* ===== verification/Redis.thy ===== *)
theory Redis
  imports GoStd
begin

section \<open>The Redis client, a parameter of the model\<close>

text \<open>
  \<open>github.com/redis/go-redis\<close> is not part of the repository. The commands the stores send
  are the fields of a record; every command takes the instant it is executed at. What the
  stores rely on is \<open>redis_laws\<close>, stated over a view of the database as a map from keys to
  a value and an optional deadline: SETNX and SET with an expiry, GET, DEL and their failure
  modes. A failed write may or may not have been applied by the server. At the end an
  in-memory database shows that the laws can hold.
\<close>

record 'r redis =
  rd_setnx :: "instant \<Rightarrow> goerr option \<Rightarrow> bytes \<Rightarrow> bytes \<Rightarrow> duration \<Rightarrow> 'r \<Rightarrow> bool result \<times> 'r"
  rd_set :: "instant \<Rightarrow> bytes \<Rightarrow> bytes \<Rightarrow> duration \<Rightarrow> 'r \<Rightarrow> goerr option \<times> 'r"
  rd_get :: "instant \<Rightarrow> bytes \<Rightarrow> 'r \<Rightarrow> bytes result"
  rd_del :: "instant \<Rightarrow> bytes \<Rightarrow> 'r \<Rightarrow> goerr option \<times> 'r"
  rd_scan :: "instant \<Rightarrow> nat \<Rightarrow> string \<Rightarrow> nat \<Rightarrow> 'r \<Rightarrow> (string list \<times> nat) result"
  rd_ping :: "instant \<Rightarrow> goerr option \<Rightarrow> 'r \<Rightarrow> goerr option"
  rd_close :: "'r \<Rightarrow> goerr option \<times> 'r"

type_synonym db = "bytes \<rightharpoonup> bytes \<times> instant option"

definition redis_Nil :: goerr where
  "redis_Nil = Sentinel ''redis: nil''"

subsection \<open>The documented behaviour\<close>

abbreviation millisecond :: duration where
  "millisecond \<equiv> 1000000"

text \<open>
  Expiries have a resolution of one millisecond, which is also the shortest one; a zero
  expiry means the key does not expire.
\<close>

definition redis_ttl :: "duration \<Rightarrow> duration" where
  "redis_ttl d = max millisecond (d div millisecond * millisecond)"

definition redis_deadline :: "instant \<Rightarrow> duration \<Rightarrow> instant option" where
  "redis_deadline now d = (if d = 0 then None else Some (now + redis_ttl d))"

definition before :: "instant \<Rightarrow> instant option \<Rightarrow> bool" where
  "before now d = (case d of None \<Rightarrow> True | Some t \<Rightarrow> now < t)"

definition live :: "instant \<Rightarrow> (bytes \<times> instant option) option \<Rightarrow> bool" where
  "live now e = (case e of None \<Rightarrow> False | Some (_, d) \<Rightarrow> before now d)"

text \<open>
  A command whose reply is lost is sent again: it may then find the key its first attempt wrote
  and answer that the key was there.
\<close>

definition setnx_law :: "'r redis \<Rightarrow> ('r \<Rightarrow> db) \<Rightarrow> bool" where
  "setnx_law R V \<longleftrightarrow> (\<forall>now ctx k v d s. 0 \<le> d \<longrightarrow>
     (case rd_setnx R now ctx k v d s of
        (Inr True, s') \<Rightarrow> \<not> live now (V s k) \<and> V s' = (V s)(k \<mapsto> (v, redis_deadline now d))
      | (Inr False, s') \<Rightarrow> live now (V s k) \<and> V s' = V s \<or>
           \<not> live now (V s k) \<and> V s' = (V s)(k \<mapsto> (v, redis_deadline now d))
      | (Inl e, s') \<Rightarrow> V s' = V s \<or>
           \<not> live now (V s k) \<and> V s' = (V s)(k \<mapsto> (v, redis_deadline now d))))"

definition set_law :: "'r redis \<Rightarrow> ('r \<Rightarrow> db) \<Rightarrow> bool" where
  "set_law R V \<longleftrightarrow> (\<forall>now k v d s. 0 \<le> d \<longrightarrow>
     (case rd_set R now k v d s of
        (None, s') \<Rightarrow> V s' = (V s)(k \<mapsto> (v, redis_deadline now d))
      | (Some e, s') \<Rightarrow> V s' = V s \<or> V s' = (V s)(k \<mapsto> (v, redis_deadline now d))))"

definition get_law :: "'r redis \<Rightarrow> ('r \<Rightarrow> db) \<Rightarrow> bool" where
  "get_law R V \<longleftrightarrow> (\<forall>now k s.
     (\<forall>v. rd_get R now k s = Inr v \<longrightarrow> live now (V s k) \<and> map_option fst (V s k) = Some v) \<and>
     (rd_get R now k s = Inl redis_Nil \<longrightarrow> \<not> live now (V s k)))"

definition del_law :: "'r redis \<Rightarrow> ('r \<Rightarrow> db) \<Rightarrow> bool" where
  "del_law R V \<longleftrightarrow> (\<forall>now k s.
     (case rd_del R now k s of
        (None, s') \<Rightarrow> V s' = (V s)(k := None)
      | (Some e, s') \<Rightarrow> V s' = V s \<or> V s' = (V s)(k := None)))"

definition redis_laws :: "'r redis \<Rightarrow> ('r \<Rightarrow> db) \<Rightarrow> bool" where
  "redis_laws R V \<longleftrightarrow> setnx_law R V \<and> set_law R V \<and> get_law R V \<and> del_law R V"

text \<open>
  A database that answers: no command fails while the request is not cancelled, and none has to be
  repeated, so that only a live key is reported as there.
\<close>

definition redis_available :: "'r redis \<Rightarrow> ('r \<Rightarrow> db) \<Rightarrow> bool" where
  "redis_available R V \<longleftrightarrow>
     (\<forall>now k v d s. ok (fst (rd_setnx R now None k v d s))) \<and>
     (\<forall>now k v d s. fst (rd_setnx R now None k v d s) = Inr False \<longrightarrow> live now (V s k)) \<and>
     (\<forall>now k v d s. fst (rd_set R now k v d s) = None) \<and>
     (\<forall>now k s e. rd_get R now k s = Inl e \<longrightarrow> e = redis_Nil) \<and>
     (\<forall>now k s. fst (rd_del R now k s) = None)"

lemma redis_ttl_pos: "0 < redis_ttl d"
  by (simp add: redis_ttl_def)

lemma redis_ttl_le: "millisecond \<le> d \<Longrightarrow> redis_ttl d \<le> d"
proof -
  have "d div millisecond * millisecond \<le> d" by (simp add: minus_mod_eq_div_mult [symmetric])
  then show "millisecond \<le> d \<Longrightarrow> redis_ttl d \<le> d" by (simp add: redis_ttl_def)
qed

lemma before_simps [simp]: "before t None" "before t (Some u) \<longleftrightarrow> t < u"
  by (simp_all add: before_def)

lemma live_simps [simp]: "\<not> live t None" "live t (Some (v, d)) \<longleftrightarrow> before t d"
  by (simp_all add: live_def)

subsection \<open>The laws can hold: a database in memory\<close>

definition mem_redis :: "db redis" where
  "mem_redis = \<lparr>
     rd_setnx = (\<lambda>now ctx k v d s. case ctx of Some e \<Rightarrow> (Inl e, s)
       | None \<Rightarrow> if live now (s k) then (Inr False, s)
                else (Inr True, s(k \<mapsto> (v, redis_deadline now d)))),
     rd_set = (\<lambda>now k v d s. (None, s(k \<mapsto> (v, redis_deadline now d)))),
     rd_get = (\<lambda>now k s. case s k of None \<Rightarrow> Inl redis_Nil
       | Some (v, d) \<Rightarrow> if before now d then Inr v else Inl redis_Nil),
     rd_del = (\<lambda>now k s. (None, s(k := None))),
     rd_scan = (\<lambda>now c pat n s. Inr ([], 0)),
     rd_ping = (\<lambda>now ctx s. ctx),
     rd_close = (\<lambda>s. (None, s)) \<rparr>"

lemma mem_redis_laws: "redis_laws mem_redis id"
  by (auto simp: redis_laws_def setnx_law_def set_law_def get_law_def del_law_def mem_redis_def
      split: option.splits)

lemma mem_redis_available: "redis_available mem_redis id"
  by (auto simp: redis_available_def mem_redis_def split: option.splits if_splits)

end
