(* ===== verification/NullifierStore.thy ===== *)
theory NullifierStore
  imports Redis KeyDerivation
begin

section \<open>Nullifier stores (internal/storage: store.go, nullifier_memory.go, nullifier_redis.go)\<close>

text \<open>
  The interface \<open>NullifierStore\<close> is a record of operations; the in-memory store and the
  Redis store are its two values. Operations take the instant of the call and the error of
  the request context at that point (\<open>None\<close> while it is not done). The mutex of the
  in-memory store makes each call one atomic step.

  The locale \<open>nullifier_store\<close> is the contract in the interface's comment, over an abstract
  map from nullifiers to the deadline of their record; its client lemmas say how often a
  nullifier can be accepted in any run. It is interpreted on the in-memory store, and the
  Redis store satisfies it under the laws of the Redis client.
\<close>

record 'n nullifier_iface =
  ns_CheckAndStore :: "instant \<Rightarrow> goerr option \<Rightarrow> bytes \<Rightarrow> 'n \<Rightarrow> bool result \<times> 'n"
  ns_Ping :: "instant \<Rightarrow> goerr option \<Rightarrow> 'n \<Rightarrow> goerr option"
  ns_Close :: "'n \<Rightarrow> goerr option \<times> 'n"

subsection \<open>The in-memory store\<close>

record nullifier_mem =
  nm_store :: "bytes \<rightharpoonup> bool"

definition NewInMemoryNullifierStore :: nullifier_mem where
  "NewInMemoryNullifierStore = \<lparr> nm_store = Map.empty \<rparr>"

definition mem_CheckAndStore ::
    "instant \<Rightarrow> goerr option \<Rightarrow> bytes \<Rightarrow> nullifier_mem \<Rightarrow> bool result \<times> nullifier_mem" where
  "mem_CheckAndStore now ctx nullifier s = (case ctx of
       Some e \<Rightarrow> (Inl e, s)
     | None \<Rightarrow>
        if nm_store s nullifier = Some True then (Inr False, s)
        else (Inr True, s\<lparr>nm_store := (nm_store s)(nullifier \<mapsto> True)\<rparr>))"

definition mem_nullifier_Ping :: "instant \<Rightarrow> goerr option \<Rightarrow> nullifier_mem \<Rightarrow> goerr option" where
  "mem_nullifier_Ping now ctx s = ctx"

definition mem_nullifier_Close :: "nullifier_mem \<Rightarrow> goerr option \<times> nullifier_mem" where
  "mem_nullifier_Close s = (None, s)"

definition InMemoryNullifierStore :: "nullifier_mem nullifier_iface" where
  "InMemoryNullifierStore = \<lparr> ns_CheckAndStore = mem_CheckAndStore,
     ns_Ping = mem_nullifier_Ping, ns_Close = mem_nullifier_Close \<rparr>"

subsection \<open>The Redis store\<close>

text \<open>The client and the expiration are the fields of \<open>RedisNullifierStore\<close>.\<close>

record 'r redis_nullifier =
  rn_client :: 'r
  rn_expiration :: duration

definition NewRedisNullifierStoreWithClient :: "'r \<Rightarrow> duration \<Rightarrow> 'r redis_nullifier" where
  "NewRedisNullifierStoreWithClient client expiration =
     \<lparr> rn_client = client, rn_expiration = expiration \<rparr>"

definition redis_CheckAndStore ::
    "'r redis \<Rightarrow> instant \<Rightarrow> goerr option \<Rightarrow> bytes \<Rightarrow> 'r redis_nullifier \<Rightarrow>
     bool result \<times> 'r redis_nullifier" where
  "redis_CheckAndStore R now ctx nullifier s =
     (let (r, c) = rd_setnx R now ctx nullifier ''1'' (rn_expiration s) (rn_client s);
          s' = s\<lparr>rn_client := c\<rparr>
      in case r of Inl err \<Rightarrow> (Inl err, s') | Inr isNew \<Rightarrow> (Inr isNew, s'))"

definition redis_SetExpiration :: "duration \<Rightarrow> 'r redis_nullifier \<Rightarrow> 'r redis_nullifier" where
  "redis_SetExpiration expiration s = s\<lparr>rn_expiration := expiration\<rparr>"

definition redis_nullifier_Ping ::
    "'r redis \<Rightarrow> instant \<Rightarrow> goerr option \<Rightarrow> 'r redis_nullifier \<Rightarrow> goerr option" where
  "redis_nullifier_Ping R now ctx s = rd_ping R now ctx (rn_client s)"

definition redis_nullifier_Close ::
    "'r redis \<Rightarrow> 'r redis_nullifier \<Rightarrow> goerr option \<times> 'r redis_nullifier" where
  "redis_nullifier_Close R s =
     (let (e, c) = rd_close R (rn_client s) in (e, s\<lparr>rn_client := c\<rparr>))"

definition RedisNullifierStore :: "'r redis \<Rightarrow> 'r redis_nullifier nullifier_iface" where
  "RedisNullifierStore R = \<lparr> ns_CheckAndStore = redis_CheckAndStore R,
     ns_Ping = redis_nullifier_Ping R, ns_Close = redis_nullifier_Close R \<rparr>"

subsection \<open>The contract\<close>

type_synonym check_op = "instant \<times> goerr option \<times> bytes"

text \<open>A run of calls, with the result of each.\<close>

fun check_run ::
    "(instant \<Rightarrow> goerr option \<Rightarrow> bytes \<Rightarrow> 'n \<Rightarrow> bool result \<times> 'n) \<Rightarrow> check_op list \<Rightarrow> 'n \<Rightarrow>
     bool result list \<times> 'n" where
  "check_run check [] s = ([], s)"
| "check_run check ((t, c, k) # ops) s =
     (let (r, s1) = check t c k s; (rs, s2) = check_run check ops s1 in (r # rs, s2))"

text \<open>How often a run accepts the nullifier \<open>k\<close>.\<close>

definition accepted_count :: "bytes \<Rightarrow> check_op list \<Rightarrow> bool result list \<Rightarrow> nat" where
  "accepted_count k ops rs =
     length (filter (\<lambda>((t, c, k'), r). k' = k \<and> r = Inr True) (zip ops rs))"

lemma accepted_count_Nil [simp]: "accepted_count k [] rs = 0"
  by (simp add: accepted_count_def)

lemma accepted_count_Cons [simp]:
  "accepted_count k ((t, c, k') # ops) (r # rs) =
     (if k' = k \<and> r = Inr True then 1 else 0) + accepted_count k ops rs"
  by (simp add: accepted_count_def)

locale nullifier_store =
  fixes check :: "instant \<Rightarrow> goerr option \<Rightarrow> bytes \<Rightarrow> 'n \<Rightarrow> bool result \<times> 'n"
    and inv :: "'n \<Rightarrow> bool"
    and deadline :: "'n \<Rightarrow> bytes \<rightharpoonup> instant option"
    and stamp :: "instant \<Rightarrow> instant option"
  assumes inv_check: "inv s \<Longrightarrow> inv (snd (check t c k s))"
    and accepts: "inv s \<Longrightarrow> check t c k s = (Inr True, s') \<Longrightarrow>
      \<not> (\<exists>d. deadline s k = Some d \<and> before t d) \<and> deadline s' = (deadline s)(k \<mapsto> stamp t)"
    and rejects: "inv s \<Longrightarrow> check t c k s = (Inr False, s') \<Longrightarrow>
      (\<exists>d. deadline s k = Some d \<and> before t d) \<and> deadline s' = deadline s \<or>
      \<not> (\<exists>d. deadline s k = Some d \<and> before t d) \<and> deadline s' = (deadline s)(k \<mapsto> stamp t)"
    and fails: "inv s \<Longrightarrow> check t c k s = (Inl e, s') \<Longrightarrow>
      deadline s' = deadline s \<or>
      \<not> (\<exists>d. deadline s k = Some d \<and> before t d) \<and> deadline s' = (deadline s)(k \<mapsto> stamp t)"
begin

text \<open>A recorded nullifier is not accepted, and stays recorded, before its deadline.\<close>

lemma protected_step:
  assumes "inv s" and "deadline s k = Some d" and "before t d" and "check t c k' s = (r, s')"
  shows "deadline s' k = Some d" and "k' = k \<Longrightarrow> r \<noteq> Inr True"
proof -
  have "deadline s' k = Some d \<and> (k' = k \<longrightarrow> r \<noteq> Inr True)"
  proof (cases r)
    case (Inl e)
    with fails [OF assms(1)] assms show ?thesis by fastforce
  next
    case (Inr b)
    with accepts [OF assms(1)] rejects [OF assms(1)] assms show ?thesis
      by (cases b) fastforce+
  qed
  then show "deadline s' k = Some d" and "k' = k \<Longrightarrow> r \<noteq> Inr True" by simp_all
qed

lemma protected_run:
  assumes "inv s" and "deadline s k = Some d" and "\<forall>(t, c, x) \<in> set ops. before t d"
  shows "accepted_count k ops (fst (check_run check ops s)) = 0"
  using assms
proof (induction ops arbitrary: s)
  case (Cons op ops)
  obtain t c x where op: "op = (t, c, x)" by (cases op)
  obtain r s1 where r: "check t c x s = (r, s1)" by fastforce
  have t: "before t d" using Cons.prems(3) op by simp
  note step = protected_step [OF Cons.prems(1,2) t r]
  have "inv s1" using inv_check [OF Cons.prems(1), of t c x] r by simp
  then have "accepted_count k ops (fst (check_run check ops s1)) = 0"
    using Cons.IH step(1) Cons.prems(3) by simp
  then show ?case using step(2) r op by (auto simp: split_beta Let_def)
qed simp

text \<open>
  In a run whose calls all fall within one lifetime of each other a nullifier is accepted
  at most once.
\<close>

lemma at_most_once:
  assumes "inv s" and "\<forall>(t, c, x) \<in> set ops. \<forall>(t', c', x') \<in> set ops. before t' (stamp t)"
  shows "accepted_count k ops (fst (check_run check ops s)) \<le> 1"
  using assms
proof (induction ops arbitrary: s)
  case (Cons op ops)
  obtain t c x where op: "op = (t, c, x)" by (cases op)
  obtain r s1 where r: "check t c x s = (r, s1)" by fastforce
  have i: "inv s1" using inv_check [OF Cons.prems(1), of t c x] r by simp
  show ?case
  proof (cases "x = k \<and> r = Inr True")
    case True
    then have "deadline s1 k = Some (stamp t)"
      using accepts [OF Cons.prems(1), of t c x s1] r by simp
    moreover have "\<forall>(t', c', x') \<in> set ops. before t' (stamp t)"
      using Cons.prems(2) op by auto
    ultimately have "accepted_count k ops (fst (check_run check ops s1)) = 0"
      by (rule protected_run [OF i])
    then show ?thesis using True r op by (simp add: split_beta Let_def)
  next
    case False
    have "accepted_count k ops (fst (check_run check ops s1)) \<le> 1"
      by (rule Cons.IH [OF i]) (use Cons.prems(2) in auto)
    then show ?thesis using False r op by (auto simp: split_beta Let_def)
  qed
qed simp

end

text \<open>
  Runs of anything that uses the store: operations each of which either leaves the store
  alone and does not succeed, or makes one call for its nullifier and succeeds exactly when
  that accepts.
\<close>

fun op_run :: "('o \<Rightarrow> 's \<Rightarrow> bool \<times> 's) \<Rightarrow> 'o list \<Rightarrow> 's \<Rightarrow> bool list \<times> 's" where
  "op_run step [] s = ([], s)"
| "op_run step (op # ops) s =
     (let (a, s1) = step op s; (as, s2) = op_run step ops s1 in (a # as, s2))"

definition success_count :: "('o \<Rightarrow> bytes option) \<Rightarrow> bytes \<Rightarrow> 'o list \<Rightarrow> bool list \<Rightarrow> nat" where
  "success_count key k ops as = length (filter (\<lambda>(op, a). a \<and> key op = Some k) (zip ops as))"

lemma success_count_simps [simp]:
  "success_count key k [] as = 0"
  "success_count key k (op # ops) (a # as) =
     (if a \<and> key op = Some k then 1 else 0) + success_count key k ops as"
  by (simp_all add: success_count_def)

definition uses_store ::
    "(instant \<Rightarrow> goerr option \<Rightarrow> bytes \<Rightarrow> 'n \<Rightarrow> bool result \<times> 'n) \<Rightarrow> ('s \<Rightarrow> 'n) \<Rightarrow> ('o \<Rightarrow> bytes option) \<Rightarrow>
     ('o \<Rightarrow> instant set) \<Rightarrow> ('o \<Rightarrow> 's \<Rightarrow> bool \<times> 's) \<Rightarrow> bool" where
  "uses_store check store key instants step \<longleftrightarrow> (\<forall>op s.
     \<not> fst (step op s) \<and> store (snd (step op s)) = store s \<or>
     (\<exists>t c k. key op = Some k \<and> instants op = {t} \<and>
        store (snd (step op s)) = snd (check t c k (store s)) \<and>
        (fst (step op s) \<longleftrightarrow> fst (check t c k (store s)) = Inr True)))"

lemma uses_store_cases:
  assumes "uses_store check store key instants step"
  obtains (quiet) "\<not> fst (step op s)" "store (snd (step op s)) = store s"
  | (call) t c k where "key op = Some k" "instants op = {t}"
      "store (snd (step op s)) = snd (check t c k (store s))"
      "fst (step op s) \<longleftrightarrow> fst (check t c k (store s)) = Inr True"
  using assms unfolding uses_store_def by blast

context nullifier_store
begin

lemma run_protected:
  assumes U: "uses_store check store key instants step" and "inv (store s)"
    and "deadline (store s) k = Some d" and "\<forall>op \<in> set ops. \<forall>t \<in> instants op. before t d"
  shows "success_count key k ops (fst (op_run step ops s)) = 0"
  using assms(2-)
proof (induction ops arbitrary: s)
  case (Cons op ops)
  obtain a s1 where st: "step op s = (a, s1)" by fastforce
  from uses_store_cases [OF U, of op s] consider
      (quiet) "\<not> fst (step op s)" "store (snd (step op s)) = store s"
    | (call) t c k' where "key op = Some k'" "instants op = {t}"
        "store (snd (step op s)) = snd (check t c k' (store s))"
        "fst (step op s) \<longleftrightarrow> fst (check t c k' (store s)) = Inr True"
    by blast
  then have "inv (store s1) \<and> deadline (store s1) k = Some d \<and> \<not> (a \<and> key op = Some k)"
  proof cases
    case quiet
    then show ?thesis using st Cons.prems(1,2) by simp
  next
    case call
    obtain r n where rn: "check t c k' (store s) = (r, n)" by fastforce
    have "before t d" using Cons.prems(3) call(2) by simp
    note p = protected_step [OF Cons.prems(1,2) this rn]
    show ?thesis using call st rn p inv_check [OF Cons.prems(1), of t c k'] by auto
  qed
  then show ?case
    using Cons.IH [of s1] Cons.prems(3) st by (simp add: split_beta Let_def)
qed simp

lemma run_at_most_once:
  assumes U: "uses_store check store key instants step" and "inv (store s)"
    and "\<forall>op \<in> set ops. \<forall>t \<in> instants op. \<forall>op' \<in> set ops. \<forall>t' \<in> instants op'. before t' (stamp t)"
  shows "success_count key k ops (fst (op_run step ops s)) \<le> 1"
  using assms(2-)
proof (induction ops arbitrary: s)
  case (Cons op ops)
  obtain a s1 where st: "step op s = (a, s1)" by fastforce
  have later: "\<forall>op \<in> set ops. \<forall>t \<in> instants op. \<forall>op' \<in> set ops. \<forall>t' \<in> instants op'. before t' (stamp t)"
    using Cons.prems(2) by simp
  from uses_store_cases [OF U, of op s] consider
      (quiet) "\<not> fst (step op s)" "store (snd (step op s)) = store s"
    | (call) t c k' where "key op = Some k'" "instants op = {t}"
        "store (snd (step op s)) = snd (check t c k' (store s))"
        "fst (step op s) \<longleftrightarrow> fst (check t c k' (store s)) = Inr True"
    by blast
  then show ?case
  proof cases
    case quiet
    then show ?thesis using st Cons.IH [of s1] Cons.prems(1) later by (simp add: split_beta Let_def)
  next
    case call
    obtain r n where rn: "check t c k' (store s) = (r, n)" by fastforce
    have n: "store s1 = n" "a \<longleftrightarrow> r = Inr True" using call st rn by simp_all
    have i: "inv (store s1)" using inv_check [OF Cons.prems(1), of t c k'] rn n by simp
    show ?thesis
    proof (cases "k' = k \<and> r = Inr True")
      case True
      then have "deadline (store s1) k = Some (stamp t)"
        using accepts [OF Cons.prems(1), of t c k n] rn n by simp
      moreover have "\<forall>op \<in> set ops. \<forall>t' \<in> instants op. before t' (stamp t)"
        using Cons.prems(2) call(2) by simp
      ultimately have "success_count key k ops (fst (op_run step ops s1)) = 0"
        by (rule run_protected [OF U i])
      then show ?thesis using st by (simp add: split_beta Let_def)
    next
      case False
      then show ?thesis
        using Cons.IH [OF i later] st n call(1) by (auto simp: split_beta Let_def)
    qed
  qed
qed simp

end

text \<open>A store that always answers while the request is not cancelled, and refuses recorded nullifiers only.\<close>

locale reliable_nullifier_store = nullifier_store +
  assumes answers: "inv s \<Longrightarrow> ok (fst (check t None k s))"
    and refuses: "inv s \<Longrightarrow> check t None k s = (Inr False, s') \<Longrightarrow> \<exists>d. deadline s k = Some d \<and> before t d"
begin

lemma fresh_accepted:
  assumes "inv s" and "\<not> (\<exists>d. deadline s k = Some d \<and> before t d)"
  shows "fst (check t None k s) = Inr True"
proof -
  obtain r s' where r: "check t None k s = (r, s')" by fastforce
  then obtain b where b: "r = Inr b" using answers [OF assms(1), of t k] by (cases r) auto
  with r refuses [OF assms(1), of t k s'] assms(2) show ?thesis by (cases b) auto
qed

lemma accepted_then_rejected:
  assumes "inv s" and "check t c k s = (Inr True, s')" and "before t' (stamp t)"
  shows "fst (check t' None k s') = Inr False"
proof -
  have i: "inv s'" using inv_check [OF assms(1), of t c k] assms(2) by simp
  have d: "deadline s' k = Some (stamp t)"
    using accepts [OF assms(1,2)] by simp
  obtain r s'' where r: "check t' None k s' = (r, s'')" by fastforce
  then obtain b where b: "r = Inr b" using answers [OF i, of t' k] by (cases r) auto
  with r protected_step(2) [OF i d assms(3) r] show ?thesis by (cases b) auto
qed

end

subsection \<open>Both stores satisfy the contract\<close>

text \<open>In memory a record has no deadline and is never removed.\<close>

definition mem_deadline :: "nullifier_mem \<Rightarrow> bytes \<rightharpoonup> instant option" where
  "mem_deadline s = (\<lambda>k. if nm_store s k = Some True then Some None else None)"

interpretation mem: reliable_nullifier_store mem_CheckAndStore "\<lambda>_. True" mem_deadline "\<lambda>_. None"
  by unfold_locales
    (auto simp: mem_CheckAndStore_def mem_deadline_def fun_eq_iff split: option.splits if_splits)

text \<open>In Redis a record lives for the store's expiration.\<close>

definition redis_rec_deadline :: "('r \<Rightarrow> db) \<Rightarrow> 'r redis_nullifier \<Rightarrow> bytes \<rightharpoonup> instant option" where
  "redis_rec_deadline V s = (\<lambda>k. map_option snd (V (rn_client s) k))"

lemma live_deadline:
  "live t (V k) \<longleftrightarrow> (\<exists>d. map_option snd (V k) = Some d \<and> before t d)"
  by (cases "V k") auto

lemma redis_nullifier_store:
  fixes R :: "'r redis"
  assumes "redis_laws R V" and d: "0 \<le> d"
  shows "nullifier_store (redis_CheckAndStore R) (\<lambda>s. rn_expiration s = d)
     (redis_rec_deadline V) (\<lambda>t. redis_deadline t d)"
proof -
  have law: "case rd_setnx R t c k v d s of
        (Inr True, s') \<Rightarrow> \<not> live t (V s k) \<and> V s' = (V s)(k \<mapsto> (v, redis_deadline t d))
      | (Inr False, s') \<Rightarrow> live t (V s k) \<and> V s' = V s \<or>
           \<not> live t (V s k) \<and> V s' = (V s)(k \<mapsto> (v, redis_deadline t d))
      | (Inl e, s') \<Rightarrow> V s' = V s \<or>
           \<not> live t (V s k) \<and> V s' = (V s)(k \<mapsto> (v, redis_deadline t d))" for t c k v s
  proof -
    have "setnx_law R V" using assms by (simp add: redis_laws_def)
    from this [unfolded setnx_law_def, rule_format, OF d] show ?thesis .
  qed
  show ?thesis
  proof unfold_locales
    fix s :: "'r redis_nullifier" and t c k s'
    assume e: "rn_expiration s = d"
    note l = law [where t = t and c = c and k = k and v = "''1''" and s = "rn_client s"]
    show "rn_expiration (snd (redis_CheckAndStore R t c k s)) = d"
      by (simp add: redis_CheckAndStore_def e Let_def split_beta split: sum.splits)
    show "\<not> (\<exists>d. redis_rec_deadline V s k = Some d \<and> before t d) \<and>
        redis_rec_deadline V s' = (redis_rec_deadline V s)(k \<mapsto> redis_deadline t d)"
      if "redis_CheckAndStore R t c k s = (Inr True, s')"
      using that l
      by (auto simp: redis_CheckAndStore_def e Let_def redis_rec_deadline_def live_deadline
          fun_eq_iff split: prod.splits sum.splits)
    show "(\<exists>d. redis_rec_deadline V s k = Some d \<and> before t d) \<and>
        redis_rec_deadline V s' = redis_rec_deadline V s \<or>
        \<not> (\<exists>d. redis_rec_deadline V s k = Some d \<and> before t d) \<and>
        redis_rec_deadline V s' = (redis_rec_deadline V s)(k \<mapsto> redis_deadline t d)"
      if "redis_CheckAndStore R t c k s = (Inr False, s')"
      using that l
      by (auto simp: redis_CheckAndStore_def e Let_def redis_rec_deadline_def live_deadline
          fun_eq_iff split: prod.splits sum.splits)
    fix er
    show "redis_rec_deadline V s' = redis_rec_deadline V s \<or>
        \<not> (\<exists>d. redis_rec_deadline V s k = Some d \<and> before t d) \<and>
        redis_rec_deadline V s' = (redis_rec_deadline V s)(k \<mapsto> redis_deadline t d)"
      if "redis_CheckAndStore R t c k s = (Inl er, s')"
      using that l
      by (auto simp: redis_CheckAndStore_def e Let_def redis_rec_deadline_def live_deadline
          fun_eq_iff split: prod.splits sum.splits)
  qed
qed

subsection \<open>Properties\<close>

lemma mem_check_run_count:
  "accepted_count k ops (fst (check_run mem_CheckAndStore ops s)) =
     of_bool (nm_store s k \<noteq> Some True \<and> (\<exists>t. (t, None, k) \<in> set ops))"
proof (induction ops arbitrary: s)
  case (Cons op ops)
  obtain t c x where op: "op = (t, c, x)" by (cases op)
  show ?case
    using Cons.IH [of "snd (mem_CheckAndStore t c x s)"]
    by (auto simp: op mem_CheckAndStore_def split_beta Let_def split: option.splits if_splits)
qed simp

text \<open>
  Replay protection of the in-memory store. In any run of \<open>CheckAndStore\<close> from any
  state a nullifier is accepted at most once; from the empty store it is accepted exactly
  once if some call with a context that is not done presents it, and never otherwise.
\<close>

lemma mem_nullifier_exactly_once:
  "accepted_count k ops (fst (check_run mem_CheckAndStore ops s)) \<le> 1 \<and>
   accepted_count k ops (fst (check_run mem_CheckAndStore ops NewInMemoryNullifierStore)) =
     (if \<exists>t. (t, None, k) \<in> set ops then 1 else 0)"
  using mem.at_most_once [where s = s and ops = ops and k = k]
  by (auto simp: mem_check_run_count NewInMemoryNullifierStore_def)

text \<open>
  Replay protection of the Redis store. Whatever the client's errors, a run whose calls
  fall within the lifetime of a record accepts a nullifier at most once.
\<close>

lemma redis_nullifier_at_most_once:
  assumes "redis_laws R V" and "0 \<le> rn_expiration s"
    and "\<forall>(t, c, x) \<in> set ops. \<forall>(t', c', x') \<in> set ops.
      before t' (redis_deadline t (rn_expiration s))"
  shows "accepted_count k ops (fst (check_run (redis_CheckAndStore R) ops s)) \<le> 1"
  using nullifier_store.at_most_once [OF redis_nullifier_store [OF assms(1,2)] _ assms(3)]
  by simp

lemma redis_nullifier_at_most_once_witness:
  "accepted_count ''n'' [(0, None, ''n''), (5, None, ''n'')]
     (fst (check_run (redis_CheckAndStore mem_redis) [(0, None, ''n''), (5, None, ''n'')]
        (NewRedisNullifierStoreWithClient Map.empty second))) \<le> 1"
  by (rule redis_nullifier_at_most_once [OF mem_redis_laws])
    (simp_all add: NewRedisNullifierStoreWithClient_def redis_deadline_def redis_ttl_def)

text \<open>Once the record has expired a nullifier is accepted again.\<close>

lemma redis_nullifier_reaccepted:
  assumes "redis_laws R V" and "redis_available R V" and "0 \<le> rn_expiration s"
    and "redis_CheckAndStore R t None k s = (Inr True, s')"
    and "\<not> before t' (redis_deadline t (rn_expiration s))"
  shows "fst (redis_CheckAndStore R t' None k s') = Inr True"
proof -
  note st = redis_nullifier_store [OF assms(1,3)]
  have dl: "redis_rec_deadline V s' k = Some (redis_deadline t (rn_expiration s))"
    using nullifier_store.accepts [OF st refl assms(4)] by simp
  have e: "rn_expiration s' = rn_expiration s"
    using nullifier_store.inv_check [OF st refl, of t None k] assms(4) by simp
  have "ok (fst (rd_setnx R t' None k ''1'' (rn_expiration s') (rn_client s')))"
    using assms(2) by (simp add: redis_available_def)
  then have "ok (fst (redis_CheckAndStore R t' None k s'))"
    by (auto simp: redis_CheckAndStore_def Let_def split_beta split: sum.splits)
  then obtain b where b: "fst (redis_CheckAndStore R t' None k s') = Inr b" by (auto simp: ok_iff)
  moreover have "b \<noteq> False"
  proof
    assume "b = False"
    then have "fst (rd_setnx R t' None k ''1'' (rn_expiration s') (rn_client s')) = Inr False"
      using b by (auto simp: redis_CheckAndStore_def Let_def split_beta split: sum.splits)
    then have "live t' (V (rn_client s') k)" using assms(2) by (simp add: redis_available_def)
    then show False using dl assms(5) by (auto simp: redis_rec_deadline_def live_deadline)
  qed
  ultimately show ?thesis by simp
qed

end
