(* ===== verification/RevocationStore.thy ===== *)
theory RevocationStore
  imports Redis Json
begin

section \<open>Revocation stores (internal/storage: store.go, revocation_memory.go, revocation_redis.go)\<close>

text \<open>
  The interface \<open>RevocationStore\<close> is a record of operations; the in-memory store and the
  Redis store are its two values. \<open>time.Now()\<close> is the instant argument. A revocation is
  stored under a key made of the class and the epoch; the empty epoch stands for the whole
  class. The order in which Go ranges over a map is not determined, so the operation that
  lists entries takes the order as an argument.

  The locale \<open>revocation_store\<close> is the contract the redemption path relies on, with its
  client lemmas over runs of administrative operations; it is interpreted on the in-memory
  store, and the Redis store satisfies it under the laws of the Redis client.
\<close>

record revocation_entry =
  re_CredentialClass :: string
  re_KeyEpoch :: string
  re_Reason :: string
  re_RevokedAt :: instant
  re_RevokedUntil :: "instant option"
  re_RevokedBy :: string

record 'r revocation_iface =
  rs_RevokeClass :: "instant \<Rightarrow> string \<Rightarrow> string \<Rightarrow> string \<Rightarrow> string \<Rightarrow> instant option \<Rightarrow> 'r \<Rightarrow>
     goerr option \<times> 'r"
  rs_IsRevoked :: "instant \<Rightarrow> string \<Rightarrow> string \<Rightarrow> 'r \<Rightarrow> (bool \<times> revocation_entry option) result"
  rs_ListRevocations :: "string list \<Rightarrow> instant \<Rightarrow> 'r \<Rightarrow> revocation_entry list option result option"
  rs_UnrevokeClass :: "instant \<Rightarrow> string \<Rightarrow> string \<Rightarrow> 'r \<Rightarrow> goerr option \<times> 'r"
  rs_Ping :: "instant \<Rightarrow> goerr option \<Rightarrow> 'r \<Rightarrow> goerr option"
  rs_Close :: "'r \<Rightarrow> goerr option \<times> 'r"

definition new_entry ::
    "instant \<Rightarrow> string \<Rightarrow> string \<Rightarrow> string \<Rightarrow> string \<Rightarrow> instant option \<Rightarrow> revocation_entry" where
  "new_entry now class epoch reason revokedBy revokedUntil =
     \<lparr> re_CredentialClass = class, re_KeyEpoch = epoch, re_Reason = reason,
       re_RevokedAt = now, re_RevokedUntil = revokedUntil, re_RevokedBy = revokedBy \<rparr>"

text \<open>\<open>entry.RevokedUntil != nil && time.Now().UTC().After(*entry.RevokedUntil)\<close>\<close>

definition entry_expired :: "instant \<Rightarrow> revocation_entry \<Rightarrow> bool" where
  "entry_expired now entry = (case re_RevokedUntil entry of None \<Rightarrow> False | Some u \<Rightarrow> u < now)"

subsection \<open>The in-memory store\<close>

record revocation_mem =
  rm_store :: "string \<rightharpoonup> revocation_entry"

definition NewInMemoryRevocationStore :: revocation_mem where
  "NewInMemoryRevocationStore = \<lparr> rm_store = Map.empty \<rparr>"

definition mem_revocationKey :: "string \<Rightarrow> string \<Rightarrow> string" where
  "mem_revocationKey class epoch =
     (if epoch = '''' then ''revoke:'' @ class else ''revoke:'' @ class @ '':'' @ epoch)"

definition mem_RevokeClass ::
    "instant \<Rightarrow> string \<Rightarrow> string \<Rightarrow> string \<Rightarrow> string \<Rightarrow> instant option \<Rightarrow> revocation_mem \<Rightarrow>
     goerr option \<times> revocation_mem" where
  "mem_RevokeClass now class epoch reason revokedBy revokedUntil s =
     (let key = mem_revocationKey class epoch
      in (None, s\<lparr>rm_store := (rm_store s)(key \<mapsto>
            new_entry now class epoch reason revokedBy revokedUntil)\<rparr>))"

definition mem_IsRevoked ::
    "instant \<Rightarrow> string \<Rightarrow> string \<Rightarrow> revocation_mem \<Rightarrow> (bool \<times> revocation_entry option) result" where
  "mem_IsRevoked now class epoch s =
     (case rm_store s (mem_revocationKey class epoch) of
        Some entry \<Rightarrow>
          if entry_expired now entry then Inr (False, None) else Inr (True, Some entry)
      | None \<Rightarrow>
     (case rm_store s (mem_revocationKey class '''') of
        Some entry \<Rightarrow>
          if entry_expired now entry then Inr (False, None) else Inr (True, Some entry)
      | None \<Rightarrow> Inr (False, None)))"

text \<open>
  \<open>order\<close> is the order in which the range statement visits the keys. A slice that may be
  nil is an option; the in-memory store makes an empty one.
\<close>

definition mem_ListRevocations ::
    "string list \<Rightarrow> instant \<Rightarrow> revocation_mem \<Rightarrow> revocation_entry list option result option" where
  "mem_ListRevocations order now s = Some (Inr (Some (List.map_filter (rm_store s) order)))"

definition mem_UnrevokeClass ::
    "instant \<Rightarrow> string \<Rightarrow> string \<Rightarrow> revocation_mem \<Rightarrow> goerr option \<times> revocation_mem" where
  "mem_UnrevokeClass now class epoch s =
     (let key = mem_revocationKey class epoch
      in (None, s\<lparr>rm_store := (rm_store s)(key := None)\<rparr>))"

definition mem_revocation_Ping :: "instant \<Rightarrow> goerr option \<Rightarrow> revocation_mem \<Rightarrow> goerr option" where
  "mem_revocation_Ping now ctx s = ctx"

definition mem_revocation_Close :: "revocation_mem \<Rightarrow> goerr option \<times> revocation_mem" where
  "mem_revocation_Close s = (None, s\<lparr>rm_store := Map.empty\<rparr>)"

definition InMemoryRevocationStore :: "revocation_mem revocation_iface" where
  "InMemoryRevocationStore = \<lparr> rs_RevokeClass = mem_RevokeClass, rs_IsRevoked = mem_IsRevoked,
     rs_ListRevocations = mem_ListRevocations, rs_UnrevokeClass = mem_UnrevokeClass,
     rs_Ping = mem_revocation_Ping, rs_Close = mem_revocation_Close \<rparr>"

subsection \<open>The Redis store\<close>

text \<open>
  The entry is stored as JSON; \<open>json.Marshal\<close> and \<open>json.Unmarshal\<close> of an entry are the
  two fields of a parameter, with the round trip as what the store relies on: an entry that is
  encoded decodes to itself, with the bytes of its texts that are not UTF-8 replaced. The theory
  \<open>EntryJson\<close> shows it of the printer and the scanner of \<open>Json\<close>.
\<close>

record entry_json =
  ej_marshal :: "revocation_entry \<Rightarrow> bytes result"
  ej_unmarshal :: "bytes \<Rightarrow> revocation_entry result"

definition utf8_entry :: "revocation_entry \<Rightarrow> revocation_entry" where
  "utf8_entry e = e\<lparr> re_CredentialClass := coerce_utf8 (re_CredentialClass e),
     re_KeyEpoch := coerce_utf8 (re_KeyEpoch e), re_Reason := coerce_utf8 (re_Reason e),
     re_RevokedBy := coerce_utf8 (re_RevokedBy e) \<rparr>"

definition entry_json_laws :: "entry_json \<Rightarrow> bool" where
  "entry_json_laws J \<longleftrightarrow> (\<forall>e b. ej_marshal J e = Inr b \<longrightarrow> ej_unmarshal J b = Inr (utf8_entry e))"

lemma utf8_entry_simps [simp]:
  "re_RevokedAt (utf8_entry e) = re_RevokedAt e" "re_RevokedUntil (utf8_entry e) = re_RevokedUntil e"
  "entry_expired t (utf8_entry e) = entry_expired t e"
  by (simp_all add: utf8_entry_def entry_expired_def)

lemma utf8_entry_valid:
  "valid_utf8 c \<Longrightarrow> valid_utf8 e \<Longrightarrow> valid_utf8 why \<Longrightarrow> valid_utf8 who \<Longrightarrow>
     utf8_entry (new_entry t c e why who until) = new_entry t c e why who until"
  by (simp add: utf8_entry_def new_entry_def coerce_utf8_valid)

definition redis_revocationKey :: "string \<Rightarrow> string \<Rightarrow> string" where
  "redis_revocationKey class epoch =
     (if epoch = '''' then ''revoke:'' @ class @ '':all'' else ''revoke:'' @ class @ '':'' @ epoch)"

definition redis_RevokeClass ::
    "'r redis \<Rightarrow> entry_json \<Rightarrow> instant \<Rightarrow> string \<Rightarrow> string \<Rightarrow> string \<Rightarrow> string \<Rightarrow> instant option \<Rightarrow> 'r \<Rightarrow>
     goerr option \<times> 'r" where
  "redis_RevokeClass R J now class epoch reason revokedBy revokedUntil s =
     (let key = redis_revocationKey class epoch;
          entry = new_entry now class epoch reason revokedBy revokedUntil
      in (case ej_marshal J entry of
            Inl err \<Rightarrow> (Some err, s)
          | Inr data \<Rightarrow>
             (case revokedUntil of
                Some u \<Rightarrow>
                  let ttl = u - now
                  in if ttl \<le> 0 then (Some (Errorf ''revoked_until must be in the future''), s)
                     else rd_set R now key data ttl s
              | None \<Rightarrow> rd_set R now key data 0 s)))"

definition redis_IsRevoked ::
    "'r redis \<Rightarrow> entry_json \<Rightarrow> instant \<Rightarrow> string \<Rightarrow> string \<Rightarrow> 'r \<Rightarrow>
     (bool \<times> revocation_entry option) result" where
  "redis_IsRevoked R J now class epoch s =
     (let classwide =
        (case rd_get R now (redis_revocationKey class '''') s of
           Inl err \<Rightarrow> if err \<noteq> redis_Nil then Inl err else Inr (False, None)
         | Inr data \<Rightarrow> (case ej_unmarshal J data of
              Inr entry \<Rightarrow> Inr (True, Some entry)
            | Inl _ \<Rightarrow> Inr (False, None)))
      in (case rd_get R now (redis_revocationKey class epoch) s of
           Inl err \<Rightarrow> if err \<noteq> redis_Nil then Inl err else classwide
         | Inr data \<Rightarrow> (case ej_unmarshal J data of
              Inr entry \<Rightarrow>
                if entry_expired now entry then Inr (False, None) else Inr (True, Some entry)
            | Inl _ \<Rightarrow> classwide)))"

text \<open>
  The scan loop of \<open>ListRevocations\<close>: it ends when the server returns the cursor 0, which
  nothing in the code bounds; \<open>None\<close> is a loop that does not end. A key that cannot be read
  or decoded is skipped.
\<close>

definition read_entries :: "'r redis \<Rightarrow> entry_json \<Rightarrow> instant \<Rightarrow> 'r \<Rightarrow> string list \<Rightarrow> revocation_entry list" where
  "read_entries R J now s keys = List.map_filter (\<lambda>key. case rd_get R now key s of
       Inl _ \<Rightarrow> None
     | Inr data \<Rightarrow> (case ej_unmarshal J data of Inr entry \<Rightarrow> Some entry | Inl _ \<Rightarrow> None)) keys"

partial_function (option) scan_loop ::
    "'r redis \<Rightarrow> entry_json \<Rightarrow> instant \<Rightarrow> 'r \<Rightarrow> nat \<Rightarrow> revocation_entry list \<Rightarrow>
     revocation_entry list result option" where
  "scan_loop R J now s cursor entries =
     (case rd_scan R now cursor ''revoke:*'' 100 s of
        Inl err \<Rightarrow> Some (Inl err)
      | Inr (keys, nextCursor) \<Rightarrow>
          if nextCursor = 0 then Some (Inr (entries @ read_entries R J now s keys))
          else scan_loop R J now s nextCursor (entries @ read_entries R J now s keys))"

definition nil_slice :: "'a list \<Rightarrow> 'a list option" where
  "nil_slice xs = (if xs = [] then None else Some xs)"

definition redis_ListRevocations ::
    "'r redis \<Rightarrow> entry_json \<Rightarrow> string list \<Rightarrow> instant \<Rightarrow> 'r \<Rightarrow>
     revocation_entry list option result option" where
  "redis_ListRevocations R J order now s = map_option (map_sum id nil_slice) (scan_loop R J now s 0 [])"

definition redis_UnrevokeClass ::
    "'r redis \<Rightarrow> instant \<Rightarrow> string \<Rightarrow> string \<Rightarrow> 'r \<Rightarrow> goerr option \<times> 'r" where
  "redis_UnrevokeClass R now class epoch s =
     (let key = redis_revocationKey class epoch in rd_del R now key s)"

definition redis_revocation_Ping :: "'r redis \<Rightarrow> instant \<Rightarrow> goerr option \<Rightarrow> 'r \<Rightarrow> goerr option" where
  "redis_revocation_Ping R now ctx s = rd_ping R now ctx s"

definition redis_revocation_Close :: "'r redis \<Rightarrow> 'r \<Rightarrow> goerr option \<times> 'r" where
  "redis_revocation_Close R s = rd_close R s"

definition RedisRevocationStore :: "'r redis \<Rightarrow> entry_json \<Rightarrow> 'r revocation_iface" where
  "RedisRevocationStore R J = \<lparr> rs_RevokeClass = redis_RevokeClass R J,
     rs_IsRevoked = redis_IsRevoked R J, rs_ListRevocations = redis_ListRevocations R J,
     rs_UnrevokeClass = redis_UnrevokeClass R, rs_Ping = redis_revocation_Ping R,
     rs_Close = redis_revocation_Close R \<rparr>"

subsection \<open>The contract\<close>

text \<open>
  The abstract state maps a class and an epoch to the entry the store holds for them.
  \<open>served\<close> entries must be reported, \<open>lapsed\<close> ones must not be; \<open>valid\<close> are the names the
  administrative handlers let through, \<open>kept\<close> is what the store keeps of an entry. Every call may fail, and a failed write may or may
  not have taken effect.
\<close>

type_synonym revocations = "string \<times> string \<rightharpoonup> revocation_entry"

datatype admin_op =
    OpRevoke instant string string string string "instant option"
  | OpUnrevoke instant string string

fun op_target :: "admin_op \<Rightarrow> string \<times> string" where
  "op_target (OpRevoke t c e why who until) = (c, e)"
| "op_target (OpUnrevoke t c e) = (c, e)"

fun admin_run ::
    "(instant \<Rightarrow> string \<Rightarrow> string \<Rightarrow> string \<Rightarrow> string \<Rightarrow> instant option \<Rightarrow> 's \<Rightarrow> goerr option \<times> 's) \<Rightarrow>
     (instant \<Rightarrow> string \<Rightarrow> string \<Rightarrow> 's \<Rightarrow> goerr option \<times> 's) \<Rightarrow> admin_op list \<Rightarrow> 's \<Rightarrow> 's" where
  "admin_run revoke unrevoke [] s = s"
| "admin_run revoke unrevoke (OpRevoke t c e why who until # ops) s =
     admin_run revoke unrevoke ops (snd (revoke t c e why who until s))"
| "admin_run revoke unrevoke (OpUnrevoke t c e # ops) s =
     admin_run revoke unrevoke ops (snd (unrevoke t c e s))"

locale revocation_store =
  fixes revoke :: "instant \<Rightarrow> string \<Rightarrow> string \<Rightarrow> string \<Rightarrow> string \<Rightarrow> instant option \<Rightarrow> 's \<Rightarrow> goerr option \<times> 's"
    and unrevoke :: "instant \<Rightarrow> string \<Rightarrow> string \<Rightarrow> 's \<Rightarrow> goerr option \<times> 's"
    and is_revoked :: "instant \<Rightarrow> string \<Rightarrow> string \<Rightarrow> 's \<Rightarrow> (bool \<times> revocation_entry option) result"
    and inv :: "'s \<Rightarrow> bool"
    and stored :: "'s \<Rightarrow> revocations"
    and served :: "instant \<Rightarrow> revocation_entry \<Rightarrow> bool"
    and lapsed :: "instant \<Rightarrow> revocation_entry \<Rightarrow> bool"
    and valid :: "string \<Rightarrow> string \<Rightarrow> bool"
    and kept :: "revocation_entry \<Rightarrow> revocation_entry"
  assumes inv_revoke: "inv s \<Longrightarrow> valid c e \<Longrightarrow> inv (snd (revoke t c e why who until s))"
    and inv_unrevoke: "inv s \<Longrightarrow> valid c e \<Longrightarrow> inv (snd (unrevoke t c e s))"
    and revoke_ok: "inv s \<Longrightarrow> valid c e \<Longrightarrow> revoke t c e why who until s = (None, s') \<Longrightarrow>
      stored s' = (stored s)((c, e) \<mapsto> kept (new_entry t c e why who until))"
    and revoke_frame: "inv s \<Longrightarrow> valid c e \<Longrightarrow> x \<noteq> (c, e) \<Longrightarrow>
      stored (snd (revoke t c e why who until s)) x = stored s x"
    and unrevoke_ok: "inv s \<Longrightarrow> valid c e \<Longrightarrow> unrevoke t c e s = (None, s') \<Longrightarrow>
      stored s' = (stored s)((c, e) := None)"
    and unrevoke_frame: "inv s \<Longrightarrow> valid c e \<Longrightarrow> x \<noteq> (c, e) \<Longrightarrow>
      stored (snd (unrevoke t c e s)) x = stored s x"
    and lookup_served: "inv s \<Longrightarrow> valid c e \<Longrightarrow> stored s (c, e) = Some en \<Longrightarrow> served t en \<Longrightarrow>
      is_revoked t c e s = Inr r \<Longrightarrow> r = (True, Some en)"
    and lookup_classwide: "inv s \<Longrightarrow> valid c e \<Longrightarrow> stored s (c, e) = None \<Longrightarrow>
      stored s (c, '''') = Some en \<Longrightarrow> served t en \<Longrightarrow> is_revoked t c e s = Inr r \<Longrightarrow>
      r = (True, Some en)"
    and lookup_lapsed: "inv s \<Longrightarrow> valid c e \<Longrightarrow>
      (\<And>en. stored s (c, e) = Some en \<Longrightarrow> lapsed t en) \<Longrightarrow>
      (\<And>en. stored s (c, '''') = Some en \<Longrightarrow> lapsed t en) \<Longrightarrow>
      is_revoked t c e s = Inr r \<Longrightarrow> r = (False, None)"
begin

lemma run_frame:
  assumes "inv s" and "\<forall>op \<in> set ops. case_prod valid (op_target op)" and "x \<notin> op_target ` set ops"
  shows "inv (admin_run revoke unrevoke ops s) \<and>
    stored (admin_run revoke unrevoke ops s) x = stored s x"
  using assms
proof (induction ops arbitrary: s)
  case (Cons op ops)
  then show ?case
    by (cases op) (simp_all add: inv_revoke inv_unrevoke revoke_frame unrevoke_frame)
qed simp

text \<open>A revocation is in force until it is lifted, whatever else is revoked or lifted.\<close>

lemma revocation_persists:
  assumes "inv s" and "valid c e" and "revoke t c e why who until s = (None, s')"
    and "\<forall>op \<in> set ops. case_prod valid (op_target op)" and "(c, e) \<notin> op_target ` set ops"
    and "served t' (kept (new_entry t c e why who until))"
    and "is_revoked t' c e (admin_run revoke unrevoke ops s') = Inr r"
  shows "r = (True, Some (kept (new_entry t c e why who until)))"
proof -
  have i: "inv s'" using inv_revoke [OF assms(1,2), of t why who until] assms(3) by simp
  note f = run_frame [OF i assms(4,5)]
  have "stored (admin_run revoke unrevoke ops s') (c, e) = Some (kept (new_entry t c e why who until))"
    using f revoke_ok [OF assms(1-3)] by simp
  with lookup_served [OF _ assms(2) _ assms(6,7)] f show ?thesis by simp
qed

text \<open>What nobody revoked is not reported, and a lifted revocation no longer is.\<close>

lemma unrevoked_is_valid:
  assumes "inv s" and "valid c e" and "stored s (c, e) = None" and "stored s (c, '''') = None"
    and "\<forall>op \<in> set ops. case_prod valid (op_target op)"
    and "(c, e) \<notin> op_target ` set ops" and "(c, '''') \<notin> op_target ` set ops"
    and "is_revoked t c e (admin_run revoke unrevoke ops s) = Inr r"
  shows "r = (False, None)"
  using lookup_lapsed [OF _ assms(2) _ _ assms(8)] run_frame [OF assms(1,5,6)]
    run_frame [OF assms(1,5,7)] assms(3,4) by simp

lemma lifted_revocation:
  assumes "inv s" and "valid c e" and "stored s (c, '''') = None \<or> e = ''''"
    and "unrevoke t c e s = (None, s')" and "is_revoked t' c e s' = Inr r"
  shows "r = (False, None)"
proof -
  have i: "inv s'" using inv_unrevoke [OF assms(1,2), of t] assms(4) by simp
  show ?thesis
    by (rule lookup_lapsed [OF i assms(2) _ _ assms(5)])
      (use unrevoke_ok [OF assms(1,2,4)] assms(3) in \<open>auto split: if_splits\<close>)
qed

end

subsection \<open>The in-memory store satisfies the contract\<close>

text \<open>Keys are injective on classes without a colon, which the handlers require.\<close>

definition mem_valid :: "string \<Rightarrow> string \<Rightarrow> bool" where
  "mem_valid c e \<longleftrightarrow> CHR '':'' \<notin> set c"

definition mem_stored :: "revocation_mem \<Rightarrow> revocations" where
  "mem_stored s = (\<lambda>(c, e). if mem_valid c e then rm_store s (mem_revocationKey c e) else None)"

lemma mem_revocationKey_inj:
  assumes "mem_valid c e" "mem_valid c' e'"
  shows "mem_revocationKey c e = mem_revocationKey c' e' \<longleftrightarrow> c = c' \<and> e = e'"
  using assms sep_append_eq_iff [of "CHR '':''" c c']
  by (auto simp: mem_revocationKey_def mem_valid_def)

lemma mem_stored_eq: "mem_valid c e \<Longrightarrow> mem_stored s (c, e) = rm_store s (mem_revocationKey c e)"
  by (simp add: mem_stored_def)

lemma mem_stored_update:
  assumes "mem_valid c e"
  shows "mem_stored (s\<lparr>rm_store := (rm_store s)(mem_revocationKey c e := x)\<rparr>) =
    (mem_stored s)((c, e) := x)"
  using assms by (auto simp: mem_stored_def fun_eq_iff mem_revocationKey_inj)

lemma mem_valid_class: "mem_valid c e \<Longrightarrow> mem_valid c e'"
  by (simp add: mem_valid_def)

interpretation mem_revocation: revocation_store mem_RevokeClass mem_UnrevokeClass mem_IsRevoked
  "\<lambda>_. True" mem_stored "\<lambda>t en. \<not> entry_expired t en" entry_expired mem_valid "\<lambda>en. en"
  by unfold_locales
    (auto simp: mem_RevokeClass_def mem_UnrevokeClass_def mem_IsRevoked_def mem_stored_update
      mem_stored_eq mem_valid_class [of _ _ "''''"] split: option.splits)

text \<open>
  An entry of the epoch that has expired hides a class-wide revocation that has not: the
  in-memory store answers from the first entry it finds.
\<close>

lemma mem_expired_entry_hides:
  assumes "mem_valid c e" and "mem_stored s (c, e) = Some en" and "entry_expired t en"
  shows "mem_IsRevoked t c e s = Inr (False, None)"
  using assms by (simp add: mem_IsRevoked_def mem_stored_eq)

text \<open>Its list has the expired entries too, which the interface says it leaves out.\<close>

lemma mem_list_keeps_expired:
  assumes "mem_valid c e" and "mem_stored s (c, e) = Some en" and "entry_expired t en"
    and "set order = dom (rm_store s)"
  shows "\<exists>es. mem_ListRevocations order t s = Some (Inr (Some es)) \<and> en \<in> set es \<and>
    mem_IsRevoked t c e s = Inr (False, None)"
proof -
  obtain k where k: "rm_store s k = Some en" using assms(1,2) by (auto simp: mem_stored_eq)
  then have "k \<in> set order" using assms(4) by blast
  with k have "en \<in> set (List.map_filter (rm_store s) order)" by (force simp: List.map_filter_def)
  then show ?thesis using mem_expired_entry_hides [OF assms(1-3)] by (simp add: mem_ListRevocations_def)
qed

subsection \<open>The Redis store satisfies the contract\<close>

text \<open>
  The suffix \<open>all\<close> stands for the empty epoch, so an epoch of that name is excluded (the
  handlers require an epoch of the form YYYY-MM). An entry is served until the deadline of
  its key.
\<close>

definition redis_valid :: "string \<Rightarrow> string \<Rightarrow> bool" where
  "redis_valid c e \<longleftrightarrow> CHR '':'' \<notin> set c \<and> e \<noteq> ''all''"

definition entry_deadline :: "revocation_entry \<Rightarrow> instant option" where
  "entry_deadline en = (case re_RevokedUntil en of None \<Rightarrow> None
     | Some u \<Rightarrow> redis_deadline (re_RevokedAt en) (u - re_RevokedAt en))"

definition decode_entry :: "entry_json \<Rightarrow> (bytes \<times> instant option) option \<Rightarrow> revocation_entry option" where
  "decode_entry J x = (case x of None \<Rightarrow> None
     | Some (d, _) \<Rightarrow> (case ej_unmarshal J d of Inr en \<Rightarrow> Some en | Inl _ \<Rightarrow> None))"

definition redis_stored :: "('r \<Rightarrow> db) \<Rightarrow> entry_json \<Rightarrow> 'r \<Rightarrow> revocations" where
  "redis_stored V J s = (\<lambda>(c, e).
     if redis_valid c e then decode_entry J (V s (redis_revocationKey c e)) else None)"

definition entry_ok :: "entry_json \<Rightarrow> (bytes \<times> instant option) option \<Rightarrow> bool" where
  "entry_ok J x = (case x of None \<Rightarrow> True
     | Some (d, dl) \<Rightarrow> (\<exists>en. ej_unmarshal J d = Inr en \<and> dl = entry_deadline en))"

definition redis_revocation_inv :: "('r \<Rightarrow> db) \<Rightarrow> entry_json \<Rightarrow> 'r \<Rightarrow> bool" where
  "redis_revocation_inv V J s \<longleftrightarrow>
     (\<forall>c e. redis_valid c e \<longrightarrow> entry_ok J (V s (redis_revocationKey c e)))"

definition redis_served :: "instant \<Rightarrow> revocation_entry \<Rightarrow> bool" where
  "redis_served t en \<longleftrightarrow> before t (entry_deadline en) \<and> \<not> entry_expired t en"

definition redis_lapsed :: "instant \<Rightarrow> revocation_entry \<Rightarrow> bool" where
  "redis_lapsed t en \<longleftrightarrow> \<not> before t (entry_deadline en)"

lemma utf8_entry_deadline [simp]:
  "entry_deadline (utf8_entry en) = entry_deadline en" "redis_served t (utf8_entry en) = redis_served t en"
  "redis_lapsed t (utf8_entry en) = redis_lapsed t en"
  by (simp_all add: entry_deadline_def redis_served_def redis_lapsed_def split: option.splits)

lemma redis_revocationKey_inj:
  assumes "redis_valid c e" "redis_valid c' e'"
  shows "redis_revocationKey c e = redis_revocationKey c' e' \<longleftrightarrow> c = c' \<and> e = e'"
  using assms sep_append_eq_iff [of "CHR '':''" c c']
  by (auto simp: redis_revocationKey_def redis_valid_def)

lemma redis_valid_class: "redis_valid c e \<Longrightarrow> redis_valid c ''''"
  by (simp add: redis_valid_def)

lemma redis_stored_eq:
  "redis_valid c e \<Longrightarrow> redis_stored V J s (c, e) = decode_entry J (V s (redis_revocationKey c e))"
  by (simp add: redis_stored_def)

text \<open>A write of one key changes one entry of the abstract state.\<close>

lemma redis_write:
  assumes "redis_valid c e" and "V s' = (V s)(redis_revocationKey c e := x)"
  shows "redis_stored V J s' = (redis_stored V J s)((c, e) := decode_entry J x)"
    and "redis_revocation_inv V J s \<Longrightarrow> entry_ok J x \<Longrightarrow> redis_revocation_inv V J s'"
  using assms
  by (auto simp: redis_stored_def redis_revocation_inv_def fun_eq_iff redis_revocationKey_inj)

lemma redis_same:
  assumes "V s' = V s"
  shows "redis_stored V J s' = redis_stored V J s"
    and "redis_revocation_inv V J s' = redis_revocation_inv V J s"
  using assms by (auto simp: redis_stored_def redis_revocation_inv_def fun_eq_iff)

lemma redis_RevokeClass_step:
  assumes L: "redis_laws R V" and J: "entry_json_laws J"
    and "redis_RevokeClass R J t c e why who until s = (r, s')"
  shows "V s' = V s \<and> r \<noteq> None \<or>
    (\<exists>x. V s' = (V s)(redis_revocationKey c e := x) \<and> entry_ok J x \<and>
         decode_entry J x = Some (utf8_entry (new_entry t c e why who until)))"
proof -
  have set: "case rd_set R t k v d s of
        (None, s') \<Rightarrow> V s' = (V s)(k \<mapsto> (v, redis_deadline t d))
      | (Some er, s') \<Rightarrow> V s' = V s \<or> V s' = (V s)(k \<mapsto> (v, redis_deadline t d))"
    if "0 \<le> d" for k v d
    using L that by (simp add: redis_laws_def set_law_def)
  let ?en = "new_entry t c e why who until"
  let ?k = "redis_revocationKey c e"
  show ?thesis
  proof (cases "ej_marshal J ?en")
    case (Inl er)
    then show ?thesis using assms(3) by (auto simp: redis_RevokeClass_def)
  next
    case (Inr data)
    have u: "ej_unmarshal J data = Inr (utf8_entry ?en)" using J Inr by (simp add: entry_json_laws_def)
    show ?thesis
    proof (cases until)
      case None
      with u have "entry_ok J (Some (data, redis_deadline t 0))"
        "decode_entry J (Some (data, redis_deadline t 0)) = Some (utf8_entry ?en)"
        by (simp_all add: entry_ok_def decode_entry_def entry_deadline_def new_entry_def
            redis_deadline_def)
      then show ?thesis using assms(3) set [of 0 ?k data] Inr None
        by (auto simp: redis_RevokeClass_def split: option.splits)
    next
      case (Some v)
      with u have "entry_ok J (Some (data, redis_deadline t (v - t)))"
        "decode_entry J (Some (data, redis_deadline t (v - t))) = Some (utf8_entry ?en)"
        by (simp_all add: entry_ok_def decode_entry_def entry_deadline_def new_entry_def)
      then show ?thesis using assms(3) set [of "v - t" ?k data] Inr Some
        by (auto simp: redis_RevokeClass_def split: option.splits if_splits)
    qed
  qed
qed

lemma redis_UnrevokeClass_step:
  assumes "redis_laws R V" and "redis_UnrevokeClass R t c e s = (r, s')"
  shows "V s' = V s \<and> r \<noteq> None \<or> V s' = (V s)(redis_revocationKey c e := None)"
proof -
  have "case rd_del R t k s of (None, s') \<Rightarrow> V s' = (V s)(k := None)
      | (Some er, s') \<Rightarrow> V s' = V s \<or> V s' = (V s)(k := None)" for k
    using assms(1) by (simp add: redis_laws_def del_law_def)
  from this [of "redis_revocationKey c e"] assms(2) show ?thesis
    by (auto simp: redis_UnrevokeClass_def Let_def split: option.splits)
qed

text \<open>A read returns the stored entry while it is live, and a negative answer once it is not.\<close>

lemma redis_read:
  assumes L: "redis_laws R V" and I: "redis_revocation_inv V J s" and v: "redis_valid c e"
  shows "rd_get R t (redis_revocationKey c e) s = Inr d \<Longrightarrow>
      \<exists>en. redis_stored V J s (c, e) = Some en \<and> ej_unmarshal J d = Inr en \<and>
        before t (entry_deadline en)"
    and "rd_get R t (redis_revocationKey c e) s = Inl redis_Nil \<Longrightarrow>
      redis_stored V J s (c, e) = Some en \<Longrightarrow> \<not> before t (entry_deadline en)"
proof -
  let ?k = "redis_revocationKey c e"
  have get: "rd_get R t ?k s = Inr v \<Longrightarrow> live t (V s ?k) \<and> map_option fst (V s ?k) = Some v"
      "rd_get R t ?k s = Inl redis_Nil \<Longrightarrow> \<not> live t (V s ?k)" for v
    using L unfolding redis_laws_def get_law_def by blast+
  have i: "entry_ok J (V s ?k)" using I v by (simp add: redis_revocation_inv_def)
  show "rd_get R t ?k s = Inr d \<Longrightarrow>
      \<exists>en. redis_stored V J s (c, e) = Some en \<and> ej_unmarshal J d = Inr en \<and>
        before t (entry_deadline en)"
    using get(1) i v by (auto simp: redis_stored_eq entry_ok_def decode_entry_def split: option.splits)
  show "rd_get R t ?k s = Inl redis_Nil \<Longrightarrow>
      redis_stored V J s (c, e) = Some en \<Longrightarrow> \<not> before t (entry_deadline en)"
    using get(2) i v
    by (auto simp: redis_stored_eq entry_ok_def decode_entry_def split: option.splits sum.splits)
qed

lemma redis_lookup:
  assumes L: "redis_laws R V" and I: "redis_revocation_inv V J s" and v: "redis_valid c e"
    and r: "redis_IsRevoked R J t c e s = Inr r"
  shows "redis_stored V J s (c, e) = Some en \<Longrightarrow> redis_served t en \<Longrightarrow> r = (True, Some en)"
    and "redis_stored V J s (c, e) = None \<Longrightarrow> redis_stored V J s (c, '''') = Some en \<Longrightarrow>
      redis_served t en \<Longrightarrow> r = (True, Some en)"
    and "(\<And>en. redis_stored V J s (c, e) = Some en \<Longrightarrow> redis_lapsed t en) \<Longrightarrow>
      (\<And>en. redis_stored V J s (c, '''') = Some en \<Longrightarrow> redis_lapsed t en) \<Longrightarrow> r = (False, None)"
proof -
  note v' = redis_valid_class [OF v]
  note g = redis_read [OF L I v] and g' = redis_read [OF L I v']
  show "redis_stored V J s (c, e) = Some en \<Longrightarrow> redis_served t en \<Longrightarrow> r = (True, Some en)"
    using r g by (auto simp: redis_IsRevoked_def redis_served_def Let_def split: sum.splits if_splits)
  show "redis_stored V J s (c, e) = None \<Longrightarrow> redis_stored V J s (c, '''') = Some en \<Longrightarrow>
      redis_served t en \<Longrightarrow> r = (True, Some en)"
    using r g(1) g'
    by (auto simp: redis_IsRevoked_def redis_served_def Let_def split: sum.splits if_splits)
  show "(\<And>en. redis_stored V J s (c, e) = Some en \<Longrightarrow> redis_lapsed t en) \<Longrightarrow>
      (\<And>en. redis_stored V J s (c, '''') = Some en \<Longrightarrow> redis_lapsed t en) \<Longrightarrow> r = (False, None)"
    using r g(1) g'(1)
    by (fastforce simp: redis_IsRevoked_def redis_lapsed_def Let_def split: sum.splits if_splits)
qed

lemma redis_revocation_store:
  fixes R :: "'r redis"
  assumes L: "redis_laws R V" and J: "entry_json_laws J"
  shows "revocation_store (redis_RevokeClass R J) (redis_UnrevokeClass R) (redis_IsRevoked R J)
    (redis_revocation_inv V J) (redis_stored V J) redis_served redis_lapsed redis_valid utf8_entry"
proof unfold_locales
  fix s s' :: 'r and t c e why who until and x :: "string \<times> string"
  assume v: "redis_valid c e" and I: "redis_revocation_inv V J s"
  note w = redis_write [where s = s, OF v] and same = redis_same [where V = V and J = J and s = s]
  obtain r1 s1 where r1: "redis_RevokeClass R J t c e why who until s = (r1, s1)" by fastforce
  obtain r2 s2 where r2: "redis_UnrevokeClass R t c e s = (r2, s2)" by fastforce
  note st1 = redis_RevokeClass_step [OF L J r1] and st2 = redis_UnrevokeClass_step [OF L r2]
  have n: "entry_ok J None" "decode_entry J None = None" by (simp_all add: entry_ok_def decode_entry_def)
  let ?en = "utf8_entry (new_entry t c e why who until)"
  have a1: "redis_stored V J s1 = redis_stored V J s \<and> r1 \<noteq> None \<or>
      redis_stored V J s1 = (redis_stored V J s)((c, e) \<mapsto> ?en)"
    using st1 by (elim disjE exE conjE) (simp_all add: same(1) [of s1] w(1) [where s' = s1])
  have a2: "redis_stored V J s2 = redis_stored V J s \<and> r2 \<noteq> None \<or>
      redis_stored V J s2 = (redis_stored V J s)((c, e) := None)"
    using st2 by (elim disjE exE conjE) (simp_all add: same(1) [of s2] w(1) [where s' = s2] n)
  have "redis_revocation_inv V J s1"
    using st1 by (elim disjE exE conjE) (simp_all add: same(2) [of s1] I w(2) [where s' = s1])
  then show "redis_revocation_inv V J (snd (redis_RevokeClass R J t c e why who until s))"
    using r1 by simp
  have "redis_revocation_inv V J s2"
    using st2 by (elim disjE exE conjE) (simp_all add: same(2) [of s2] I w(2) [where s' = s2] n)
  then show "redis_revocation_inv V J (snd (redis_UnrevokeClass R t c e s))"
    using r2 by simp
  show "redis_stored V J s' = (redis_stored V J s)((c, e) \<mapsto> ?en)"
    if "redis_RevokeClass R J t c e why who until s = (None, s')"
    using that a1 r1 by simp
  show "redis_stored V J (snd (redis_RevokeClass R J t c e why who until s)) x = redis_stored V J s x"
    if "x \<noteq> (c, e)"
    using that a1 r1 by auto
  show "redis_stored V J s' = (redis_stored V J s)((c, e) := None)"
    if "redis_UnrevokeClass R t c e s = (None, s')"
    using that a2 r2 by simp
  show "redis_stored V J (snd (redis_UnrevokeClass R t c e s)) x = redis_stored V J s x"
    if "x \<noteq> (c, e)"
    using that a2 r2 by auto
  fix r en
  note lk = redis_lookup [OF L I v]
  show "r = (True, Some en)"
    if "redis_stored V J s (c, e) = Some en" "redis_served t en" "redis_IsRevoked R J t c e s = Inr r"
    using lk(1) [OF that(3,1,2)] .
  show "r = (True, Some en)"
    if "redis_stored V J s (c, e) = None" "redis_stored V J s (c, '''') = Some en"
      "redis_served t en" "redis_IsRevoked R J t c e s = Inr r"
    using lk(2) [OF that(4,1,2,3)] .
  show "r = (False, None)"
    if "\<And>en. redis_stored V J s (c, e) = Some en \<Longrightarrow> redis_lapsed t en"
      "\<And>en. redis_stored V J s (c, '''') = Some en \<Longrightarrow> redis_lapsed t en"
      "redis_IsRevoked R J t c e s = Inr r"
    using lk(3) [OF that(3,1,2)] .
qed

text \<open>In Redis an expired entry of the epoch is gone, and the class-wide one is found.\<close>

lemma redis_expired_entry_falls_through:
  assumes L: "redis_laws R V" and I: "redis_revocation_inv V J s" and v: "redis_valid c e"
    and "redis_stored V J s (c, e) = Some en" and "redis_lapsed t en"
    and "redis_stored V J s (c, '''') = Some en'" and "redis_served t en'"
    and "redis_IsRevoked R J t c e s = Inr r"
  shows "r = (True, Some en')"
  using redis_read [OF L I v] redis_read [OF L I redis_valid_class [OF v]] assms(4-)
  by (auto simp: redis_IsRevoked_def redis_served_def redis_lapsed_def Let_def
      split: sum.splits if_splits)

subsection \<open>Listing in Redis\<close>

text \<open>The pages the server returns from a cursor on, when the cursor comes back to 0.\<close>

inductive scan_pages :: "'r redis \<Rightarrow> instant \<Rightarrow> 'r \<Rightarrow> nat \<Rightarrow> string list list \<Rightarrow> bool"
  for R :: "'r redis" and now :: instant and s :: 'r where
  last_page: "rd_scan R now c ''revoke:*'' 100 s = Inr (keys, 0) \<Longrightarrow> scan_pages R now s c [keys]"
| next_page: "rd_scan R now c ''revoke:*'' 100 s = Inr (keys, c') \<Longrightarrow> c' \<noteq> 0 \<Longrightarrow>
    scan_pages R now s c' pages \<Longrightarrow> scan_pages R now s c (keys # pages)"

lemma scan_loop_pages:
  "scan_pages R now s c pages \<Longrightarrow>
   scan_loop R J now s c acc = Some (Inr (acc @ concat (map (read_entries R J now s) pages)))"
proof (induction arbitrary: acc rule: scan_pages.induct)
  case (last_page c keys)
  then show ?case by (subst scan_loop.simps) simp
next
  case (next_page c keys c' pages)
  then show ?case by (subst scan_loop.simps) simp
qed

text \<open>The error a scan ends with, after pages whose cursor was not 0.\<close>

inductive scan_fails :: "'r redis \<Rightarrow> instant \<Rightarrow> 'r \<Rightarrow> nat \<Rightarrow> goerr \<Rightarrow> bool"
  for R :: "'r redis" and now :: instant and s :: 'r where
  fails_here: "rd_scan R now c ''revoke:*'' 100 s = Inl err \<Longrightarrow> scan_fails R now s c err"
| fails_later: "rd_scan R now c ''revoke:*'' 100 s = Inr (keys, c') \<Longrightarrow> c' \<noteq> 0 \<Longrightarrow>
    scan_fails R now s c' err \<Longrightarrow> scan_fails R now s c err"

lemma scan_loop_fails: "scan_fails R now s c err \<Longrightarrow> scan_loop R J now s c acc = Some (Inl err)"
proof (induction arbitrary: acc rule: scan_fails.induct)
  case (fails_here c err)
  then show ?case by (subst scan_loop.simps) simp
next
  case (fails_later c keys c' err)
  then show ?case by (subst scan_loop.simps) simp
qed

text \<open>The cursor the loop asks for after \<open>n\<close> pages from \<open>c\<close> on, \<open>None\<close> once it has ended.\<close>

fun scan_cursor :: "'r redis \<Rightarrow> instant \<Rightarrow> 'r \<Rightarrow> nat \<Rightarrow> nat \<Rightarrow> nat option" where
  "scan_cursor R now s c 0 = Some c"
| "scan_cursor R now s c (Suc n) = (case rd_scan R now c ''revoke:*'' 100 s of
     Inl err \<Rightarrow> None
   | Inr (keys, c') \<Rightarrow> if c' = 0 then None else scan_cursor R now s c' n)"

lemma scan_cursor_ends:
  "scan_cursor R now s c n = None \<Longrightarrow> (\<exists>pages. scan_pages R now s c pages) \<or> (\<exists>err. scan_fails R now s c err)"
proof (induction n arbitrary: c)
  case (Suc n)
  show ?case
  proof (cases "rd_scan R now c ''revoke:*'' 100 s")
    case (Inl err)
    then show ?thesis by (intro disjI2 exI fails_here)
  next
    case (Inr p)
    then obtain keys c' where p: "rd_scan R now c ''revoke:*'' 100 s = Inr (keys, c')" by (cases p) auto
    show ?thesis
    proof (cases "c' = 0")
      case True
      with p have "scan_pages R now s c [keys]" by (simp add: last_page)
      then show ?thesis by blast
    next
      case False
      then have "(\<exists>pages. scan_pages R now s c' pages) \<or> (\<exists>err. scan_fails R now s c' err)"
        using Suc p by simp
      then show ?thesis using next_page [OF p False] fails_later [OF p False] by blast
    qed
  qed
qed simp

text \<open>While the cursors go on, no bounded number of pages makes the loop return.\<close>

lemma scan_loop_ends:
  assumes "scan_loop R J now s c acc = Some r"
  shows "\<exists>n. scan_cursor R now s c n = None"
proof (rule scan_loop.raw_induct [of "\<lambda>R J now s c acc r. \<exists>n. scan_cursor R now s c n = None", OF _ assms])
  fix f :: "'a redis \<Rightarrow> entry_json \<Rightarrow> instant \<Rightarrow> 'a \<Rightarrow> nat \<Rightarrow> revocation_entry list \<Rightarrow>
      revocation_entry list result option"
    and R :: "'a redis" and J now s c acc r
  assume IH: "\<And>R J now s c acc r. f R J now s c acc = Some r \<Longrightarrow> \<exists>n. scan_cursor R now s c n = None"
    and body: "(case rd_scan R now c ''revoke:*'' 100 s of
        Inl err \<Rightarrow> Some (Inl err)
      | Inr (keys, nextCursor) \<Rightarrow>
          if nextCursor = 0 then Some (Inr (acc @ read_entries R J now s keys))
          else f R J now s nextCursor (acc @ read_entries R J now s keys)) = Some r"
  show "\<exists>n. scan_cursor R now s c n = None"
  proof (cases "\<exists>keys c'. rd_scan R now c ''revoke:*'' 100 s = Inr (keys, c') \<and> c' \<noteq> 0")
    case True
    then obtain keys c' where p: "rd_scan R now c ''revoke:*'' 100 s = Inr (keys, c')" "c' \<noteq> 0" by blast
    then obtain n where "scan_cursor R now s c' n = None" using IH body by fastforce
    then have "scan_cursor R now s c (Suc n) = None" using p by simp
    then show ?thesis by blast
  next
    case False
    then have "scan_cursor R now s c (Suc 0) = None" by (auto split: sum.splits)
    then show ?thesis by blast
  qed
qed

lemma scan_loop_Some_iff:
  "scan_loop R J now s c acc = Some r \<longleftrightarrow>
     (\<exists>pages. scan_pages R now s c pages \<and> r = Inr (acc @ concat (map (read_entries R J now s) pages))) \<or>
     (\<exists>err. scan_fails R now s c err \<and> r = Inl err)"
  using scan_loop_ends [of R J now s c acc r] scan_cursor_ends scan_loop_pages scan_loop_fails
  by (metis option.inject)

lemma scan_loop_None_iff: "scan_loop R J now s c acc = None \<longleftrightarrow> (\<forall>n. scan_cursor R now s c n \<noteq> None)"
  using scan_loop_ends [of R J now s c acc] scan_cursor_ends [of R now s c] scan_loop_pages scan_loop_fails
  by (metis not_Some_eq)

subsection \<open>A JSON codec\<close>

text \<open>For the witnesses: a table of entries, each written as its index.\<close>

definition table_json :: "revocation_entry list \<Rightarrow> entry_json" where
  "table_json es = \<lparr>
     ej_marshal = (\<lambda>en. let i = length (takeWhile (\<lambda>x. x \<noteq> en) es)
       in if i < length es then Inr (replicate i CHR ''x'') else Inl (Errorf ''json'')),
     ej_unmarshal = (\<lambda>b. if length b < length es then Inr (utf8_entry (es ! length b))
       else Inl (Errorf ''json'')) \<rparr>"

lemma table_json_laws: "entry_json_laws (table_json es)"
proof -
  have "es ! length (takeWhile (\<lambda>x. x \<noteq> en) es) = en"
    if "length (takeWhile (\<lambda>x. x \<noteq> en) es) < length es" for en
    using nth_length_takeWhile [OF that] by simp
  then show ?thesis by (auto simp: entry_json_laws_def table_json_def Let_def)
qed

subsection \<open>Properties\<close>

lemma mem_RevokeClass_None: "mem_RevokeClass t c e why who until s = (None, snd (mem_RevokeClass t c e why who until s))"
  by (simp add: mem_RevokeClass_def)

lemma mem_IsRevoked_answers: "\<exists>r. mem_IsRevoked t c e s = Inr r"
  by (auto simp: mem_IsRevoked_def split: option.splits)

text \<open>
  A revocation in the in-memory store stays in force. After \<open>RevokeClass\<close> and any
  number of further administrative operations on other classes or epochs, \<open>IsRevoked\<close>
  reports the entry that was written, up to and including its end instant.
\<close>

lemma mem_revocation_in_force:
  assumes "mem_valid c e" and "\<forall>op \<in> set ops. case_prod mem_valid (op_target op)"
    and "(c, e) \<notin> op_target ` set ops"
    and "\<not> entry_expired t' (new_entry t c e why who until)"
  shows "mem_IsRevoked t' c e (admin_run mem_RevokeClass mem_UnrevokeClass ops
      (snd (mem_RevokeClass t c e why who until s))) =
    Inr (True, Some (new_entry t c e why who until))"
proof -
  let ?s = "admin_run mem_RevokeClass mem_UnrevokeClass ops
      (snd (mem_RevokeClass t c e why who until s))"
  obtain r where r: "mem_IsRevoked t' c e ?s = Inr r"
    using mem_IsRevoked_answers by blast
  with mem_revocation.revocation_persists [OF _ assms(1) mem_RevokeClass_None assms(2,3,4)]
  show ?thesis by blast
qed

lemma mem_revocation_in_force_witness:
  "mem_IsRevoked 7 ''gold'' ''2026-01'' (admin_run mem_RevokeClass mem_UnrevokeClass
      [OpRevoke 2 ''gold'' '''' ''all'' ''root'' None, OpUnrevoke 3 ''gold'' '''']
      (snd (mem_RevokeClass 1 ''gold'' ''2026-01'' ''leak'' ''root'' (Some 7)
        NewInMemoryRevocationStore))) =
    Inr (True, Some (new_entry 1 ''gold'' ''2026-01'' ''leak'' ''root'' (Some 7)))"
  by (rule mem_revocation_in_force) (simp_all add: mem_valid_def entry_expired_def new_entry_def)

text \<open>
  C22: a revocation in the Redis store stays in force. From any state the store itself
  produces, after a successful \<open>RevokeClass\<close> and any further administrative operations on
  other classes or epochs, failed ones included, \<open>IsRevoked\<close> either fails or reports the
  entry that was written, until the expiry of its key. The entry is the one of the call, with
  the bytes of its texts that are not UTF-8 replaced, as JSON does.
\<close>

theorem redis_revocation_in_force:
  assumes "redis_laws R V" and "entry_json_laws J" and "redis_revocation_inv V J s"
    and "redis_valid c e" and "redis_RevokeClass R J t c e why who until s = (None, s')"
    and "\<forall>op \<in> set ops. case_prod redis_valid (op_target op)"
    and "(c, e) \<notin> op_target ` set ops"
    and "redis_served t' (new_entry t c e why who until)"
  shows "redis_IsRevoked R J t' c e (admin_run (redis_RevokeClass R J) (redis_UnrevokeClass R) ops s')
    \<in> range Inl \<union> {Inr (True, Some (utf8_entry (new_entry t c e why who until)))}"
proof -
  note st = redis_revocation_store [OF assms(1,2)]
  have "redis_served t' (utf8_entry (new_entry t c e why who until))" using assms(8) by simp
  then show ?thesis
    using revocation_store.revocation_persists [OF st assms(3-7)]
    by (cases "redis_IsRevoked R J t' c e
        (admin_run (redis_RevokeClass R J) (redis_UnrevokeClass R) ops s')") auto
qed

theorem redis_revocation_in_force_witness:
  "let en = new_entry 1 ''gold'' ''2026-01'' ''leak'' ''root'' (Some (1 + second));
       J = table_json [en]
   in redis_IsRevoked mem_redis J 7 ''gold'' ''2026-01''
     (admin_run (redis_RevokeClass mem_redis J) (redis_UnrevokeClass mem_redis)
        [OpUnrevoke 3 ''gold'' '''']
        (snd (redis_RevokeClass mem_redis J 1 ''gold'' ''2026-01'' ''leak'' ''root''
          (Some (1 + second)) Map.empty)))
    \<in> range Inl \<union> {Inr (True, Some (utf8_entry en))}"
  unfolding Let_def
  by (rule redis_revocation_in_force [OF mem_redis_laws table_json_laws])
    (simp_all add: redis_valid_def redis_revocation_inv_def entry_ok_def redis_RevokeClass_def
      table_json_def mem_redis_def redis_served_def entry_deadline_def entry_expired_def
      new_entry_def redis_deadline_def redis_ttl_def)

text \<open>
  Where the two stores differ. Once an epoch-specific entry has expired, the in-memory
  store reports the epoch as not revoked even under a permanent class-wide revocation; after
  the same two operations the Redis store reports the class-wide entry whenever it answers.
\<close>

lemma expired_entry_hides_class_revocation:
  assumes "e \<noteq> ''''" and "mem_valid c e" and "u < t" and "t1 + redis_ttl (u - t1) \<le> t"
    and "redis_laws R V" and "entry_json_laws J" and "redis_revocation_inv V J s"
    and "redis_valid c e"
    and "redis_RevokeClass R J t0 c '''' why' who' None s = (None, s1)"
    and "redis_RevokeClass R J t1 c e why who (Some u) s1 = (None, s2)"
  shows "mem_IsRevoked t c e (snd (mem_RevokeClass t1 c e why who (Some u)
      (snd (mem_RevokeClass t0 c '''' why' who' None NewInMemoryRevocationStore)))) =
      Inr (False, None) \<and>
    redis_IsRevoked R J t c e s2
      \<in> range Inl \<union> {Inr (True, Some (utf8_entry (new_entry t0 c '''' why' who' None)))}"
proof
  show "mem_IsRevoked t c e (snd (mem_RevokeClass t1 c e why who (Some u)
      (snd (mem_RevokeClass t0 c '''' why' who' None NewInMemoryRevocationStore)))) =
      Inr (False, None)"
    using assms(1-3)
    by (intro mem_expired_entry_hides [where en = "new_entry t1 c e why who (Some u)"])
      (simp_all add: mem_stored_eq mem_RevokeClass_def entry_expired_def new_entry_def)
  note st = redis_revocation_store [OF assms(5,6)]
  note v = assms(8) and v' = redis_valid_class [OF assms(8)]
  have u: "t1 < u"
    using assms(10) by (auto simp: redis_RevokeClass_def Let_def split: sum.splits if_splits)
  have i1: "redis_revocation_inv V J s1"
    using revocation_store.inv_revoke [OF st assms(7) v', of t0 why' who' None] assms(9) by simp
  have i2: "redis_revocation_inv V J s2"
    using revocation_store.inv_revoke [OF st i1 v, of t1 why who "Some u"] assms(10) by simp
  have "redis_stored V J s2 (c, e) = Some (utf8_entry (new_entry t1 c e why who (Some u)))"
    "redis_stored V J s2 (c, '''') = Some (utf8_entry (new_entry t0 c '''' why' who' None))"
    using revocation_store.revoke_ok [OF st assms(7) v' assms(9)]
      revocation_store.revoke_ok [OF st i1 v assms(10)] assms(1) by simp_all
  moreover have "redis_lapsed t (utf8_entry (new_entry t1 c e why who (Some u)))"
    "redis_served t (utf8_entry (new_entry t0 c '''' why' who' None))"
    using assms(4) u
    by (simp_all add: redis_lapsed_def redis_served_def entry_deadline_def entry_expired_def
        new_entry_def redis_deadline_def)
  ultimately show "redis_IsRevoked R J t c e s2
      \<in> range Inl \<union> {Inr (True, Some (utf8_entry (new_entry t0 c '''' why' who' None)))}"
    using redis_expired_entry_falls_through [OF assms(5) i2 v]
    by (cases "redis_IsRevoked R J t c e s2") auto
qed

lemma expired_entry_hides_class_revocation_witness:
  "let en0 = new_entry 0 ''gold'' '''' ''leak'' ''root'' None;
       en1 = new_entry 0 ''gold'' ''2026-01'' ''test'' ''root'' (Some second);
       J = table_json [en0, en1]
   in mem_IsRevoked (2 * second) ''gold'' ''2026-01''
       (snd (mem_RevokeClass 0 ''gold'' ''2026-01'' ''test'' ''root'' (Some second)
         (snd (mem_RevokeClass 0 ''gold'' '''' ''leak'' ''root'' None NewInMemoryRevocationStore)))) =
       Inr (False, None) \<and>
     redis_IsRevoked mem_redis J (2 * second) ''gold'' ''2026-01''
       (snd (redis_RevokeClass mem_redis J 0 ''gold'' ''2026-01'' ''test'' ''root'' (Some second)
         (snd (redis_RevokeClass mem_redis J 0 ''gold'' '''' ''leak'' ''root'' None Map.empty))))
       \<in> range Inl \<union> {Inr (True, Some (utf8_entry en0))}"
  unfolding Let_def
  by (rule expired_entry_hides_class_revocation [OF _ _ _ _ mem_redis_laws table_json_laws,
        where s = Map.empty])
    (simp_all add: mem_valid_def redis_valid_def redis_revocation_inv_def entry_ok_def
      redis_RevokeClass_def table_json_def mem_redis_def new_entry_def redis_ttl_def)

text \<open>
  C32: when listing in Redis ends, and with what. The loop returns a list exactly when the pages
  from cursor 0 on come to an end with the cursor 0, and then the list holds the entries of the
  live, decodable keys of those pages in their order; it returns an error exactly when a scan
  after finitely many pages fails, and then that error. It does not return exactly when the
  server goes on with a cursor other than 0 after every number of pages.
\<close>

theorem redis_list_result:
  "(redis_ListRevocations R J order now s = Some (Inr es) \<longleftrightarrow>
     (\<exists>pages. scan_pages R now s 0 pages \<and> es = nil_slice (concat (map (read_entries R J now s) pages)))) \<and>
   (redis_ListRevocations R J order now s = Some (Inl err) \<longleftrightarrow> scan_fails R now s 0 err) \<and>
   (redis_ListRevocations R J order now s = None \<longleftrightarrow> (\<forall>n. scan_cursor R now s 0 n \<noteq> None))"
proof (intro conjI)
  show "redis_ListRevocations R J order now s = Some (Inr es) \<longleftrightarrow>
     (\<exists>pages. scan_pages R now s 0 pages \<and> es = nil_slice (concat (map (read_entries R J now s) pages)))"
    by (auto simp: redis_ListRevocations_def scan_loop_Some_iff)
  show "redis_ListRevocations R J order now s = Some (Inl err) \<longleftrightarrow> scan_fails R now s 0 err"
  proof -
    have "map_sum id nil_slice x = Inl err \<longleftrightarrow> x = Inl err" for x :: "revocation_entry list result"
      by (cases x) simp_all
    then show ?thesis by (auto simp: redis_ListRevocations_def scan_loop_Some_iff)
  qed
  show "redis_ListRevocations R J order now s = None \<longleftrightarrow> (\<forall>n. scan_cursor R now s 0 n \<noteq> None)"
    by (simp add: redis_ListRevocations_def scan_loop_None_iff)
qed

end
