(* ===== verification/Metrics.thy ===== *)
theory Metrics
  imports GoStd
begin

section \<open>Metrics (pkg/metrics, internal/api: metrics.go)\<close>

text \<open>
  The Prometheus library is not part of the repository; the collector's state is the
  sequence of calls it makes on its counter and histogram vectors, named as they are
  registered. The collector is the only implementation of \<open>MetricsReporter\<close>. 
  \<open>Registry\<close> has the vectors and their registration; the \<open>/metrics\<close> page is the library's.
\<close>

datatype prom_call =
    CounterInc string "string list"
  | HistogramObserve string "string list" duration

type_synonym collector = "prom_call list"

definition NewMetricsCollector :: collector where
  "NewMetricsCollector = []"

definition RecordHTTPRequest :: "string \<Rightarrow> string \<Rightarrow> nat \<Rightarrow> duration \<Rightarrow> collector \<Rightarrow> collector" where
  "RecordHTTPRequest httpMethod path status dur m =
     m @ [CounterInc ''blindvault_http_requests_total'' [httpMethod, path, nat_str status],
          HistogramObserve ''blindvault_http_request_duration_seconds'' [httpMethod, path] dur]"

definition RecordIssuance :: "string \<Rightarrow> string \<Rightarrow> collector \<Rightarrow> collector" where
  "RecordIssuance r credentialClass m =
     m @ [CounterInc ''blindvault_credential_issuance_total'' [r, credentialClass]]"

definition RecordConsumption :: "string \<Rightarrow> string \<Rightarrow> string \<Rightarrow> collector \<Rightarrow> collector" where
  "RecordConsumption r credentialClass epoch m =
     m @ [CounterInc ''blindvault_credential_consumption_total'' [r, credentialClass, epoch]]"

definition RecordNullifierStore :: "string \<Rightarrow> string \<Rightarrow> collector \<Rightarrow> collector" where
  "RecordNullifierStore operation r m =
     m @ [CounterInc ''blindvault_nullifier_store_operations_total'' [operation, r]]"

definition RecordRevocation :: "string \<Rightarrow> string \<Rightarrow> collector \<Rightarrow> collector" where
  "RecordRevocation r credentialClass m =
     m @ [CounterInc ''blindvault_revocation_operations_total'' [r, credentialClass]]"

definition RecordUnrevocation :: "string \<Rightarrow> string \<Rightarrow> collector \<Rightarrow> collector" where
  "RecordUnrevocation r credentialClass m =
     m @ [CounterInc ''blindvault_unrevocation_operations_total'' [r, credentialClass]]"

text \<open>The value of a counter: how often it was incremented.\<close>

definition counter :: "string \<Rightarrow> string list \<Rightarrow> collector \<Rightarrow> nat" where
  "counter name labels m = count_list m (CounterInc name labels)"

lemma counter_append [simp]: "counter n ls (m @ m') = counter n ls m + counter n ls m'"
  by (simp add: counter_def)

lemma counter_Nil [simp]: "counter n ls [] = 0"
  and counter_Inc [simp]: "counter n ls [CounterInc n' ls'] = (if n' = n \<and> ls' = ls then 1 else 0)"
  by (simp_all add: counter_def)

end
