(* ===== verification/Service.thy ===== *)
theory Service
  imports Config Auth NullifierStore RevocationStore Metrics
begin

section \<open>The credential service (internal/service: credentials.go, interface.go)\<close>

text \<open>
  Issuing and redeeming credentials. The service is a record of its engine, configuration,
  stores and metrics; the two stores are values of their interfaces \<open>NI\<close> and \<open>RI\<close>. The
  nullifier store is never nil (\<open>NewServer\<close> always makes one); the revocation store and the
  metrics reporter may be. A request consults its context in a fixed order, and reads the
  clock where a store does.
\<close>

record ('p1, 'e, 'n, 'r) service =
  cs_engine :: "'p1 engine"
  cs_config :: "'e config"
  cs_store :: 'n
  cs_revocationStore :: "'r option"
  cs_metrics :: "collector option"

record dleq_serialized =
  ds_R1 :: string
  ds_R2 :: string
  ds_S :: string
  ds_C :: string

record issue_result =
  ir_BlindSignature :: string
  ir_PublicKey :: string
  ir_KeyEpoch :: string
  ir_Proof :: dleq_serialized

datatype consume_status = ConsumeAccepted | ConsumeDuplicate | ConsumeRevoked | ConsumeOther string

record consume_result =
  cr_Status :: consume_status
  cr_Error :: string

definition NewCredentialService ::
    "('p1, 'p2, 's, 'ml) blst \<Rightarrow> 'e config \<Rightarrow> 'n \<Rightarrow> 'r option \<Rightarrow> collector option \<Rightarrow>
     ('p1, 'e, 'n, 'r) service" where
  "NewCredentialService B cfg store revocationStore mtr =
     \<lparr> cs_engine = NewBLS12Engine B, cs_config = cfg, cs_store = store,
       cs_revocationStore = revocationStore, cs_metrics = mtr \<rparr>"

subsection \<open>Close and Ping\<close>

text \<open>\<open>Close\<close> on a nil service does nothing; otherwise both stores are closed and the first error wins.\<close>

definition Service_Close ::
    "'n nullifier_iface \<Rightarrow> 'r revocation_iface \<Rightarrow> ('p1, 'e, 'n, 'r) service option \<Rightarrow>
     goerr option \<times> ('p1, 'e, 'n, 'r) service option" where
  "Service_Close NI RI svc = (case svc of
       None \<Rightarrow> (None, None)
     | Some s \<Rightarrow>
         let (err, n) = ns_Close NI (cs_store s);
             s = s\<lparr>cs_store := n\<rparr>
         in (case cs_revocationStore s of
               None \<Rightarrow> (err, Some s)
             | Some r \<Rightarrow>
                 let (err2, r) = rs_Close RI r
                 in (if err2 \<noteq> None \<and> err = None then err2 else err,
                     Some (s\<lparr>cs_revocationStore := Some r\<rparr>))))"

definition Service_Ping ::
    "'n nullifier_iface \<Rightarrow> 'r revocation_iface \<Rightarrow> instant \<Rightarrow> go_context \<Rightarrow> ('p1, 'e, 'n, 'r) service \<Rightarrow>
     goerr option" where
  "Service_Ping NI RI now ctx s =
     (case ns_Ping NI now (cx_err ctx 0) (cs_store s) of
        Some err \<Rightarrow> Some (Wrapf ''nullifier store ping failed'' err)
      | None \<Rightarrow>
     (case cs_revocationStore s of
        None \<Rightarrow> None
      | Some r \<Rightarrow> (case rs_Ping RI now (cx_err ctx 1) r of
          Some err \<Rightarrow> Some (Wrapf ''revocation store ping failed'' err)
        | None \<Rightarrow> None)))"

subsection \<open>Issue\<close>

definition serialize_issue ::
    "('p1, 'p2, 's, 'ml) blst \<Rightarrow> string \<Rightarrow> 'p1 \<Rightarrow> 'p2 \<Rightarrow> ('p1, 'p2, 's) dleq_proof \<Rightarrow> issue_result" where
  "serialize_issue B epoch blindSig pk proof =
     \<lparr> ir_BlindSignature = hex_of (G1_Compress B blindSig),
       ir_PublicKey = hex_of (G2_Compress B pk),
       ir_KeyEpoch = epoch,
       ir_Proof = \<lparr> ds_R1 = hex_of (G2_Compress B (pf_R1 proof)),
         ds_R2 = hex_of (G1_Compress B (pf_R2 proof)),
         ds_S = hex_encode (Scalar_Bytes B (pf_S proof)),
         ds_C = hex_encode (Scalar_Bytes B (pf_C proof)) \<rparr> \<rparr>"

definition Issue ::
    "('p1, 'p2, 's, 'ml) blst \<Rightarrow> 'e memguard \<Rightarrow> bytes result \<Rightarrow> go_context \<Rightarrow> string \<Rightarrow> string \<Rightarrow>
     ('p1, 'e, 'n, 'r) service \<Rightarrow> issue_result result \<times> ('p1, 'e, 'n, 'r) service" where
  "Issue B M rnd ctx blindedHex class s =
     (if class = '''' then (Inl (errors_New ''credential_class cannot be empty''), s)
      else (case hex_decode blindedHex of
        Inl err \<Rightarrow> (Inl (errors_Wrap err ''invalid blinded_message hex''), s)
      | Inr blindedBytes \<Rightarrow> (case CheckContext 0 ctx of
        Some err \<Rightarrow> (Inl (errors_Wrap err ''request cancelled before deserializing blinded_message''), s)
      | None \<Rightarrow> (case DeserializeG1 B blindedBytes of
        Inl err \<Rightarrow> (Inl (errors_Wrap err ''invalid blinded_message point''), s)
      | Inr blinded \<Rightarrow>
        let (masterSeed, cfg) = MasterSeed M (cs_config s);
            s = s\<lparr>cs_config := cfg\<rparr>
        in (case masterSeed of
        Inl err \<Rightarrow> (Inl (errors_Wrap err ''master seed error''), s)
      | Inr seed \<Rightarrow> (case DeriveSigningKey B M (Some seed) (cf_ActiveEpoch cfg) class of
        Inl err \<Rightarrow> (Inl (errors_Wrap err ''key derivation failed''), s)
      | Inr sk \<Rightarrow> (case SignBlinded B blinded sk of
        Inl err \<Rightarrow> (Inl (errors_Wrap err ''signing failed''), s)
      | Inr blindSig \<Rightarrow> (case CheckContext 1 ctx of
        Some err \<Rightarrow> (Inl (errors_Wrap err ''request cancelled before DLEQ proof generation''), s)
      | None \<Rightarrow>
        let pk = PubKey B sk
        in (case DLEQProve B rnd sk blinded pk of
        Inl err \<Rightarrow> (Inl (errors_Wrap err ''DLEQ proof generation failed''), s)
      | Inr proof \<Rightarrow> (Inr (serialize_issue B (cf_ActiveEpoch cfg) blindSig pk proof), s))))))))))"

subsection \<open>Consume\<close>

definition nullifierstore ::
    "string \<Rightarrow> string \<Rightarrow> ('p1, 'e, 'n, 'r) service \<Rightarrow> ('p1, 'e, 'n, 'r) service" where
  "nullifierstore state r s = (case cs_metrics s of
       None \<Rightarrow> s
     | Some m \<Rightarrow> s\<lparr>cs_metrics := Some (RecordNullifierStore state r m)\<rparr>)"

text \<open>Steps 1 and 2: \<open>Some\<close> is an early return, \<open>None\<close> goes on.\<close>

definition revoked_message :: "revocation_entry option \<Rightarrow> string" where
  "revoked_message entry = (case entry of
       Some en \<Rightarrow> if re_Reason en \<noteq> '''' then ''credential class revoked'' @ '': '' @ re_Reason en
                 else ''credential class revoked''
     | None \<Rightarrow> ''credential class revoked'')"

definition consume_admit ::
    "'r revocation_iface \<Rightarrow> instant \<Rightarrow> string \<Rightarrow> string \<Rightarrow> ('p1, 'e, 'n, 'r) service \<Rightarrow>
     consume_result result option" where
  "consume_admit RI now class epoch s =
     (if class = '''' then Some (Inl (apperr_New CodeInvalidArgument ''credential_class is required''))
      else if epoch = '''' then Some (Inl (apperr_New CodeInvalidArgument ''key_epoch is required''))
      else if \<not> IsEpochSupported (cs_config s) epoch
      then Some (Inl (apperr_New CodeInvalidArgument ''unsupported key_epoch''))
      else (case cs_revocationStore s of
          None \<Rightarrow> None
        | Some r \<Rightarrow> (case rs_IsRevoked RI now class epoch r of
            Inl err \<Rightarrow> Some (Inl (apperr_Wrap CodeUnavailable (Some err) ''revocation check failed''))
          | Inr (revoked, entry) \<Rightarrow>
              if revoked
              then Some (Inr \<lparr> cr_Status = ConsumeRevoked, cr_Error = revoked_message entry \<rparr>)
              else None)))"

text \<open>Steps 3 to 5: decode, derive the key, verify.\<close>

definition consume_verify ::
    "('p1, 'p2, 's, 'ml) blst \<Rightarrow> 'e memguard \<Rightarrow> go_context \<Rightarrow> string \<Rightarrow> string \<Rightarrow> string \<Rightarrow> string \<Rightarrow>
     ('p1, 'e, 'n, 'r) service \<Rightarrow> 'p1 result \<times> ('p1, 'e, 'n, 'r) service" where
  "consume_verify B M ctx sigHex witnessHex class epoch s =
     (case hex_decode sigHex of
        Inl err \<Rightarrow> (Inl (apperr_Wrap CodeInvalidArgument (Some err) ''invalid signature hex''), s)
      | Inr sigBytes \<Rightarrow> (case hex_decode witnessHex of
        Inl err \<Rightarrow> (Inl (apperr_Wrap CodeInvalidArgument (Some err) ''invalid witness hex''), s)
      | Inr witnessBytes \<Rightarrow> (case DeserializeG1 B sigBytes of
        Inl err \<Rightarrow> (Inl (apperr_Wrap CodeInvalidArgument (Some err) ''invalid signature point''), s)
      | Inr sig \<Rightarrow> (case DeserializeG1 B witnessBytes of
        Inl err \<Rightarrow> (Inl (apperr_Wrap CodeInvalidArgument (Some err) ''invalid witness point''), s)
      | Inr witness \<Rightarrow>
        let (masterSeed, cfg) = MasterSeed M (cs_config s);
            s = s\<lparr>cs_config := cfg\<rparr>
        in (case masterSeed of
        Inl err \<Rightarrow> (Inl (apperr_Wrap CodeInternal (Some err) ''master seed error''), s)
      | Inr seed \<Rightarrow> (case DeriveSigningKey B M (Some seed) epoch class of
        Inl err \<Rightarrow> (Inl (apperr_Wrap CodeInternal (Some err) ''key derivation failed''), s)
      | Inr sk \<Rightarrow>
        let pk = PubKey B sk
        in (case CheckContext 0 ctx of
        Some err \<Rightarrow> (Inl (apperr_Wrap CodeUnavailable (Some err) ''request cancelled before verification''), s)
      | None \<Rightarrow>
        if \<not> VerifyPoint B sig witness pk
        then (Inl (apperr_New CodeInvalidArgument ''invalid signature''), s)
        else (Inr sig, s))))))))"

text \<open>Step 6: the nullifier, and the metrics of the check.\<close>

definition consume_commit ::
    "('p1, 'p2, 's, 'ml) blst \<Rightarrow> 'n nullifier_iface \<Rightarrow> instant \<Rightarrow> go_context \<Rightarrow> string \<Rightarrow> string \<Rightarrow> 'p1 \<Rightarrow>
     ('p1, 'e, 'n, 'r) service \<Rightarrow> consume_result result \<times> ('p1, 'e, 'n, 'r) service" where
  "consume_commit B NI now ctx class epoch sig s =
     (let nullifier = ComputeNullifier B epoch class sig;
          (r, n) = ns_CheckAndStore NI now (cx_err ctx 1) nullifier (cs_store s);
          s = s\<lparr>cs_store := n\<rparr>
      in (case r of
          Inl err \<Rightarrow> (Inl (apperr_Wrap CodeUnavailable (Some err) ''nullifier store error''),
                     nullifierstore ''check: failure'' (error_text err) s)
        | Inr isNew \<Rightarrow>
            if \<not> isNew
            then (Inr \<lparr> cr_Status = ConsumeDuplicate, cr_Error = ''credential already redeemed'' \<rparr>,
                  nullifierstore ''check'' ''duplicate'' s)
            else (Inr \<lparr> cr_Status = ConsumeAccepted, cr_Error = '''' \<rparr>,
                  nullifierstore ''check'' ''unique'' s)))"

definition Consume ::
    "('p1, 'p2, 's, 'ml) blst \<Rightarrow> 'e memguard \<Rightarrow> 'n nullifier_iface \<Rightarrow> 'r revocation_iface \<Rightarrow>
     instant \<Rightarrow> instant \<Rightarrow> go_context \<Rightarrow> string \<Rightarrow> string \<Rightarrow> string \<Rightarrow> string \<Rightarrow>
     ('p1, 'e, 'n, 'r) service \<Rightarrow> consume_result result \<times> ('p1, 'e, 'n, 'r) service" where
  "Consume B M NI RI t1 t2 ctx sigHex witnessHex class epoch s =
     (case consume_admit RI t1 class epoch s of
        Some r \<Rightarrow> (r, s)
      | None \<Rightarrow> (case consume_verify B M ctx sigHex witnessHex class epoch s of
          (Inl err, s) \<Rightarrow> (Inl err, s)
        | (Inr sig, s) \<Rightarrow> consume_commit B NI t2 ctx class epoch sig s))"

subsection \<open>Lemmas on the phases\<close>

text \<open>The key the service signs and verifies with.\<close>

definition service_key ::
    "('p1, 'p2, 's, 'ml) blst \<Rightarrow> 'e memguard \<Rightarrow> string \<Rightarrow> string \<Rightarrow> 'e config \<Rightarrow> 's result" where
  "service_key B M epoch class cfg = (case fst (MasterSeed M cfg) of
       Inl err \<Rightarrow> Inl err
     | Inr seed \<Rightarrow> DeriveSigningKey B M (Some seed) epoch class)"

lemma MasterSeed_frame [simp]:
  "cf_ActiveEpoch (snd (MasterSeed M c)) = cf_ActiveEpoch c"
  "cf_SupportedEpochs (snd (MasterSeed M c)) = cf_SupportedEpochs c"
  by (auto simp: MasterSeed_def Let_def split: option.splits sum.splits)

lemma MasterSeed_again [simp]:
  "fst (MasterSeed M (snd (MasterSeed M c))) = fst (MasterSeed M c)"
  by (auto simp: MasterSeed_def Let_def split: option.splits sum.splits)

lemma service_key_again [simp]:
  "service_key B M epoch class (snd (MasterSeed M c)) = service_key B M epoch class c"
  by (simp add: service_key_def)

lemma nullifierstore_frame [simp]:
  "cs_config (nullifierstore a b s) = cs_config s"
  "cs_store (nullifierstore a b s) = cs_store s"
  "cs_revocationStore (nullifierstore a b s) = cs_revocationStore s"
  by (simp_all add: nullifierstore_def split: option.splits)

text \<open>A request is well formed for a signature and a witness.\<close>

definition decoded :: "('p1, 'p2, 's, 'ml) blst \<Rightarrow> string \<Rightarrow> 'p1 \<Rightarrow> bool" where
  "decoded B hex p \<longleftrightarrow> (\<exists>b. hex_decode hex = Inr b \<and> DeserializeG1 B b = Inr p)"

lemma decoded_unique: "decoded B hex p \<Longrightarrow> decoded B hex q \<Longrightarrow> p = q"
  by (auto simp: decoded_def)

lemma decoded_in: "decoded B hex p \<Longrightarrow> p1_in_g1 B p"
  by (auto simp: decoded_def dest: DeserializeG1_in)

lemma decoded_hex_of:
  assumes "blst_laws B D" "p1_in_g1 B p"
  shows "decoded B (hex_of (G1_Compress B p)) p"
  using hex_point_roundtrip [OF assms] by (metis decoded_def)

lemma consume_verify_ok_iff:
  "fst (consume_verify B M ctx sigHex witnessHex class epoch s) = Inr sig \<longleftrightarrow>
     decoded B sigHex sig \<and> cx_err ctx 0 = None \<and>
     (\<exists>w sk. decoded B witnessHex w \<and> service_key B M epoch class (cs_config s) = Inr sk \<and>
        VerifyPoint B sig w (PubKey B sk))"
proof (cases "MasterSeed M (cs_config s)")
  case (Pair ms cfg)
  show ?thesis
  proof (cases "\<exists>p q. decoded B sigHex p \<and> decoded B witnessHex q")
    case True
    then show ?thesis
      using Pair
      by (auto simp: consume_verify_def decoded_def service_key_def CheckContext_def Let_def
          split: sum.splits option.splits if_splits)
  next
    case False
    then have "\<nexists>sig. fst (consume_verify B M ctx sigHex witnessHex class epoch s) = Inr sig"
      by (auto simp: consume_verify_def decoded_def split: sum.splits)
    with False show ?thesis by blast
  qed
qed

lemma consume_verify_frame:
  "let s' = snd (consume_verify B M ctx sigHex witnessHex class epoch s)
   in cs_store s' = cs_store s \<and> cs_revocationStore s' = cs_revocationStore s \<and>
      cs_metrics s' = cs_metrics s \<and> cs_config s' \<in> {cs_config s, snd (MasterSeed M (cs_config s))}"
  by (cases "MasterSeed M (cs_config s)")
    (auto simp: consume_verify_def Let_def split: sum.splits option.splits)

lemmas consume_verify_keeps = consume_verify_frame [unfolded Let_def, THEN conjunct1]
  consume_verify_frame [unfolded Let_def, THEN conjunct2, THEN conjunct1]
  consume_verify_frame [unfolded Let_def, THEN conjunct2, THEN conjunct2, THEN conjunct1]

lemma consume_verify_config [simp]:
  "service_key B M e c (cs_config (snd (consume_verify B M ctx sigHex witnessHex class epoch s))) =
     service_key B M e c (cs_config s)"
  "cf_SupportedEpochs (cs_config (snd (consume_verify B M ctx sigHex witnessHex class epoch s))) =
     cf_SupportedEpochs (cs_config s)"
  using consume_verify_frame [of B M ctx sigHex witnessHex "class" epoch s] by (auto simp: Let_def)

text \<open>Every error of the verification phase carries a code of its own.\<close>

lemma consume_verify_codes:
  "fst (consume_verify B M ctx sigHex witnessHex class epoch s) = Inl err \<Longrightarrow>
     CodeOf (Some err) \<in> {CodeInvalidArgument, CodeInternal, CodeUnavailable}"
  by (auto simp: consume_verify_def Let_def split: sum.splits option.splits prod.splits if_splits)

lemma Consume_error_codes:
  assumes "fst (Consume B M NI RI t1 t2 ctx sigHex wHex cls epoch s) = Inl err"
  shows "CodeOf (Some err) \<in> {CodeInvalidArgument, CodeInternal, CodeUnavailable}"
proof (cases "consume_admit RI t1 cls epoch s")
  case None
  show ?thesis
  proof (cases "consume_verify B M ctx sigHex wHex cls epoch s")
    case (Pair v s1)
    then show ?thesis using assms None consume_verify_codes [of B M ctx sigHex wHex cls epoch s err]
      by (cases v) (auto simp: Consume_def consume_commit_def Let_def split: sum.splits prod.splits if_splits)
  qed
next
  case (Some r)
  then show ?thesis
    using assms by (auto simp: Consume_def consume_admit_def split: option.splits sum.splits if_splits)
qed

definition not_revoked ::
    "'r revocation_iface \<Rightarrow> instant \<Rightarrow> string \<Rightarrow> string \<Rightarrow> ('p1, 'e, 'n, 'r) service \<Rightarrow> bool" where
  "not_revoked RI now class epoch s \<longleftrightarrow> (case cs_revocationStore s of None \<Rightarrow> True
     | Some r \<Rightarrow> (\<exists>en. rs_IsRevoked RI now class epoch r = Inr (False, en)))"

lemma consume_admit_None_iff:
  "consume_admit RI now class epoch s = None \<longleftrightarrow>
     class \<noteq> '''' \<and> epoch \<noteq> '''' \<and> epoch \<in> set (cf_SupportedEpochs (cs_config s)) \<and>
     not_revoked RI now class epoch s"
  by (auto simp: consume_admit_def not_revoked_def split: option.splits sum.splits)

lemma consume_admit_not_accepted:
  "consume_admit RI now class epoch s = Some (Inr r) \<Longrightarrow> cr_Status r = ConsumeRevoked"
  by (auto simp: consume_admit_def split: if_splits option.splits sum.splits)

text \<open>What acceptance means, over any nullifier store.\<close>

definition accepted :: "consume_result result \<Rightarrow> bool" where
  "accepted r \<longleftrightarrow> (case r of Inl _ \<Rightarrow> False | Inr x \<Rightarrow> cr_Status x = ConsumeAccepted)"

lemma accepted_simps [simp]: "\<not> accepted (Inl e)" "accepted (Inr x) \<longleftrightarrow> cr_Status x = ConsumeAccepted"
  by (simp_all add: accepted_def)

definition admissible ::
    "('p1, 'p2, 's, 'ml) blst \<Rightarrow> 'e memguard \<Rightarrow> 'r revocation_iface \<Rightarrow> instant \<Rightarrow> go_context \<Rightarrow> string \<Rightarrow>
     string \<Rightarrow> string \<Rightarrow> string \<Rightarrow> ('p1, 'e, 'n, 'r) service \<Rightarrow> 'p1 \<Rightarrow> bool" where
  "admissible B M RI t1 ctx sigHex witnessHex class epoch s sig \<longleftrightarrow>
     consume_admit RI t1 class epoch s = None \<and>
     fst (consume_verify B M ctx sigHex witnessHex class epoch s) = Inr sig"

lemma Consume_admissible:
  assumes "admissible B M RI t1 ctx sigHex witnessHex class epoch s sig"
  shows "Consume B M NI RI t1 t2 ctx sigHex witnessHex class epoch s =
    consume_commit B NI t2 ctx class epoch sig
      (snd (consume_verify B M ctx sigHex witnessHex class epoch s))"
  using assms by (auto simp: Consume_def admissible_def split: prod.splits)

lemma Consume_inadmissible:
  assumes "\<nexists>sig. admissible B M RI t1 ctx sigHex witnessHex class epoch s sig"
  shows "\<not> accepted (fst (Consume B M NI RI t1 t2 ctx sigHex witnessHex class epoch s))"
    and "cs_store (snd (Consume B M NI RI t1 t2 ctx sigHex witnessHex class epoch s)) = cs_store s"
    and "cs_metrics (snd (Consume B M NI RI t1 t2 ctx sigHex witnessHex class epoch s)) = cs_metrics s"
proof -
  let ?v = "consume_verify B M ctx sigHex witnessHex class epoch s"
  consider r where "consume_admit RI t1 class epoch s = Some r"
    | err where "consume_admit RI t1 class epoch s = None" "fst ?v = Inl err"
    using assms by (cases "consume_admit RI t1 class epoch s"; cases "fst ?v") (auto simp: admissible_def)
  then have "\<not> accepted (fst (Consume B M NI RI t1 t2 ctx sigHex witnessHex class epoch s)) \<and>
    cs_store (snd (Consume B M NI RI t1 t2 ctx sigHex witnessHex class epoch s)) = cs_store s \<and>
    cs_metrics (snd (Consume B M NI RI t1 t2 ctx sigHex witnessHex class epoch s)) = cs_metrics s"
  proof cases
    case 1
    then show ?thesis
      by (cases r) (auto simp: Consume_def dest: consume_admit_not_accepted)
  next
    case 2
    then have "Consume B M NI RI t1 t2 ctx sigHex witnessHex class epoch s = (Inl err, snd ?v)"
      by (cases ?v) (simp add: Consume_def)
    then show ?thesis by (simp add: consume_verify_keeps)
  qed
  then show "\<not> accepted (fst (Consume B M NI RI t1 t2 ctx sigHex witnessHex class epoch s))"
    and "cs_store (snd (Consume B M NI RI t1 t2 ctx sigHex witnessHex class epoch s)) = cs_store s"
    and "cs_metrics (snd (Consume B M NI RI t1 t2 ctx sigHex witnessHex class epoch s)) = cs_metrics s"
    by simp_all
qed

subsection \<open>Runs of the service\<close>

text \<open>
  The requests that reach the service and the stores it shares with the administrative
  handlers, each as one step.
\<close>

datatype service_op =
    OpIssue "bytes result" go_context string string
  | OpConsume instant instant go_context string string string string
  | OpAdmin admin_op

fun admin_apply :: "'r revocation_iface \<Rightarrow> admin_op \<Rightarrow> 'r \<Rightarrow> 'r" where
  "admin_apply RI (OpRevoke t c e why who until) r = snd (rs_RevokeClass RI t c e why who until r)"
| "admin_apply RI (OpUnrevoke t c e) r = snd (rs_UnrevokeClass RI t c e r)"

fun service_step ::
    "('p1, 'p2, 's, 'ml) blst \<Rightarrow> 'e memguard \<Rightarrow> 'n nullifier_iface \<Rightarrow> 'r revocation_iface \<Rightarrow> service_op \<Rightarrow>
     ('p1, 'e, 'n, 'r) service \<Rightarrow> bool \<times> ('p1, 'e, 'n, 'r) service" where
  "service_step B M NI RI (OpIssue rnd ctx blindedHex class) s =
     (False, snd (Issue B M rnd ctx blindedHex class s))"
| "service_step B M NI RI (OpConsume t1 t2 ctx sigHex witnessHex class epoch) s =
     (let (r, s') = Consume B M NI RI t1 t2 ctx sigHex witnessHex class epoch s in (accepted r, s'))"
| "service_step B M NI RI (OpAdmin a) s =
     (False, s\<lparr>cs_revocationStore := map_option (admin_apply RI a) (cs_revocationStore s)\<rparr>)"

fun service_run ::
    "('p1, 'p2, 's, 'ml) blst \<Rightarrow> 'e memguard \<Rightarrow> 'n nullifier_iface \<Rightarrow> 'r revocation_iface \<Rightarrow>
     service_op list \<Rightarrow> ('p1, 'e, 'n, 'r) service \<Rightarrow> bool list \<times> ('p1, 'e, 'n, 'r) service" where
  "service_run B M NI RI [] s = ([], s)"
| "service_run B M NI RI (op # ops) s =
     (let (a, s1) = service_step B M NI RI op s; (as, s2) = service_run B M NI RI ops s1
      in (a # as, s2))"

text \<open>The nullifier a request presents, and how often a run accepts a nullifier.\<close>

fun op_nullifier :: "('p1, 'p2, 's, 'ml) blst \<Rightarrow> service_op \<Rightarrow> bytes option" where
  "op_nullifier B (OpConsume t1 t2 ctx sigHex witnessHex class epoch) =
     (case hex_decode sigHex of Inl _ \<Rightarrow> None
      | Inr b \<Rightarrow> (case DeserializeG1 B b of Inl _ \<Rightarrow> None
        | Inr sig \<Rightarrow> Some (ComputeNullifier B epoch class sig)))"
| "op_nullifier B _ = None"

fun op_instants :: "service_op \<Rightarrow> instant set" where
  "op_instants (OpConsume t1 t2 ctx sigHex witnessHex class epoch) = {t2}"
| "op_instants _ = {}"

definition redemptions ::
    "('p1, 'p2, 's, 'ml) blst \<Rightarrow> bytes \<Rightarrow> service_op list \<Rightarrow> bool list \<Rightarrow> nat" where
  "redemptions B k ops as =
     length (filter (\<lambda>(op, a). a \<and> op_nullifier B op = Some k) (zip ops as))"

lemma redemptions_simps [simp]:
  "redemptions B k [] as = 0"
  "redemptions B k (op # ops) (a # as) =
     (if a \<and> op_nullifier B op = Some k then 1 else 0) + redemptions B k ops as"
  by (simp_all add: redemptions_def)

lemma Issue_state:
  "snd (Issue B M rnd ctx blindedHex class s) \<in> {s, s\<lparr>cs_config := snd (MasterSeed M (cs_config s))\<rparr>}"
  unfolding Issue_def Let_def split_beta by (intro snd_in_case) simp_all

lemma Issue_frame:
  "cs_store (snd (Issue B M rnd ctx blindedHex class s)) = cs_store s \<and>
   cs_revocationStore (snd (Issue B M rnd ctx blindedHex class s)) = cs_revocationStore s \<and>
   cs_metrics (snd (Issue B M rnd ctx blindedHex class s)) = cs_metrics s"
  using Issue_state [of B M rnd ctx blindedHex "class" s] by auto

lemma consume_commit_store:
  "cs_store (snd (consume_commit B NI t ctx class epoch sig s)) =
     snd (ns_CheckAndStore NI t (cx_err ctx 1) (ComputeNullifier B epoch class sig) (cs_store s))"
  "accepted (fst (consume_commit B NI t ctx class epoch sig s)) \<longleftrightarrow>
     fst (ns_CheckAndStore NI t (cx_err ctx 1) (ComputeNullifier B epoch class sig) (cs_store s)) =
       Inr True"
  by (cases "ns_CheckAndStore NI t (cx_err ctx 1) (ComputeNullifier B epoch class sig) (cs_store s)";
      auto simp: consume_commit_def Let_def split: sum.splits)+

text \<open>A step either leaves the nullifier store alone, or makes one call of \<open>CheckAndStore\<close>.\<close>

lemma service_step_cases:
  obtains (quiet) "\<not> fst (service_step B M NI RI op s)"
      "cs_store (snd (service_step B M NI RI op s)) = cs_store s"
  | (call) t c k where "op_nullifier B op = Some k" "op_instants op = {t}"
      "cs_store (snd (service_step B M NI RI op s)) = snd (ns_CheckAndStore NI t c k (cs_store s))"
      "fst (service_step B M NI RI op s) \<longleftrightarrow> fst (ns_CheckAndStore NI t c k (cs_store s)) = Inr True"
proof (cases op)
  case (OpIssue rnd ctx blindedHex cls)
  then show thesis by (intro quiet) (simp_all add: Issue_frame)
next
  case (OpAdmin a)
  then show thesis by (intro quiet) simp_all
next
  case (OpConsume t1 t2 ctx sigHex witnessHex cls epoch)
  show thesis
  proof (cases "\<exists>sig. admissible B M RI t1 ctx sigHex witnessHex cls epoch s sig")
    case False
    then show thesis
      using Consume_inadmissible [of B M RI t1 ctx sigHex witnessHex cls epoch s NI t2]
      by (intro quiet) (simp_all add: OpConsume split_beta Let_def)
  next
    case True
    then obtain sig where ad: "admissible B M RI t1 ctx sigHex witnessHex cls epoch s sig" ..
    then have "decoded B sigHex sig" by (simp add: admissible_def consume_verify_ok_iff)
    then have k: "op_nullifier B op = Some (ComputeNullifier B epoch cls sig)"
      by (auto simp: OpConsume decoded_def)
    show thesis
      by (rule call [OF k, of t2 "cx_err ctx 1"])
        (simp_all add: OpConsume split_beta Let_def Consume_admissible [OF ad] consume_commit_store
          consume_verify_keeps)
  qed
qed

subsection \<open>Replay protection of the service, over the nullifier store's contract\<close>

lemma service_run_op_run: "service_run B M NI RI ops s = op_run (service_step B M NI RI) ops s"
  by (induction ops arbitrary: s) simp_all

lemma redemptions_success: "redemptions B k ops as = success_count (op_nullifier B) k ops as"
  by (simp add: redemptions_def success_count_def)

lemma service_uses_store:
  "uses_store (ns_CheckAndStore NI) cs_store (op_nullifier B) op_instants (service_step B M NI RI)"
  unfolding uses_store_def
proof (intro allI)
  fix op s
  show "\<not> fst (service_step B M NI RI op s) \<and> cs_store (snd (service_step B M NI RI op s)) = cs_store s \<or>
    (\<exists>t c k. op_nullifier B op = Some k \<and> op_instants op = {t} \<and>
      cs_store (snd (service_step B M NI RI op s)) = snd (ns_CheckAndStore NI t c k (cs_store s)) \<and>
      (fst (service_step B M NI RI op s) \<longleftrightarrow> fst (ns_CheckAndStore NI t c k (cs_store s)) = Inr True))"
    by (cases rule: service_step_cases [of B M NI RI op s]) blast+
qed

context nullifier_store
begin

lemma service_at_most_once:
  assumes "ns_CheckAndStore NI = check" and "inv (cs_store s)"
    and "\<forall>op \<in> set ops. \<forall>t \<in> op_instants op. \<forall>op' \<in> set ops. \<forall>t' \<in> op_instants op'.
      before t' (stamp t)"
  shows "redemptions B k ops (fst (service_run B M NI RI ops s)) \<le> 1"
  unfolding service_run_op_run redemptions_success
  by (rule run_at_most_once [OF service_uses_store [of NI, unfolded assms(1)] assms(2,3)])

end

subsection \<open>Lemmas on acceptance\<close>

text \<open>With the in-memory store: when a call of \<open>CheckAndStore\<close> accepts, and what it leaves.\<close>

lemma mem_check_iff:
  "fst (mem_CheckAndStore t c k n) = Inr True \<longleftrightarrow> c = None \<and> nm_store n k \<noteq> Some True"
  "nm_store (snd (mem_CheckAndStore t c k n)) x = Some True \<longleftrightarrow>
     nm_store n x = Some True \<or> x = k \<and> fst (mem_CheckAndStore t c k n) = Inr True"
  by (auto simp: mem_CheckAndStore_def split: option.splits)

lemma InMemory_simps [simp]:
  "ns_CheckAndStore InMemoryNullifierStore = mem_CheckAndStore"
  "ns_Ping InMemoryNullifierStore = mem_nullifier_Ping"
  "ns_Close InMemoryNullifierStore = mem_nullifier_Close"
  by (simp_all add: InMemoryNullifierStore_def)

lemma RedisNullifier_simps [simp]:
  "ns_CheckAndStore (RedisNullifierStore R) = redis_CheckAndStore R"
  by (simp add: RedisNullifierStore_def)

lemma Consume_store_accepted_iff:
  "accepted (fst (Consume B M NI RI t1 t2 ctx sigHex witnessHex class epoch s)) \<longleftrightarrow>
     (\<exists>sig. admissible B M RI t1 ctx sigHex witnessHex class epoch s sig \<and>
        fst (ns_CheckAndStore NI t2 (cx_err ctx 1) (ComputeNullifier B epoch class sig) (cs_store s)) = Inr True)"
proof (cases "\<exists>sig. admissible B M RI t1 ctx sigHex witnessHex class epoch s sig")
  case True
  then obtain sig where ad: "admissible B M RI t1 ctx sigHex witnessHex class epoch s sig" ..
  have "sig' = sig" if "admissible B M RI t1 ctx sigHex witnessHex class epoch s sig'" for sig'
    using ad that by (simp add: admissible_def)
  then show ?thesis
    unfolding Consume_admissible [OF ad] consume_commit_store consume_verify_keeps
    using ad by blast
next
  case False
  then show ?thesis using Consume_inadmissible(1) [OF False] by blast
qed

lemma Consume_mem_accepted_iff:
  "accepted (fst (Consume B M InMemoryNullifierStore RI t1 t2 ctx sigHex witnessHex class epoch s)) \<longleftrightarrow>
     (\<exists>sig. admissible B M RI t1 ctx sigHex witnessHex class epoch s sig \<and> cx_err ctx 1 = None \<and>
        nm_store (cs_store s) (ComputeNullifier B epoch class sig) \<noteq> Some True)"
  unfolding Consume_store_accepted_iff InMemory_simps mem_check_iff ..

lemma Consume_mem_store:
  "nm_store (cs_store (snd (Consume B M InMemoryNullifierStore RI t1 t2 ctx sigHex witnessHex class epoch s))) k
      = Some True \<longleftrightarrow>
   nm_store (cs_store s) k = Some True \<or>
   (\<exists>sig. decoded B sigHex sig \<and> k = ComputeNullifier B epoch class sig \<and>
      accepted (fst (Consume B M InMemoryNullifierStore RI t1 t2 ctx sigHex witnessHex class epoch s)))"
proof (cases "\<exists>sig. admissible B M RI t1 ctx sigHex witnessHex class epoch s sig")
  case True
  then obtain sig where ad: "admissible B M RI t1 ctx sigHex witnessHex class epoch s sig" ..
  then have d: "decoded B sigHex sig" by (simp add: admissible_def consume_verify_ok_iff)
  note c = Consume_admissible [OF ad, of InMemoryNullifierStore t2]
  show ?thesis
    unfolding c consume_commit_store InMemory_simps mem_check_iff(2) consume_verify_keeps
    using d decoded_unique [OF d] by blast
next
  case False
  then show ?thesis using Consume_inadmissible [OF False, of InMemoryNullifierStore t2] by simp
qed

text \<open>The verification equation, for a key the service has.\<close>

lemma admissible_iff:
  assumes L: "blst_laws B D"
  shows "admissible B M RI t1 ctx sigHex witnessHex class epoch s sig \<longleftrightarrow>
     consume_admit RI t1 class epoch s = None \<and> cx_err ctx 0 = None \<and> decoded B sigHex sig \<and>
     (\<exists>w sk. decoded B witnessHex w \<and> service_key B M epoch class (cs_config s) = Inr sk \<and>
        sig = p1_mult B w sk)"
proof -
  have "VerifyPoint B sig w (PubKey B sk) \<longleftrightarrow> sig = p1_mult B w sk"
    if "decoded B sigHex sig" "decoded B witnessHex w" for w sk
    using that by (intro VerifyPoint_PubKey_iff [OF L]) (auto dest: decoded_in)
  then show ?thesis by (auto simp: admissible_def consume_verify_ok_iff)
qed

text \<open>What the service can be started with for the witnesses.\<close>

lemma length_derive_okm [simp]: "length (derive_okm seed ep cl) = 64"
  by (simp add: derive_okm_def)

lemma z3_service_key:
  assumes "cf_MasterSeedEnclave cfg = Some (c # cs)" and "ep \<noteq> ''''" and "cl \<noteq> ''''"
  shows "service_key z3_blst plain_memguard ep cl cfg = Inr Z1"
proof -
  have "DeriveSigningKey z3_blst plain_memguard (Some (c # cs)) ep cl = Inr Z1"
    using assms(2,3)
    by (simp add: DeriveSigningKey_ok_iff Enclave_Open_def plain_memguard_def z3_blst_def z3_hash_def)
  then show ?thesis by (simp add: service_key_def MasterSeed_def assms(1))
qed

lemma z3_decoded: "decoded z3_blst (hex_encode (z3_enc 48 p)) p"
  by (simp add: decoded_def DeserializeG1_def z3_blst_def z3_codec)

definition sample_service :: "(z3, bytes, nullifier_mem, revocation_mem) service" where
  "sample_service = NewCredentialService z3_blst
     (sample_config\<lparr>cf_MasterSeedEnclave := Some ''seed'', cf_SupportedEpochs := [''2026-01'']\<rparr>)
     NewInMemoryNullifierStore (Some NewInMemoryRevocationStore) (Some NewMetricsCollector)"

lemma sample_service_simps [simp]:
  "cf_MasterSeedEnclave (cs_config sample_service) = Some ''seed''"
  "cf_SupportedEpochs (cs_config sample_service) = [''2026-01'']"
  "cf_ActiveEpoch (cs_config sample_service) = ''2026-01''"
  "cs_store sample_service = NewInMemoryNullifierStore"
  "cs_revocationStore sample_service = Some NewInMemoryRevocationStore"
  by (simp_all add: sample_service_def NewCredentialService_def sample_config_def)

lemma sample_admit:
  "consume_admit InMemoryRevocationStore t ''gold'' ''2026-01'' sample_service = None"
  by (simp add: consume_admit_None_iff not_revoked_def InMemoryRevocationStore_def mem_IsRevoked_def
      NewInMemoryRevocationStore_def)

subsection \<open>What Issue returns\<close>

definition decoded_G2 :: "('p1, 'p2, 's, 'ml) blst \<Rightarrow> string \<Rightarrow> 'p2 \<Rightarrow> bool" where
  "decoded_G2 B hex p \<longleftrightarrow> (\<exists>b. hex_decode hex = Inr b \<and> DeserializeG2 B b = Inr p)"

definition decoded_scalar :: "('p1, 'p2, 's, 'ml) blst \<Rightarrow> string \<Rightarrow> 's \<Rightarrow> bool" where
  "decoded_scalar B hex x \<longleftrightarrow> (\<exists>b. hex_decode hex = Inr b \<and> NewBlstScalarFromBytes B b = Inr x)"

definition decoded_proof ::
    "('p1, 'p2, 's, 'ml) blst \<Rightarrow> dleq_serialized \<Rightarrow> ('p1, 'p2, 's) dleq_proof \<Rightarrow> bool" where
  "decoded_proof B d pf \<longleftrightarrow> decoded_G2 B (ds_R1 d) (pf_R1 pf) \<and> decoded B (ds_R2 d) (pf_R2 pf) \<and>
     decoded_scalar B (ds_S d) (pf_S pf) \<and> decoded_scalar B (ds_C d) (pf_C pf)"

lemma decoded_G2_hex_of:
  assumes "blst_laws B D" "p2_in_g2 B p"
  shows "decoded_G2 B (hex_of (G2_Compress B p)) p"
proof -
  obtain c where "G2_Compress B p = Some c" "DeserializeG2 B c = Inr p"
    using deserialize_compress_G2 [OF assms] .
  then show ?thesis by (simp add: decoded_G2_def)
qed

lemma decoded_scalar_bytes:
  "blst_laws B D \<Longrightarrow> decoded_scalar B (hex_encode (Scalar_Bytes B x)) x"
  by (simp add: decoded_scalar_def scalar_bytes_roundtrip)

lemma decoded_serialized:
  assumes L: "blst_laws B D" and "p1_in_g1 B sig" "p2_in_g2 B pk" "p2_in_g2 B (pf_R1 pf)"
    "p1_in_g1 B (pf_R2 pf)"
  shows "decoded B (ir_BlindSignature (serialize_issue B ep sig pk pf)) sig"
    "decoded_G2 B (ir_PublicKey (serialize_issue B ep sig pk pf)) pk"
    "decoded_proof B (ir_Proof (serialize_issue B ep sig pk pf)) pf"
  using assms
  by (simp_all add: serialize_issue_def decoded_proof_def decoded_hex_of [OF L]
      decoded_G2_hex_of [OF L] decoded_scalar_bytes [OF L])

lemma Issue_ok_iff:
  "fst (Issue B M rnd ctx blindedHex class s) = Inr res \<longleftrightarrow>
     class \<noteq> '''' \<and> cx_err ctx 0 = None \<and> cx_err ctx 1 = None \<and>
     (\<exists>blinded sk pf. decoded B blindedHex blinded \<and>
        service_key B M (cf_ActiveEpoch (cs_config s)) class (cs_config s) = Inr sk \<and>
        DLEQProve B rnd sk blinded (PubKey B sk) = Inr pf \<and>
        res = serialize_issue B (cf_ActiveEpoch (cs_config s)) (p1_mult B blinded sk) (PubKey B sk) pf)"
proof -
  have e: "cf_ActiveEpoch (snd (MasterSeed M (cs_config s))) = cf_ActiveEpoch (cs_config s)" by simp
  show ?thesis
  proof (cases "MasterSeed M (cs_config s)")
    case (Pair ms cfg)
    then have "cf_ActiveEpoch cfg = cf_ActiveEpoch (cs_config s)" using e by simp
    then show ?thesis
      using Pair
      by (auto simp: Issue_def decoded_def service_key_def CheckContext_def SignBlinded_def Let_def
          split: sum.splits option.splits)
  qed
qed

lemma DLEQProve_in:
  assumes "blst_laws B D" "p1_in_g1 B b" "DLEQProve B rnd sk b pk = Inr pf"
  shows "p2_in_g2 B (pf_R1 pf)" "p1_in_g1 B (pf_R2 pf)"
  using assms by (auto elim!: DLEQProve_cases simp: blst_simps)

text \<open>A derived key is not zero, so its public key is a valid one.\<close>

lemma service_key_nonzero:
  "blst_laws B D \<Longrightarrow> service_key B M ep cl cfg = Inr sk \<Longrightarrow> sv D sk \<noteq> 0"
  by (auto simp: service_key_def dest: DeriveSigningKey_nonzero split: sum.splits)

subsection \<open>Properties\<close>

text \<open>A returned blind signature decodes to the blinded point multiplied by the key of its epoch.\<close>

lemma Issue_signed:
  assumes L: "blst_laws B D" and "fst (Issue B M rnd ctx blindedHex cl s) = Inr res"
    and "decoded B (ir_BlindSignature res) bsig"
  obtains sk bl where "cl \<noteq> ''''" "decoded B blindedHex bl"
    "service_key B M (ir_KeyEpoch res) cl (cs_config s) = Inr sk" "bsig = p1_mult B bl sk"
proof -
  let ?ep = "cf_ActiveEpoch (cs_config s)"
  obtain bl sk pf where i: "cl \<noteq> ''''" "decoded B blindedHex bl" "service_key B M ?ep cl (cs_config s) = Inr sk"
    and p: "DLEQProve B rnd sk bl (PubKey B sk) = Inr pf"
    and r: "res = serialize_issue B ?ep (p1_mult B bl sk) (PubKey B sk) pf"
    using assms(2) by (auto simp: Issue_ok_iff)
  have b: "p1_in_g1 B bl" "p1_in_g1 B (p1_mult B bl sk)" using L decoded_in [OF i(2)] by (simp_all add: blst_simps)
  have "decoded B (ir_BlindSignature res) (p1_mult B bl sk)"
    using decoded_serialized [OF L b(2) PubKey_in [OF L] DLEQProve_in [OF L b(1) p]] r by simp
  then have "bsig = p1_mult B bl sk" by (rule decoded_unique [OF assms(3)])
  moreover have "ir_KeyEpoch res = ?ep" by (simp add: r serialize_issue_def)
  ultimately show thesis using that i by simp
qed

text \<open>
  C8: what a client gets from \<open>Issue\<close>. A result is returned only for a class, a live
  context, a decodable point of the group and a derivable key of the active epoch; its
  fields decode to the blinded point multiplied by the key, to the key's public key, and to
  a proof which the client's check accepts for exactly these points.
\<close>

theorem issue_result_verifies:
  assumes L: "blst_laws B D" and issue: "fst (Issue B M rnd ctx blindedHex cl s) = Inr res"
  shows "cl \<noteq> '''' \<and> cx_err ctx 0 = None \<and> cx_err ctx 1 = None \<and>
    ir_KeyEpoch res = cf_ActiveEpoch (cs_config s) \<and>
    (\<exists>blinded sk sig pk pf. decoded B blindedHex blinded \<and>
       service_key B M (ir_KeyEpoch res) cl (cs_config s) = Inr sk \<and>
       decoded B (ir_BlindSignature res) sig \<and> SignBlinded B blinded sk = Inr sig \<and>
       decoded_G2 B (ir_PublicKey res) pk \<and> pk = PubKey B sk \<and>
       decoded_proof B (ir_Proof res) pf \<and> DLEQVerify B pf blinded sig pk)"
proof -
  let ?ep = "cf_ActiveEpoch (cs_config s)"
  obtain blinded sk pf where
    i: "cl \<noteq> ''''" "cx_err ctx 0 = None" "cx_err ctx 1 = None"
    and b: "decoded B blindedHex blinded" and k: "service_key B M ?ep cl (cs_config s) = Inr sk"
    and p: "DLEQProve B rnd sk blinded (PubKey B sk) = Inr pf"
    and r: "res = serialize_issue B ?ep (p1_mult B blinded sk) (PubKey B sk) pf"
    using issue by (auto simp: Issue_ok_iff)
  have bin: "p1_in_g1 B blinded" using decoded_in [OF b] .
  have sig: "p1_in_g1 B (p1_mult B blinded sk)" using L bin by (simp add: blst_simps)
  have d: "decoded B (ir_BlindSignature res) (p1_mult B blinded sk)"
    "decoded_G2 B (ir_PublicKey res) (PubKey B sk)" "decoded_proof B (ir_Proof res) pf"
    using decoded_serialized [OF L sig PubKey_in [OF L] DLEQProve_in [OF L bin p]] r by simp_all
  have "DLEQVerify B pf blinded (p1_mult B blinded sk) (PubKey B sk)"
    by (rule DLEQProve_verifies [OF L bin p]) (simp add: SignBlinded_def)
  moreover have "ir_KeyEpoch res = ?ep" by (simp add: r serialize_issue_def)
  ultimately show ?thesis using i b k d by (auto simp: SignBlinded_def)
qed

lemma sample_proof: "\<exists>pf. DLEQProve z3_blst (Inr ''noise'') Z1 Z2 (PubKey z3_blst Z1) = Inr pf"
  by (simp add: DLEQProve_def NewRandomScalar_def computeChallenge_def z3_blst_def z3_hash_def
      randomScalarDST_def dleqProofDst_def z3_mul_def z3_add_def z3_of_def z3_enc_def PubKey_def)

lemma sample_issue:
  "\<exists>res. fst (Issue z3_blst plain_memguard (Inr ''noise'') background
      (hex_encode (z3_enc 48 Z2)) ''gold'' sample_service) = Inr res"
proof -
  have "service_key z3_blst plain_memguard ''2026-01'' ''gold'' (cs_config sample_service) = Inr Z1"
    by (rule z3_service_key) simp_all
  then show ?thesis
    using z3_decoded [of Z2] sample_proof by (auto simp: Issue_ok_iff background_def)
qed

theorem issue_result_verifies_witness:
  "\<exists>res. fst (Issue z3_blst plain_memguard (Inr ''noise'') background
      (hex_encode (z3_enc 48 Z2)) ''gold'' sample_service) = Inr res \<and>
    ir_KeyEpoch res = ''2026-01'' \<and>
    (\<exists>blinded sk sig pk pf. decoded z3_blst (ir_BlindSignature res) sig \<and>
       decoded_G2 z3_blst (ir_PublicKey res) pk \<and> decoded_proof z3_blst (ir_Proof res) pf \<and>
       SignBlinded z3_blst blinded sk = Inr sig \<and> DLEQVerify z3_blst pf blinded sig pk)"
proof -
  obtain res where r: "fst (Issue z3_blst plain_memguard (Inr ''noise'') background
      (hex_encode (z3_enc 48 Z2)) ''gold'' sample_service) = Inr res"
    using sample_issue by blast
  have ep: "cf_ActiveEpoch (cs_config sample_service) = ''2026-01''" by simp
  from issue_result_verifies [OF z3_blst_laws r] r show ?thesis
    unfolding ep by blast
qed

lemma Consume_accepted_store_iff:
  assumes "blst_laws B D"
  shows "accepted (fst (Consume B M NI RI t1 t2 ctx sigHex witnessHex cl ep s)) \<longleftrightarrow>
    cl \<noteq> '''' \<and> ep \<noteq> '''' \<and> ep \<in> set (cf_SupportedEpochs (cs_config s)) \<and>
    not_revoked RI t1 cl ep s \<and> cx_err ctx 0 = None \<and>
    (\<exists>sig w sk. decoded B sigHex sig \<and> decoded B witnessHex w \<and>
       service_key B M ep cl (cs_config s) = Inr sk \<and> sig = p1_mult B w sk \<and>
       fst (ns_CheckAndStore NI t2 (cx_err ctx 1) (ComputeNullifier B ep cl sig) (cs_store s)) = Inr True)"
  unfolding Consume_store_accepted_iff admissible_iff [OF assms] consume_admit_None_iff
  by blast

lemma Consume_accepted_iff:
  assumes "blst_laws B D"
  shows "accepted (fst (Consume B M InMemoryNullifierStore RI t1 t2 ctx sigHex witnessHex cl ep s)) \<longleftrightarrow>
    cl \<noteq> '''' \<and> ep \<noteq> '''' \<and> ep \<in> set (cf_SupportedEpochs (cs_config s)) \<and>
    not_revoked RI t1 cl ep s \<and> cx_err ctx 0 = None \<and> cx_err ctx 1 = None \<and>
    (\<exists>sig w sk. decoded B sigHex sig \<and> decoded B witnessHex w \<and>
       service_key B M ep cl (cs_config s) = Inr sk \<and> sig = p1_mult B w sk \<and>
       nm_store (cs_store s) (ComputeNullifier B ep cl sig) \<noteq> Some True)"
  unfolding Consume_mem_accepted_iff admissible_iff [OF assms] consume_admit_None_iff
  by blast

text \<open>
  C4: the redemption check with the in-memory store is exact. A request is accepted if and
  only if class and epoch are given, the epoch is supported, no revocation is reported, the
  context is live at both points, signature and witness decode to points of the group, the
  signature is the witness multiplied by the key of that epoch and class, and its nullifier
  is not stored; exactly the accepted requests store a nullifier, their own.
\<close>

theorem consume_exact:
  assumes "blst_laws B D"
    and "Consume B M InMemoryNullifierStore RI t1 t2 ctx sigHex witnessHex cl ep s = (r, s')"
  shows "(accepted r \<longleftrightarrow>
      cl \<noteq> '''' \<and> ep \<noteq> '''' \<and> ep \<in> set (cf_SupportedEpochs (cs_config s)) \<and>
      not_revoked RI t1 cl ep s \<and> cx_err ctx 0 = None \<and> cx_err ctx 1 = None \<and>
      (\<exists>sig w sk. decoded B sigHex sig \<and> decoded B witnessHex w \<and>
         service_key B M ep cl (cs_config s) = Inr sk \<and> sig = p1_mult B w sk \<and>
         nm_store (cs_store s) (ComputeNullifier B ep cl sig) \<noteq> Some True)) \<and>
    {k. nm_store (cs_store s') k = Some True} =
      {k. nm_store (cs_store s) k = Some True} \<union>
      {k. accepted r \<and> (\<exists>sig. decoded B sigHex sig \<and> k = ComputeNullifier B ep cl sig)}"
proof
  let ?C = "Consume B M InMemoryNullifierStore RI t1 t2 ctx sigHex witnessHex cl ep s"
  have r: "r = fst ?C" and s': "s' = snd ?C" using assms(2) by simp_all
  show "accepted r \<longleftrightarrow> cl \<noteq> '''' \<and> ep \<noteq> '''' \<and> ep \<in> set (cf_SupportedEpochs (cs_config s)) \<and>
      not_revoked RI t1 cl ep s \<and> cx_err ctx 0 = None \<and> cx_err ctx 1 = None \<and>
      (\<exists>sig w sk. decoded B sigHex sig \<and> decoded B witnessHex w \<and>
         service_key B M ep cl (cs_config s) = Inr sk \<and> sig = p1_mult B w sk \<and>
         nm_store (cs_store s) (ComputeNullifier B ep cl sig) \<noteq> Some True)"
    unfolding r by (rule Consume_accepted_iff [OF assms(1)])
  show "{k. nm_store (cs_store s') k = Some True} = {k. nm_store (cs_store s) k = Some True} \<union>
      {k. accepted r \<and> (\<exists>sig. decoded B sigHex sig \<and> k = ComputeNullifier B ep cl sig)}"
    unfolding s' r Consume_mem_store by blast
qed

theorem consume_exact_witness:
  "accepted (fst (Consume z3_blst plain_memguard InMemoryNullifierStore InMemoryRevocationStore
     0 0 background (hex_encode (z3_enc 48 Z2)) (hex_encode (z3_enc 48 Z2)) ''gold'' ''2026-01''
     sample_service))"
proof -
  have k: "service_key z3_blst plain_memguard ''2026-01'' ''gold'' (cs_config sample_service) = Inr Z1"
    by (rule z3_service_key) simp_all
  have m: "Z2 = p1_mult z3_blst Z2 Z1" by (simp add: z3_blst_def z3_mul_def z3_of_def)
  show ?thesis
    using consume_exact [OF z3_blst_laws surjective_pairing, of plain_memguard
        InMemoryRevocationStore 0 0 background "hex_encode (z3_enc 48 Z2)"
        "hex_encode (z3_enc 48 Z2)" "''gold''" "''2026-01''" sample_service]
      k m z3_decoded [of Z2] sample_admit [of 0]
    by (auto simp: consume_admit_None_iff background_def NewInMemoryNullifierStore_def)
qed

text \<open>
  Replay protection of the service with the in-memory store. In any run of issue,
  redemption and administrative requests, from any state, the requests that present one
  nullifier are accepted at most once in total.
\<close>

lemma service_accepts_once:
  "redemptions B k ops (fst (service_run B M InMemoryNullifierStore RI ops s)) \<le> 1"
  by (rule mem.service_at_most_once) simp_all

text \<open>
  Replay protection of the service with Redis, whatever the client's failures, among
  requests that fall within one lifetime of a record.
\<close>

lemma service_accepts_once_redis:
  assumes "redis_laws R V" and "0 \<le> rn_expiration (cs_store s)"
    and "\<forall>op \<in> set ops. \<forall>t \<in> op_instants op. \<forall>op' \<in> set ops. \<forall>t' \<in> op_instants op'.
      before t' (redis_deadline t (rn_expiration (cs_store s)))"
  shows "redemptions B k ops (fst (service_run B M (RedisNullifierStore R) RI ops s)) \<le> 1"
  using nullifier_store.service_at_most_once [OF redis_nullifier_store [OF assms(1,2)]
      RedisNullifier_simps refl assms(3)] .

lemma service_accepts_once_redis_witness:
  "let s = NewCredentialService z3_blst (cs_config sample_service)
             (NewRedisNullifierStoreWithClient Map.empty second)
             (Some NewInMemoryRevocationStore) None;
       x = hex_encode (z3_enc 48 Z2);
       op = OpConsume 0 5 background x x ''gold'' ''2026-01'';
       k = ComputeNullifier z3_blst ''2026-01'' ''gold'' Z2
   in redemptions z3_blst k [op, op] (fst (service_run z3_blst plain_memguard
        (RedisNullifierStore mem_redis) InMemoryRevocationStore [op, op] s)) \<le> 1"
  unfolding Let_def
  by (rule service_accepts_once_redis [OF mem_redis_laws])
    (simp_all add: NewRedisNullifierStoreWithClient_def NewCredentialService_def
      redis_deadline_def redis_ttl_def)

lemma Consume_keeps:
  "cs_revocationStore (snd (Consume B M NI RI t1 t2 ctx sigHex witnessHex class epoch s)) =
     cs_revocationStore s"
  "cf_SupportedEpochs (cs_config (snd (Consume B M NI RI t1 t2 ctx sigHex witnessHex class epoch s))) =
     cf_SupportedEpochs (cs_config s)"
  "service_key B M e c (cs_config (snd (Consume B M NI RI t1 t2 ctx sigHex witnessHex class epoch s))) =
     service_key B M e c (cs_config s)"
proof -
  let ?v = "consume_verify B M ctx sigHex witnessHex class epoch s"
  have commit: "cs_revocationStore (snd (consume_commit B NI t2 ctx class epoch sig v)) = cs_revocationStore v"
    "cs_config (snd (consume_commit B NI t2 ctx class epoch sig v)) = cs_config v" for sig v
    by (simp_all add: consume_commit_def Let_def split_beta split: sum.splits)
  have c: "snd (Consume B M NI RI t1 t2 ctx sigHex witnessHex class epoch s) \<in>
      {s, snd ?v} \<union> {snd (consume_commit B NI t2 ctx class epoch sig (snd ?v)) | sig. True}"
    by (cases ?v; cases "fst ?v") (auto simp: Consume_def split: option.splits)
  show "cs_revocationStore (snd (Consume B M NI RI t1 t2 ctx sigHex witnessHex class epoch s)) =
     cs_revocationStore s"
    "cf_SupportedEpochs (cs_config (snd (Consume B M NI RI t1 t2 ctx sigHex witnessHex class epoch s))) =
     cf_SupportedEpochs (cs_config s)"
    "service_key B M e c (cs_config (snd (Consume B M NI RI t1 t2 ctx sigHex witnessHex class epoch s))) =
     service_key B M e c (cs_config s)"
    using c by (auto simp: commit consume_verify_keeps)
qed

text \<open>With the in-memory store an admissible request is accepted or answered as a duplicate.\<close>

lemma Consume_store_status:
  assumes "admissible B M RI t1 ctx sigHex witnessHex class epoch s sig"
    and "ns_CheckAndStore NI t2 (cx_err ctx 1) (ComputeNullifier B epoch class sig) (cs_store s) = (Inr isNew, n)"
  shows "\<exists>x. fst (Consume B M NI RI t1 t2 ctx sigHex witnessHex class epoch s) = Inr x \<and>
    cr_Status x = (if isNew then ConsumeAccepted else ConsumeDuplicate)"
    and "cs_store (snd (Consume B M NI RI t1 t2 ctx sigHex witnessHex class epoch s)) = n"
  unfolding Consume_admissible [OF assms(1)]
  using assms(2) by (simp_all add: consume_commit_def consume_verify_keeps Let_def)

end
