(* ===== verification/NetIP.thy ===== *)
theory NetIP
  imports GoStd
begin

section \<open>net.ParseIP, IsLoopback and IsPrivate\<close>

text \<open>
  The part of the \<open>net\<close> package the rate limiter's proxy rule uses. A parsed address is its
  four bytes (IPv4, also when written as an IPv4-mapped IPv6 address, as \<open>To4\<close> sees it) or
  its eight 16-bit groups. A zone is an error for \<open>ParseIP\<close>.
\<close>

datatype ip = IPv4 nat nat nat nat | IPv6 "nat list"

text \<open>A decimal field of an IPv4 address: up to three digits, no leading zero, at most 255.\<close>

definition v4_field :: "string \<Rightarrow> nat option" where
  "v4_field s = (if s = [] \<or> 3 < length s \<or> (1 < length s \<and> hd s = CHR ''0'') then None
     else (case digits_val 0 s of None \<Rightarrow> None | Some n \<Rightarrow> if n \<le> 255 then Some n else None))"

definition parse_v4 :: "string \<Rightarrow> (nat \<times> nat \<times> nat \<times> nat) option" where
  "parse_v4 s = (case map v4_field (Split (CHR ''.'') s) of
       [Some a, Some b, Some c, Some d] \<Rightarrow> Some (a, b, c, d)
     | _ \<Rightarrow> None)"

fun hex_val :: "nat \<Rightarrow> string \<Rightarrow> nat option" where
  "hex_val acc [] = Some acc"
| "hex_val acc (c # cs) = (case from_hex c of None \<Rightarrow> None | Some d \<Rightarrow> hex_val (acc * 16 + d) cs)"

definition v6_group :: "string \<Rightarrow> nat option" where
  "v6_group s = (if s = [] \<or> 4 < length s then None else hex_val 0 s)"

text \<open>Groups between colons; the last one of an address may be an embedded IPv4 address.\<close>

fun v6_groups :: "bool \<Rightarrow> string list \<Rightarrow> nat list option" where
  "v6_groups is_end [] = Some []"
| "v6_groups is_end [s] =
     (if is_end \<and> CHR ''.'' \<in> set s
      then (case parse_v4 s of None \<Rightarrow> None | Some (a, b, c, d) \<Rightarrow> Some [a * 256 + b, c * 256 + d])
      else (case v6_group s of None \<Rightarrow> None | Some g \<Rightarrow> Some [g]))"
| "v6_groups is_end (s # t # ss) = (case v6_group s of None \<Rightarrow> None
     | Some g \<Rightarrow> (case v6_groups is_end (t # ss) of None \<Rightarrow> None | Some gs \<Rightarrow> Some (g # gs)))"

definition v6_part :: "bool \<Rightarrow> string \<Rightarrow> nat list option" where
  "v6_part is_end s = (if s = [] then Some [] else v6_groups is_end (Split (CHR '':'') s))"

fun cut_ellipsis :: "string \<Rightarrow> (string \<times> string) option" where
  "cut_ellipsis (a # b # s) =
     (if a = CHR '':'' \<and> b = CHR '':'' then Some ([], s)
      else (case cut_ellipsis (b # s) of None \<Rightarrow> None | Some (l, r) \<Rightarrow> Some (a # l, r)))"
| "cut_ellipsis _ = None"

definition parse_v6 :: "string \<Rightarrow> nat list option" where
  "parse_v6 s = (case cut_ellipsis s of
       None \<Rightarrow> (case v6_part True s of
           Some gs \<Rightarrow> if length gs = 8 then Some gs else None
         | None \<Rightarrow> None)
     | Some (l, r) \<Rightarrow> (case (v6_part False l, v6_part True r) of
           (Some a, Some b) \<Rightarrow>
             if length a + length b \<le> 7 then Some (a @ replicate (8 - length a - length b) 0 @ b)
             else None
         | _ \<Rightarrow> None))"

text \<open>The first dot or colon decides which parser runs.\<close>

definition ParseIP :: "string \<Rightarrow> ip option" where
  "ParseIP s = (case filter (\<lambda>c. c = CHR ''.'' \<or> c = CHR '':'') s of
       [] \<Rightarrow> None
     | c # _ \<Rightarrow>
         if c = CHR ''.'' then map_option (\<lambda>(a, b, c, d). IPv4 a b c d) (parse_v4 s)
         else (case parse_v6 s of None \<Rightarrow> None
           | Some gs \<Rightarrow>
               if take 6 gs = [0, 0, 0, 0, 0, 65535]
               then Some (IPv4 (gs ! 6 div 256) (gs ! 6 mod 256) (gs ! 7 div 256) (gs ! 7 mod 256))
               else Some (IPv6 gs)))"

fun IsLoopback :: "ip \<Rightarrow> bool" where
  "IsLoopback (IPv4 a b c d) = (a = 127)"
| "IsLoopback (IPv6 gs) = (gs = [0, 0, 0, 0, 0, 0, 0, 1])"

fun IsPrivate :: "ip \<Rightarrow> bool" where
  "IsPrivate (IPv4 a b c d) = (a = 10 \<or> a = 172 \<and> b div 16 = 1 \<or> a = 192 \<and> b = 168)"
| "IsPrivate (IPv6 gs) = (case gs of g # _ \<Rightarrow> g div 512 = 126 | [] \<Rightarrow> False)"

text \<open>Examples of the forms a peer address takes.\<close>

lemma v4_fields:
  "v4_field ''127'' = Some 127" "v4_field ''0'' = Some 0" "v4_field ''1'' = Some 1" "v4_field ''8'' = Some 8"
  by (simp_all add: v4_field_def digit_val_def)

lemma dotted_v4:
  assumes "parse_v4 (a # s) = Some (w, x, y, z)" and "filter (\<lambda>c. c = CHR ''.'' \<or> c = CHR '':'') (a # s) = CHR ''.'' # cs"
  shows "ParseIP (a # s) = Some (IPv4 w x y z)"
  using assms by (simp only: ParseIP_def) simp

lemma ParseIP_loopback: "ParseIP ''127.0.0.1'' = Some (IPv4 127 0 0 1)"
proof (rule dotted_v4)
  have "Split (CHR ''.'') ''127.0.0.1'' = [''127'', ''0'', ''0'', ''1'']" by simp
  then show "parse_v4 ''127.0.0.1'' = Some (127, 0, 0, 1)"
    by (simp add: parse_v4_def v4_fields del: Split.simps)
qed simp

lemma ParseIP_public: "ParseIP ''8.8.8.8'' = Some (IPv4 8 8 8 8)"
proof (rule dotted_v4)
  have "Split (CHR ''.'') ''8.8.8.8'' = [''8'', ''8'', ''8'', ''8'']" by simp
  then show "parse_v4 ''8.8.8.8'' = Some (8, 8, 8, 8)"
    by (simp add: parse_v4_def v4_fields del: Split.simps)
qed simp

end
