(* ===== verification/RateLimiter.thy ===== *)
theory RateLimiter
  imports NetIP
begin

section \<open>The rate limiter (internal/api: rate_limiter.go)\<close>

text \<open>
  A token bucket per client address, with a cap on the number of tracked clients. The
  buckets are the library's (\<open>golang.org/x/time/rate\<close>): creating one from requests per
  minute and burst, and taking a token, are a parameter. The mutex makes each operation one
  step. A range over the client map visits the keys in an order the language leaves open, so
  the order is an argument; the clock readings of one call are arguments too.
\<close>

record 'l rate_lib =
  rl_new :: "int \<Rightarrow> int \<Rightarrow> 'l"
  rl_allow :: "instant \<Rightarrow> 'l \<Rightarrow> bool \<times> 'l"

record 'l limit_client =
  lc_Client :: string
  lc_Limit :: 'l
  lc_LastUpdated :: instant

record 'l rate_limiter =
  lm_limit :: int
  lm_burst :: int
  lm_clients :: "(string \<rightharpoonup> 'l limit_client) option"
  lm_maxClients :: int

definition NewRateLimiter :: "int \<Rightarrow> int \<Rightarrow> int \<Rightarrow> 'l rate_limiter" where
  "NewRateLimiter requestsPerMinute burst maxClients =
     (if requestsPerMinute = 0 \<and> burst = 0
      then \<lparr> lm_limit = 0, lm_burst = 0, lm_clients = None, lm_maxClients = 0 \<rparr>
      else \<lparr> lm_limit = requestsPerMinute,
             lm_burst = (if burst < 0 then requestsPerMinute else burst),
             lm_clients = Some Map.empty, lm_maxClients = maxClients \<rparr>)"

text \<open>The scan for the client with the oldest use, strictly before the clock reading it starts from.\<close>

fun oldest_scan ::
    "(string \<rightharpoonup> 'l limit_client) \<Rightarrow> string list \<Rightarrow> string \<times> instant \<Rightarrow> string \<times> instant" where
  "oldest_scan cs [] best = best"
| "oldest_scan cs (k # ks) (key, t) =
     (case cs k of
        Some c \<Rightarrow> if lc_LastUpdated c < t then oldest_scan cs ks (k, lc_LastUpdated c)
                 else oldest_scan cs ks (key, t)
      | None \<Rightarrow> oldest_scan cs ks (key, t))"

definition evict_oldest ::
    "string list \<Rightarrow> instant \<Rightarrow> (string \<rightharpoonup> 'l limit_client) \<Rightarrow> string \<rightharpoonup> 'l limit_client" where
  "evict_oldest order now cs =
     (let (oldestKey, _) = oldest_scan cs order ('''', now)
      in if oldestKey \<noteq> '''' then cs(oldestKey := None) else cs)"

definition strip_port :: "string \<Rightarrow> string" where
  "strip_port ip = (case SplitHostPort ip of Some (host, _) \<Rightarrow> host | None \<Rightarrow> ip)"

definition Allow ::
    "'l rate_lib \<Rightarrow> string list \<Rightarrow> instant \<Rightarrow> instant \<Rightarrow> instant \<Rightarrow> string \<Rightarrow> 'l rate_limiter \<Rightarrow>
     bool \<times> 'l rate_limiter" where
  "Allow K order t1 t2 t3 addr s = (case lm_clients s of
       None \<Rightarrow> (True, s)
     | Some clients \<Rightarrow>
        let ip = strip_port addr;
            clients = (if clients ip = None
              then let clients = (if 0 < lm_maxClients s \<and> lm_maxClients s \<le> int (card (dom clients))
                          then evict_oldest order t1 clients else clients)
                   in clients(ip \<mapsto> \<lparr> lc_Client = ip, lc_Limit = rl_new K (lm_limit s) (lm_burst s),
                                   lc_LastUpdated = t2 \<rparr>)
              else clients);
            limiter = (the (clients ip))\<lparr>lc_LastUpdated := t2\<rparr>;
            (allowed, l) = rl_allow K t3 (lc_Limit limiter)
        in (allowed, s\<lparr>lm_clients := Some (clients(ip \<mapsto> limiter\<lparr>lc_Limit := l\<rparr>))\<rparr>))"

definition Cleanup :: "instant \<Rightarrow> 'l rate_limiter \<Rightarrow> 'l rate_limiter" where
  "Cleanup now s = (case lm_clients s of
       None \<Rightarrow> s
     | Some clients \<Rightarrow> s\<lparr>lm_clients := Some (\<lambda>k. case clients k of
           Some c \<Rightarrow> if 600 * second < now - lc_LastUpdated c then None else Some c
         | None \<Rightarrow> None)\<rparr>)"

subsection \<open>Eviction\<close>

lemma oldest_scan_cases:
  "oldest_scan cs order (key, t) = (key', t') \<Longrightarrow>
     (key', t') = (key, t) \<and> (\<forall>k \<in> set order. \<forall>c. cs k = Some c \<longrightarrow> t \<le> lc_LastUpdated c) \<or>
     (\<exists>c. key' \<in> set order \<and> cs key' = Some c \<and> t' = lc_LastUpdated c \<and> t' < t \<and>
        (\<forall>k \<in> set order. \<forall>c. cs k = Some c \<longrightarrow> t' \<le> lc_LastUpdated c))"
proof (induction order arbitrary: key t)
  case (Cons k ks)
  show ?case
  proof (cases "\<exists>c. cs k = Some c \<and> lc_LastUpdated c < t")
    case True
    then obtain c where c: "cs k = Some c" "lc_LastUpdated c < t" by blast
    then have "oldest_scan cs ks (k, lc_LastUpdated c) = (key', t')" using Cons.prems by simp
    from Cons.IH [OF this] show ?thesis
    proof (elim disjE exE conjE)
      assume "(key', t') = (k, lc_LastUpdated c)" "\<forall>k \<in> set ks. \<forall>d. cs k = Some d \<longrightarrow> lc_LastUpdated c \<le> lc_LastUpdated d"
      then show ?thesis using c by simp
    next
      fix d assume "key' \<in> set ks" "cs key' = Some d" "t' = lc_LastUpdated d" "t' < lc_LastUpdated c"
        "\<forall>k \<in> set ks. \<forall>e. cs k = Some e \<longrightarrow> t' \<le> lc_LastUpdated e"
      then show ?thesis using c by simp
    qed
  next
    case False
    then have "oldest_scan cs ks (key, t) = (key', t')" using Cons.prems by (auto split: option.splits)
    from Cons.IH [OF this] show ?thesis using False by (auto simp: not_less)
  qed
qed simp

text \<open>What the scan finds: the key whose last use is the earliest.\<close>

lemma evict_oldest_spec:
  assumes order: "set order = dom cs" and ne: "dom cs \<noteq> {}"
    and past: "\<And>k c. cs k = Some c \<Longrightarrow> lc_LastUpdated c < now"
  obtains key c where "cs key = Some c"
    "\<And>k d. cs k = Some d \<Longrightarrow> lc_LastUpdated c \<le> lc_LastUpdated d"
    "evict_oldest order now cs = (if key \<noteq> '''' then cs(key := None) else cs)"
proof -
  obtain key t where scan: "oldest_scan cs order ('''', now) = (key, t)" by fastforce
  have ev: "evict_oldest order now cs = (if key \<noteq> '''' then cs(key := None) else cs)"
    by (simp add: evict_oldest_def scan)
  obtain k0 c0 where k0: "cs k0 = Some c0" using ne by blast
  then have "k0 \<in> set order" using order by auto
  then obtain c where "cs key = Some c" "t = lc_LastUpdated c"
    "\<forall>k \<in> set order. \<forall>d. cs k = Some d \<longrightarrow> t \<le> lc_LastUpdated d"
    using oldest_scan_cases [OF scan] k0 past [OF k0] by fastforce
  then show thesis using ev order by (intro that [of key c]) auto
qed

subsection \<open>One call\<close>

definition tracked :: "'l rate_limiter \<Rightarrow> string set" where
  "tracked s = (case lm_clients s of None \<Rightarrow> {} | Some cs \<Rightarrow> dom cs)"

text \<open>The clients a call starts from, after the eviction it may need.\<close>

definition admitted_clients ::
    "string list \<Rightarrow> instant \<Rightarrow> string \<Rightarrow> 'l rate_limiter \<Rightarrow> (string \<rightharpoonup> 'l limit_client) \<Rightarrow>
     string \<rightharpoonup> 'l limit_client" where
  "admitted_clients order t ip s cs =
     (if cs ip = None \<and> 0 < lm_maxClients s \<and> lm_maxClients s \<le> int (card (dom cs))
      then evict_oldest order t cs else cs)"

definition bucket_of :: "'l rate_lib \<Rightarrow> string \<Rightarrow> 'l rate_limiter \<Rightarrow> (string \<rightharpoonup> 'l limit_client) \<Rightarrow> 'l" where
  "bucket_of K ip s cs = (case cs ip of None \<Rightarrow> rl_new K (lm_limit s) (lm_burst s) | Some c \<Rightarrow> lc_Limit c)"

lemma Allow_clients:
  assumes "lm_clients s = Some cs" and ip: "ip = strip_port addr"
  shows "fst (Allow K order t1 t2 t3 addr s) = fst (rl_allow K t3 (bucket_of K ip s cs))"
    and "\<exists>c. lc_LastUpdated c = t2 \<and> lc_Limit c = snd (rl_allow K t3 (bucket_of K ip s cs)) \<and>
      lm_clients (snd (Allow K order t1 t2 t3 addr s)) =
        Some ((admitted_clients order t1 ip s cs)(ip \<mapsto> c))"
    and "lm_maxClients (snd (Allow K order t1 t2 t3 addr s)) = lm_maxClients s"
proof -
  let ?l = "snd (rl_allow K t3 (bucket_of K ip s cs))"
  let ?c = "case cs ip of None \<Rightarrow> \<lparr> lc_Client = ip, lc_Limit = ?l, lc_LastUpdated = t2 \<rparr>
    | Some c \<Rightarrow> c\<lparr>lc_LastUpdated := t2, lc_Limit := ?l\<rparr>"
  show "fst (Allow K order t1 t2 t3 addr s) = fst (rl_allow K t3 (bucket_of K ip s cs))"
    "lm_maxClients (snd (Allow K order t1 t2 t3 addr s)) = lm_maxClients s"
    using assms by (auto simp: Allow_def Let_def split_beta bucket_of_def)
  have "lm_clients (snd (Allow K order t1 t2 t3 addr s)) =
      Some ((admitted_clients order t1 ip s cs)(ip \<mapsto> ?c))"
    using assms by (auto simp: Allow_def Let_def split_beta bucket_of_def admitted_clients_def)
  moreover have "lc_LastUpdated ?c = t2" "lc_Limit ?c = ?l" by (simp_all split: option.splits)
  ultimately show "\<exists>c. lc_LastUpdated c = t2 \<and> lc_Limit c = ?l \<and>
      lm_clients (snd (Allow K order t1 t2 t3 addr s)) =
        Some ((admitted_clients order t1 ip s cs)(ip \<mapsto> c))" by blast
qed

lemma evict_oldest_sub: "evict_oldest order t cs k = Some c \<Longrightarrow> cs k = Some c"
  by (auto simp: evict_oldest_def Let_def split: if_splits prod.splits)

lemma dom_evict_oldest: "dom (evict_oldest order t cs) \<subseteq> dom cs"
  by (auto dest: evict_oldest_sub)

subsection \<open>Reachable limiters\<close>

text \<open>
  States the limiter reaches from \<open>NewRateLimiter\<close> when the clock increases from call to
  call and the addresses satisfy \<open>good\<close>; the instant is the last clock reading.
\<close>

inductive rl_reach ::
    "'l rate_lib \<Rightarrow> (string \<Rightarrow> bool) \<Rightarrow> int \<Rightarrow> int \<Rightarrow> int \<Rightarrow> 'l rate_limiter \<Rightarrow> instant \<Rightarrow> bool"
  for K :: "'l rate_lib" and good :: "string \<Rightarrow> bool" and rpm burst cap :: int where
  rl_init: "rl_reach K good rpm burst cap (NewRateLimiter rpm burst cap) 0"
| rl_call: "rl_reach K good rpm burst cap s t \<Longrightarrow> set order = tracked s \<Longrightarrow> t < t1 \<Longrightarrow> t1 \<le> t2 \<Longrightarrow>
    good (strip_port addr) \<Longrightarrow>
    rl_reach K good rpm burst cap (snd (Allow K order t1 t2 t3 addr s)) t2"
| rl_clean: "rl_reach K good rpm burst cap s t \<Longrightarrow> rl_reach K good rpm burst cap (Cleanup now s) t"

definition rl_bounded :: "(string \<Rightarrow> bool) \<Rightarrow> int \<Rightarrow> 'l rate_limiter \<Rightarrow> instant \<Rightarrow> bool" where
  "rl_bounded good cap s t \<longleftrightarrow> finite (tracked s) \<and> (\<forall>k \<in> tracked s. good k) \<and>
     lm_maxClients s \<in> {0, cap} \<and> (lm_clients s \<noteq> None \<longrightarrow> lm_maxClients s = cap) \<and>
     (\<forall>cs k c. lm_clients s = Some cs \<longrightarrow> cs k = Some c \<longrightarrow> lc_LastUpdated c \<le> t)"

lemma admitted_clients_sub: "admitted_clients order t ip s cs k = Some c \<Longrightarrow> cs k = Some c"
  by (auto simp: admitted_clients_def dest: evict_oldest_sub split: if_splits)

lemma rl_bounded_call:
  assumes "rl_bounded good cap s t" "t < t1" "t1 \<le> t2" "good (strip_port addr)"
  shows "rl_bounded good cap (snd (Allow K order t1 t2 t3 addr s)) t2"
proof (cases "lm_clients s")
  case None
  then show ?thesis using assms by (simp add: Allow_def rl_bounded_def)
next
  case (Some cs)
  let ?a = "admitted_clients order t1 (strip_port addr) s cs"
  have sub: "dom ?a \<subseteq> dom cs" by (auto dest: admitted_clients_sub)
  have fin: "finite (dom ?a)"
    using assms(1) Some finite_subset [OF sub] by (simp add: rl_bounded_def tracked_def)
  obtain c where c: "lc_LastUpdated c = t2"
    "lm_clients (snd (Allow K order t1 t2 t3 addr s)) = Some (?a(strip_port addr \<mapsto> c))"
    using Allow_clients(2) [OF Some refl] by blast
  have "lc_LastUpdated d \<le> t2" if "?a k = Some d" for k d
    using assms(1-3) Some admitted_clients_sub [OF that] by (fastforce simp: rl_bounded_def)
  then show ?thesis
    using assms(1,4) Some c fin sub Allow_clients(3) [OF Some refl, of K order t1 t2 t3]
    by (fastforce simp: rl_bounded_def tracked_def split: if_splits)
qed

lemma rl_bounded_reach: "rl_reach K good rpm burst cap s t \<Longrightarrow> rl_bounded good cap s t"
proof (induction rule: rl_reach.induct)
  case rl_init
  then show ?case by (auto simp: rl_bounded_def NewRateLimiter_def tracked_def)
next
  case (rl_call s t order t1 t2 addr t3)
  then show ?case by (blast intro: rl_bounded_call)
next
  case (rl_clean s t now)
  show ?case
  proof (cases "lm_clients s")
    case (Some cs)
    have "tracked (Cleanup now s) \<subseteq> tracked s"
      by (auto simp: Some Cleanup_def tracked_def split: option.splits if_splits)
    then show ?thesis
      using rl_clean.IH Some finite_subset
      by (auto simp: rl_bounded_def Cleanup_def split: option.splits if_splits)
  qed (use rl_clean.IH in \<open>simp add: Cleanup_def\<close>)
qed

lemma card_after_call:
  assumes b: "rl_bounded (\<lambda>k. k \<noteq> '''') cap s t" and "t < t1" and order: "set order = tracked s"
    and "0 < cap" and card: "int (card (tracked s)) \<le> cap"
  shows "int (card (tracked (snd (Allow K order t1 t2 t3 addr s)))) \<le> cap"
proof (cases "lm_clients s")
  case None
  then show ?thesis using card by (simp add: Allow_def)
next
  case (Some cs)
  let ?ip = "strip_port addr"
  have fin: "finite (dom cs)" and cap: "lm_maxClients s = cap"
    using b Some by (auto simp: rl_bounded_def tracked_def)
  let ?a = "admitted_clients order t1 ?ip s cs"
  obtain c where "lm_clients (snd (Allow K order t1 t2 t3 addr s)) = Some (?a(?ip \<mapsto> c))"
    using Allow_clients(2) [OF Some refl] by blast
  then have tr: "tracked (snd (Allow K order t1 t2 t3 addr s)) = insert ?ip (dom ?a)"
    by (simp add: tracked_def)
  show ?thesis
  proof (cases "cs ?ip = None \<and> cap \<le> int (card (dom cs))")
    case True
    have order': "set order = dom cs" using order Some by (simp add: tracked_def)
    have "dom cs \<noteq> {}" using True assms(4) by auto
    moreover have "lc_LastUpdated d < t1" if "cs k = Some d" for k d
      using b Some that assms(2) by (fastforce simp: rl_bounded_def)
    ultimately obtain key d where key: "cs key = Some d"
      "evict_oldest order t1 cs = (if key \<noteq> '''' then cs(key := None) else cs)"
      by (rule evict_oldest_spec [of order cs t1, OF order']) blast
    have "key \<noteq> ''''" using b Some key(1) by (auto simp: rl_bounded_def tracked_def)
    then have "dom ?a = dom cs - {key}"
      using key(2) True cap assms(4) by (simp add: admitted_clients_def)
    moreover have "key \<in> dom cs" using key(1) by blast
    ultimately have "card (dom ?a) = card (dom cs) - 1" "0 < card (dom cs)"
      using fin card_gt_0_iff [of "dom cs"] by (auto simp only: card_Diff_singleton)
    then have "card (insert ?ip (dom ?a)) \<le> card (dom cs)"
      using card_insert_le_m1 [of "card (dom cs)" "dom ?a" ?ip] by simp
    then show ?thesis using card tr Some by (simp add: tracked_def)
  next
    case False
    then have a: "?a = cs" using cap by (auto simp: admitted_clients_def)
    show ?thesis
    proof (cases "cs ?ip = None")
      case True
      then have "card (insert ?ip (dom cs)) = Suc (card (dom cs))"
        using fin by (simp add: domIff)
      then show ?thesis using False True tr a by simp
    next
      case False
      then have "insert ?ip (dom cs) = dom cs" by (auto simp: domIff)
      then show ?thesis using card tr a Some by (simp add: tracked_def)
    qed
  qed
qed

lemma card_Cleanup:
  assumes "finite (tracked s)"
  shows "card (tracked (Cleanup now s)) \<le> card (tracked s)"
proof (rule card_mono [OF assms])
  show "tracked (Cleanup now s) \<subseteq> tracked s"
    by (auto simp: Cleanup_def tracked_def split: option.splits if_splits)
qed

subsection \<open>The empty address\<close>

text \<open>
  The client with the empty address, when it is the least recently used one: the eviction
  finds it, takes its key for \<open>nothing found\<close>, and evicts nobody.
\<close>

definition empty_oldest :: "'l rate_limiter \<Rightarrow> bool" where
  "empty_oldest s \<longleftrightarrow> (\<exists>cs c. lm_clients s = Some cs \<and> cs '''' = Some c \<and>
     (\<forall>k d. cs k = Some d \<longrightarrow> k \<noteq> '''' \<longrightarrow> lc_LastUpdated c < lc_LastUpdated d))"

lemma empty_oldest_call:
  assumes b: "rl_bounded good cap s t" and e: "empty_oldest s" and "t < t1" and "t1 \<le> t2"
    and order: "set order = tracked s" and new: "strip_port addr \<notin> tracked s"
  shows "empty_oldest (snd (Allow K order t1 t2 t3 addr s)) \<and>
    tracked (snd (Allow K order t1 t2 t3 addr s)) = insert (strip_port addr) (tracked s)"
proof -
  obtain cs c where cs: "lm_clients s = Some cs" and c: "cs '''' = Some c"
    and old: "\<And>k d. cs k = Some d \<Longrightarrow> k \<noteq> '''' \<Longrightarrow> lc_LastUpdated c < lc_LastUpdated d"
    using e by (auto simp: empty_oldest_def)
  have order': "set order = dom cs" and ne: "dom cs \<noteq> {}" using order cs c by (auto simp: tracked_def)
  have past: "lc_LastUpdated d \<le> t" if "cs k = Some d" for k d
    using b cs that by (fastforce simp: rl_bounded_def)
  have "evict_oldest order t1 cs = cs"
  proof (rule evict_oldest_spec [of order cs t1, OF order' ne])
    show "lc_LastUpdated d < t1" if "cs k = Some d" for k d
      using past [OF that] assms(3) by simp
    fix key d
    assume "cs key = Some d" and min: "\<And>k d'. cs k = Some d' \<Longrightarrow> lc_LastUpdated d \<le> lc_LastUpdated d'"
      and ev: "evict_oldest order t1 cs = (if key \<noteq> '''' then cs(key := None) else cs)"
    then have "key = ''''" using old [of key d] min [OF c] by fastforce
    with ev show ?thesis by simp
  qed
  then have a: "admitted_clients order t1 (strip_port addr) s cs = cs"
    by (simp add: admitted_clients_def)
  obtain d where d: "lc_LastUpdated d = t2"
    "lm_clients (snd (Allow K order t1 t2 t3 addr s)) = Some (cs(strip_port addr \<mapsto> d))"
    using Allow_clients(2) [OF cs refl, where addr = addr and K = K and order = order and ?t1.0 = t1
        and ?t2.0 = t2 and ?t3.0 = t3] a by auto
  have "strip_port addr \<noteq> ''''" using new cs c by (auto simp: tracked_def)
  moreover have "lc_LastUpdated c < t2" using past [OF c] assms(3,4) by simp
  ultimately show ?thesis
    using d old c cs by (auto simp: empty_oldest_def tracked_def)
qed

lemma fresh_address: "finite A \<Longrightarrow> \<exists>addr. strip_port addr \<notin> A \<and> strip_port addr \<noteq> ''''"
proof -
  assume "finite A"
  have inj: "inj (\<lambda>n. replicate (Suc n) CHR ''a'')"
    by (rule injI) (metis Suc_inject length_replicate)
  then have "infinite (range (\<lambda>n. replicate (Suc n) CHR ''a''))"
    using finite_imageD by blast
  then obtain n where "replicate (Suc n) CHR ''a'' \<notin> A"
    using \<open>finite A\<close> by (metis (mono_tags, lifting) finite_subset imageE subsetI)
  moreover have "strip_port (replicate (Suc n) CHR ''a'') = replicate (Suc n) CHR ''a''"
    by (simp add: strip_port_def SplitHostPort_no_colon)
  ultimately show ?thesis by (intro exI [of _ "replicate (Suc n) CHR ''a''"]) simp
qed

text \<open>A bucket that only counts down, for the witnesses.\<close>

definition counting_buckets :: "int rate_lib" where
  "counting_buckets = \<lparr> rl_new = (\<lambda>r b. b), rl_allow = (\<lambda>t n. (0 < n, max 0 (n - 1))) \<rparr>"

subsection \<open>Properties\<close>

text \<open>
  One call of the rate limiter. The decision is the one of the caller's own token
  bucket, a new full bucket for a client that is not tracked; the caller's bucket is
  updated; every other client keeps its entry, except at most one that the cap evicts, and
  nobody is evicted for a client that is tracked already.
\<close>

lemma allow_own_bucket:
  assumes "lm_clients s = Some cs" and "ip = strip_port addr"
    and "Allow K order t1 t2 t3 addr s = (allowed, s')"
  shows "\<exists>cs' c. lm_clients s' = Some cs' \<and> cs' ip = Some c \<and>
    (allowed, lc_Limit c) = rl_allow K t3
      (case cs ip of None \<Rightarrow> rl_new K (lm_limit s) (lm_burst s) | Some old \<Rightarrow> lc_Limit old) \<and>
    card {k. k \<noteq> ip \<and> cs' k \<noteq> cs k} \<le> (if cs ip = None then 1 else 0) \<and>
    {k. k \<noteq> ip \<and> cs' k \<noteq> cs k} \<inter> dom cs' = {}"
proof -
  let ?a = "admitted_clients order t1 ip s cs"
  obtain c where c: "lc_Limit c = snd (rl_allow K t3 (bucket_of K ip s cs))"
    "lm_clients s' = Some (?a(ip \<mapsto> c))"
    using Allow_clients(2) [OF assms(1,2), where K = K and order = order and ?t1.0 = t1
        and ?t2.0 = t2 and ?t3.0 = t3] assms(3) by auto
  have al: "allowed = fst (rl_allow K t3 (bucket_of K ip s cs))"
    using Allow_clients(1) [OF assms(1,2), of K order t1 t2 t3] assms(3) by simp
  have ev: "\<exists>key. {k. evict_oldest order t1 cs k \<noteq> cs k} \<subseteq> {key} \<and>
      (\<forall>k. evict_oldest order t1 cs k \<noteq> cs k \<longrightarrow> evict_oldest order t1 cs k = None)"
    by (cases "oldest_scan cs order ('''', t1)") (auto simp: evict_oldest_def)
  have "card {k. k \<noteq> ip \<and> (?a(ip \<mapsto> c)) k \<noteq> cs k} \<le> (if cs ip = None then 1 else 0) \<and>
      {k. k \<noteq> ip \<and> (?a(ip \<mapsto> c)) k \<noteq> cs k} \<inter> dom (?a(ip \<mapsto> c)) = {}"
  proof (cases "?a = cs")
    case True
    then have e: "{k. k \<noteq> ip \<and> (?a(ip \<mapsto> c)) k \<noteq> cs k} = {}" by auto
    show ?thesis unfolding e by simp
  next
    case False
    then have n: "cs ip = None" and a: "?a = evict_oldest order t1 cs"
      by (auto simp: admitted_clients_def split: if_splits)
    from ev obtain key where key: "{k. ?a k \<noteq> cs k} \<subseteq> {key}" "\<forall>k. ?a k \<noteq> cs k \<longrightarrow> ?a k = None"
      unfolding a by blast
    have "{k. k \<noteq> ip \<and> (?a(ip \<mapsto> c)) k \<noteq> cs k} \<subseteq> {key}" using key(1) by auto
    then have "card {k. k \<noteq> ip \<and> (?a(ip \<mapsto> c)) k \<noteq> cs k} \<le> card {key}"
      by (intro card_mono) simp_all
    moreover have "{k. k \<noteq> ip \<and> (?a(ip \<mapsto> c)) k \<noteq> cs k} \<inter> dom (?a(ip \<mapsto> c)) = {}"
      using key(2) by auto
    ultimately show ?thesis using n by simp
  qed
  then show ?thesis
    using c al by (intro exI [of _ "?a(ip \<mapsto> c)"] exI [of _ c]) (simp add: bucket_of_def)
qed

lemma allow_own_bucket_witness:
  "\<exists>cs' c. lm_clients (snd (Allow counting_buckets [] 1 1 1 ''a'' (NewRateLimiter 60 5 100))) = Some cs' \<and>
     cs' ''a'' = Some c \<and> lc_Limit c = 4"
proof -
  let ?s = "NewRateLimiter 60 5 100 :: int rate_limiter"
  have c: "lm_clients ?s = Some Map.empty" and b: "lm_burst ?s = 5" by (simp_all add: NewRateLimiter_def)
  have ip: "''a'' = strip_port ''a''" by (simp add: strip_port_def SplitHostPort_no_colon)
  obtain cs' cl where "lm_clients (snd (Allow counting_buckets [] 1 1 1 ''a'' ?s)) = Some cs'"
    "cs' ''a'' = Some cl" and r: "(fst (Allow counting_buckets [] 1 1 1 ''a'' ?s), lc_Limit cl) =
      rl_allow counting_buckets 1 (rl_new counting_buckets (lm_limit ?s) (lm_burst ?s))"
    using allow_own_bucket [OF c ip surjective_pairing, of counting_buckets "[]" 1 1 1] by auto
  moreover from r have "lc_Limit cl = 4" by (simp add: counting_buckets_def b)
  ultimately show ?thesis by blast
qed

text \<open>
  C15: the cap on tracked clients. From start, as long as no client has the empty address and
  each call that reads the clock reads a later time than the calls before it, the limiter never
  tracks more clients than the configured maximum, whatever the order of calls and cleanups.
\<close>

theorem tracked_clients_bounded:
  assumes "rl_reach K (\<lambda>k. k \<noteq> '''') rpm burst cap s t" and "0 < cap"
  shows "int (card (tracked s)) \<le> cap"
  using assms
proof (induction rule: rl_reach.induct)
  case rl_init
  then show ?case by (auto simp: NewRateLimiter_def tracked_def)
next
  case (rl_call s t order t1 t2 addr t3)
  then show ?case by (intro card_after_call rl_bounded_reach) auto
next
  case (rl_clean s t now)
  have "finite (tracked s)"
    using rl_bounded_reach [OF rl_clean.hyps] by (simp add: rl_bounded_def)
  then show ?case using rl_clean card_Cleanup [of s now] by simp
qed

theorem tracked_clients_bounded_witness:
  "int (card (tracked (snd (Allow counting_buckets [] 1 1 1 ''a'' (NewRateLimiter 60 5 100))))) \<le> 100"
proof (rule tracked_clients_bounded)
  show "rl_reach counting_buckets (\<lambda>k. k \<noteq> '''') 60 5 100
      (snd (Allow counting_buckets [] 1 1 1 ''a'' (NewRateLimiter 60 5 100))) 1"
    by (rule rl_call [OF rl_init])
      (simp_all add: tracked_def NewRateLimiter_def strip_port_def SplitHostPort_no_colon)
qed simp

text \<open>
  Calls that read the same time can exceed the cap: eviction looks for a client that was used
  before the reading, and finds none.
\<close>

lemma cap_exceeded_same_reading:
  assumes "rpm \<noteq> 0"
  shows "let s = snd (Allow K [] t t t ''a'' (NewRateLimiter rpm burst 1)); s' = snd (Allow K [''a''] t t t ''b'' s)
    in tracked s = {''a''} \<and> tracked s' = {''a'', ''b''} \<and> lm_maxClients s' = 1"
proof -
  have "strip_port ''a'' = ''a''" "strip_port ''b'' = ''b''" by (simp_all add: strip_port_def SplitHostPort_no_colon)
  then show ?thesis
    using assms by (auto simp: Allow_def NewRateLimiter_def tracked_def evict_oldest_def Let_def split_beta)
qed

text \<open>
  The cap can be defeated. With the empty address among the clients (a private proxy
  passing an empty first element in X-Forwarded-For makes it one) the limiter reaches states
  that track any number of clients, whatever the cap.
\<close>

lemma cap_defeated:
  assumes "rpm \<noteq> 0"
  shows "\<exists>s t. rl_reach K (\<lambda>_. True) rpm burst cap s t \<and> card (tracked s) = Suc n"
proof -
  have "\<exists>s t. rl_reach K (\<lambda>_. True) rpm burst cap s t \<and> card (tracked s) = Suc n \<and> empty_oldest s"
  proof (induction n)
    case 0
    let ?s = "NewRateLimiter rpm burst cap :: 'a rate_limiter"
    let ?s' = "snd (Allow K [] 1 1 1 '''' ?s)"
    have "strip_port '''' = ''''" by (simp add: strip_port_def SplitHostPort_no_colon)
    moreover have "lm_clients ?s = Some Map.empty" using assms by (simp add: NewRateLimiter_def)
    moreover have "evict_oldest [] 1 (Map.empty :: string \<rightharpoonup> 'a limit_client) = Map.empty"
      by (simp add: evict_oldest_def)
    ultimately have "card (tracked ?s') = 1" "empty_oldest ?s'"
      by (simp_all add: Allow_def Let_def split_beta tracked_def empty_oldest_def)
    moreover have "rl_reach K (\<lambda>_. True) rpm burst cap ?s' 1"
      using assms by (intro rl_call [OF rl_init]) (simp_all add: tracked_def NewRateLimiter_def)
    ultimately show ?case by auto
  next
    case (Suc n)
    then obtain s t where s: "rl_reach K (\<lambda>_. True) rpm burst cap s t" "card (tracked s) = Suc n"
      "empty_oldest s" by blast
    note b = rl_bounded_reach [OF s(1)]
    then have fin: "finite (tracked s)" by (simp add: rl_bounded_def)
    then obtain order addr where order: "set order = tracked s" and addr: "strip_port addr \<notin> tracked s"
      using finite_list fresh_address by metis
    let ?s' = "snd (Allow K order (t + 1) (t + 1) (t + 1) addr s)"
    have "rl_reach K (\<lambda>_. True) rpm burst cap ?s' (t + 1)"
      by (rule rl_call [OF s(1) order]) simp_all
    moreover have "empty_oldest ?s'" "tracked ?s' = insert (strip_port addr) (tracked s)"
      using empty_oldest_call [OF b s(3) _ _ order addr, of "t + 1" "t + 1"] by simp_all
    ultimately show ?case using s(2) fin addr by auto
  qed
  then show ?thesis by blast
qed

lemma cap_defeated_witness:
  "\<exists>s t. rl_reach counting_buckets (\<lambda>_. True) 60 20 100 s t \<and> card (tracked s) = Suc 1000"
  by (rule cap_defeated) simp

end
