(* ===== verification/Handlers.thy ===== *)
theory Handlers
  imports Http Validation Service RateLimiter
begin

section \<open>Responses and request handlers (internal/api: response.go, types.go, handlers.go, demo_store.go)\<close>

text \<open>
  The handlers of the HTTP interface over the credential service. What is not under \<open>src/\<close>
  is collected in a record of parameters; the server is a record of the service, the token
  validator, the rate limiter and the demo store. The metrics reporter and the revocation
  store of the server are the ones of its service (\<open>NewServer\<close> passes the same values to
  both), so they are kept once, in the service.
\<close>

record ('p1, 'p2, 's, 'ml, 'e, 'n, 'r, 'l) deps =
  dp_blst :: "('p1, 'p2, 's, 'ml) blst"
  dp_memguard :: "'e memguard"
  dp_nullifiers :: "'n nullifier_iface"
  dp_revocations :: "'r revocation_iface"
  dp_validator :: validator
  dp_jwt :: jwt_parser
  dp_rate :: "'l rate_lib"
  dp_decode_error :: "bytes \<Rightarrow> bool \<Rightarrow> goerr"
  dp_time :: "instant \<Rightarrow> string option"
  dp_metrics_page :: "collector option \<Rightarrow> writer \<Rightarrow> writer"

record demo_store =
  dm_data :: "string \<rightharpoonup> string"

definition NewDemoStore :: demo_store where
  "NewDemoStore = \<lparr> dm_data = Map.empty \<rparr>"

record http_server =
  hs_Addr :: string
  hs_ReadTimeout :: duration
  hs_WriteTimeout :: duration
  hs_IdleTimeout :: duration

record ('p1, 'e, 'n, 'r, 'l) server =
  srv_credentialService :: "('p1, 'e, 'n, 'r) service"
  srv_jwtValidator :: jwt_validator
  srv_rateLimiter :: "'l rate_limiter"
  srv_demoStore :: "demo_store option"
  srv_httpServer :: "http_server option"

text \<open>The calls on the metrics and the revocation store the server shares with the service.\<close>

definition with_metrics ::
    "(collector \<Rightarrow> collector) \<Rightarrow> ('p1, 'e, 'n, 'r, 'l) server \<Rightarrow> ('p1, 'e, 'n, 'r, 'l) server" where
  "with_metrics f s = s\<lparr>srv_credentialService := (srv_credentialService s)
     \<lparr>cs_metrics := map_option f (cs_metrics (srv_credentialService s))\<rparr>\<rparr>"

definition srv_revocationStore :: "('p1, 'e, 'n, 'r, 'l) server \<Rightarrow> 'r option" where
  "srv_revocationStore s = cs_revocationStore (srv_credentialService s)"

definition set_revocationStore ::
    "'r \<Rightarrow> ('p1, 'e, 'n, 'r, 'l) server \<Rightarrow> ('p1, 'e, 'n, 'r, 'l) server" where
  "set_revocationStore r s = s\<lparr>srv_credentialService := (srv_credentialService s)
     \<lparr>cs_revocationStore := Some r\<rparr>\<rparr>"

definition set_service ::
    "('p1, 'e, 'n, 'r) service \<Rightarrow> ('p1, 'e, 'n, 'r, 'l) server \<Rightarrow> ('p1, 'e, 'n, 'r, 'l) server" where
  "set_service svc s = s\<lparr>srv_credentialService := svc\<rparr>"

subsection \<open>Responses\<close>

text \<open>The argument is the JSON form of the data; \<open>None\<close> is data that cannot be encoded.\<close>

definition respondJSON :: "writer \<Rightarrow> nat \<Rightarrow> json option \<Rightarrow> writer" where
  "respondJSON w status data = (case data of
       None \<Rightarrow> http_Error ''internal server error'' 500 w
     | Some v \<Rightarrow>
        let w = Header_Set ''Content-Type'' ''application/json'' w;
            w = WriteHeader status w
        in snd (Write (Marshal v) w))"

record error_response =
  eo_Error :: string
  eo_Code :: nat
  eo_Details :: string

definition error_response_json :: "error_response \<Rightarrow> json" where
  "error_response_json e = json_object (
     [(''error'', json_string (eo_Error e)), (''code'', JNum (nat_str (eo_Code e)))] @
     (if eo_Details e = '''' then [] else [(''details'', json_string (eo_Details e))]))"

definition respondError :: "writer \<Rightarrow> nat \<Rightarrow> string \<Rightarrow> string list \<Rightarrow> writer" where
  "respondError w status msg details =
     (let w = Header_Set ''Content-Type'' ''application/json'' w;
          w = WriteHeader status w;
          resp = \<lparr> eo_Error = msg, eo_Code = status, eo_Details = '''' \<rparr>;
          resp = (case details of
              d # _ \<Rightarrow> if d \<noteq> '''' then resp\<lparr>eo_Details := d\<rparr> else resp
            | [] \<Rightarrow> resp);
          (ok, w) = Write (Marshal (error_response_json resp) @ [CHR 0x0A]) w
      in if \<not> ok then http_Error ''internal server error'' 500 w else w)"

definition respondErr :: "writer \<Rightarrow> goerr option \<Rightarrow> writer" where
  "respondErr w err =
     (let status = HTTPStatus (CodeOf err)
      in if 500 \<le> status then respondError w status (StatusText status) []
         else respondError w status (case err of Some e \<Rightarrow> error_text e | None \<Rightarrow> '''') [])"

text \<open>Every response sets the status, unless one was sent before.\<close>

lemma respondJSON_status:
  "wrapped w \<Longrightarrow> sent_status (respondJSON w code data) =
     Some (case sent_status w of None \<Rightarrow> if data = None then 500 else code | Some st \<Rightarrow> st)"
  "wrapped w \<Longrightarrow> wrapped (respondJSON w code data)"
  by (cases data; simp add: respondJSON_def Let_def sent_status_ops wrapped_ops http_Error_status
      split: option.splits)+

lemma respondError_status:
  "wrapped w \<Longrightarrow> sent_status (respondError w code msg details) =
     Some (case sent_status w of None \<Rightarrow> code | Some st \<Rightarrow> st)"
  "wrapped w \<Longrightarrow> wrapped (respondError w code msg details)"
proof -
  assume w: "wrapped w"
  let ?w = "WriteHeader code (Header_Set ''Content-Type'' ''application/json'' w)"
  have "respondError w code msg details \<in> {w'. \<exists>bs. w' = snd (Write bs ?w) \<or>
      w' = http_Error ''internal server error'' 500 (snd (Write bs ?w))}"
    by (auto simp: respondError_def Let_def split_beta)
  then show "sent_status (respondError w code msg details) =
      Some (case sent_status w of None \<Rightarrow> code | Some st \<Rightarrow> st)" "wrapped (respondError w code msg details)"
    using w by (auto simp: sent_status_ops wrapped_ops http_Error_status split: option.splits)
qed

lemma respondErr_status:
  "wrapped w \<Longrightarrow> sent_status (respondErr w err) =
     Some (case sent_status w of None \<Rightarrow> HTTPStatus (CodeOf err) | Some st \<Rightarrow> st)"
  "wrapped w \<Longrightarrow> wrapped (respondErr w err)"
  by (simp_all add: respondErr_def Let_def respondError_status)

lemmas respond_status = respondJSON_status respondErr_status

subsection \<open>The JSON forms\<close>

definition Decode :: "(bytes \<Rightarrow> bool \<Rightarrow> goerr) \<Rightarrow> ((string \<times> json) list \<Rightarrow> 'a option) \<Rightarrow> request \<Rightarrow> 'a result" where
  "Decode err decode_fields r =
     (let (body, cut) = readable r
      in (case json_first body of
            None \<Rightarrow> Inl (err body cut)
          | Some (v, _) \<Rightarrow> (case Option.bind (json_members v) decode_fields of
              None \<Rightarrow> Inl (err body cut)
            | Some req \<Rightarrow> Inr req)))"

definition decode_issue :: "(string \<times> json) list \<Rightarrow> issue_request option" where
  "decode_issue ms = (let ms = struct_members [''blinded_message'', ''credential_class''] ms
     in (case (get_field dec_string ''blinded_message'' ms '''',
               get_field dec_string ''credential_class'' ms '''') of
           (Some b, Some c) \<Rightarrow> Some \<lparr> iq_BlindedMessage = b, iq_CredentialClass = c \<rparr>
         | _ \<Rightarrow> None))"

definition decode_consume :: "(string \<times> json) list \<Rightarrow> consume_request option" where
  "decode_consume ms =
     (let ms = struct_members [''unblinded_signature'', ''witness'', ''credential_class'', ''key_epoch''] ms
      in (case (get_field dec_string ''unblinded_signature'' ms '''', get_field dec_string ''witness'' ms '''',
                get_field dec_string ''credential_class'' ms '''', get_field dec_string ''key_epoch'' ms '''') of
            (Some u, Some w, Some c, Some e) \<Rightarrow> Some \<lparr> cq_UnblindedSignature = u, cq_Witness = w,
               cq_CredentialClass = c, cq_KeyEpoch = e \<rparr>
          | _ \<Rightarrow> None))"

definition decode_revoke :: "(string \<times> json) list \<Rightarrow> admin_revoke_request option" where
  "decode_revoke ms =
     (let ms = struct_members [''credential_class'', ''key_epoch'', ''reason'', ''revoked_until''] ms
      in (case (get_field dec_string ''credential_class'' ms '''', get_field dec_string ''key_epoch'' ms '''',
                get_field dec_string ''reason'' ms '''', get_field dec_time ''revoked_until'' ms None) of
            (Some c, Some e, Some why, Some u) \<Rightarrow> Some \<lparr> aq_CredentialClass = c, aq_KeyEpoch = e,
               aq_Reason = why, aq_RevokedUntil = u \<rparr>
          | _ \<Rightarrow> None))"

definition decode_unrevoke :: "(string \<times> json) list \<Rightarrow> admin_unrevoke_request option" where
  "decode_unrevoke ms = (let ms = struct_members [''credential_class'', ''key_epoch''] ms
     in (case (get_field dec_string ''credential_class'' ms '''', get_field dec_string ''key_epoch'' ms '''') of
           (Some c, Some e) \<Rightarrow> Some \<lparr> uq_CredentialClass = c, uq_KeyEpoch = e \<rparr>
         | _ \<Rightarrow> None))"

definition decode_ciphertext :: "(string \<times> json) list \<Rightarrow> string option" where
  "decode_ciphertext ms = get_field dec_string ''ciphertext'' (struct_members [''ciphertext''] ms) ''''"

definition issue_response_json :: "issue_result \<Rightarrow> json" where
  "issue_response_json res = json_object
     [(''blind_signature'', json_string (ir_BlindSignature res)),
      (''public_key'', json_string (ir_PublicKey res)),
      (''key_epoch'', json_string (ir_KeyEpoch res)),
      (''proof'', json_object
         [(''r1'', json_string (ds_R1 (ir_Proof res))), (''r2'', json_string (ds_R2 (ir_Proof res))),
          (''s'', json_string (ds_S (ir_Proof res))), (''c'', json_string (ds_C (ir_Proof res)))])]"

definition consume_response_json :: "bool \<Rightarrow> string \<Rightarrow> json" where
  "consume_response_json valid err = json_object ((''valid'', JBool valid) #
     (if err = '''' then [] else [(''error'', json_string err)]))"

text \<open>An entry; a time is printed in the zone of the server, which the parameter knows.\<close>

definition entry_form :: "(instant \<Rightarrow> string option) \<Rightarrow> revocation_entry \<Rightarrow> json option" where
  "entry_form F e = (case (F (re_RevokedAt e), map_option F (re_RevokedUntil e)) of
       (None, _) \<Rightarrow> None
     | (_, Some None) \<Rightarrow> None
     | (Some at, until) \<Rightarrow> Some (json_object (
          [(''credential_class'', json_string (re_CredentialClass e))] @
          (if re_KeyEpoch e = '''' then [] else [(''key_epoch'', json_string (re_KeyEpoch e))]) @
          [(''reason'', json_string (re_Reason e)), (''revoked_at'', JStr at)] @
          (case until of Some (Some u) \<Rightarrow> [(''revoked_until'', JStr u)] | _ \<Rightarrow> []) @
          (if re_RevokedBy e = '''' then [] else [(''revoked_by'', json_string (re_RevokedBy e))]))))"

fun all_some :: "'a option list \<Rightarrow> 'a list option" where
  "all_some [] = Some []"
| "all_some (x # xs) = (case x of None \<Rightarrow> None | Some y \<Rightarrow> map_option ((#) y) (all_some xs))"

definition revocations_json :: "(instant \<Rightarrow> string option) \<Rightarrow> revocation_entry list option \<Rightarrow> json option" where
  "revocations_json F entries = map_option (\<lambda>es. json_object [(''revocations'', es)])
     (case entries of None \<Rightarrow> Some JNull
      | Some es \<Rightarrow> map_option JArr (all_some (map (entry_form F) es)))"

definition status_json :: "string \<Rightarrow> json" where
  "status_json st = json_object [(''status'', json_string st)]"

subsection \<open>Handlers\<close>

text \<open>
  The readings of the clock along a request: 0 when the logger starts, 1 to 3 in the rate
  limiter, 4 in the token parser, 5 in the validator, 6 and 7 in the stores, 8 and 9 when
  the logger ends. \<open>bad_request\<close> is the wrapping most handlers give a client's error.
\<close>

definition bad_request :: "goerr \<Rightarrow> string \<Rightarrow> goerr option" where
  "bad_request err msg = Some (apperr_Wrap CodeInvalidArgument (Some err) msg)"

definition handleIssue ::
    "('p1, 'p2, 's, 'ml, 'e, 'n, 'r, 'l) deps \<Rightarrow> ('p1, 'e, 'n, 'r, 'l) server handler" where
  "handleIssue D io r w s =
     (case Decode (dp_decode_error D) decode_issue r of
        Inl err \<Rightarrow> (Returned, respondErr w (bad_request err ''invalid request''),
                  with_metrics (RecordIssuance ''failure'' ''unknown'') s)
      | Inr req \<Rightarrow> (case ValidateIssueRequest (dp_validator D) (io_now io 5) req of
        Some err \<Rightarrow> (Returned, respondErr w (bad_request err ''invalid request''),
                   with_metrics (RecordIssuance ''failure'' (iq_CredentialClass req)) s)
      | None \<Rightarrow>
        let (result, svc) = Issue (dp_blst D) (dp_memguard D) (io_rand io) (rq_ctx r)
              (iq_BlindedMessage req) (iq_CredentialClass req) (srv_credentialService s);
            s = set_service svc s
        in (case result of
        Inl err \<Rightarrow> (Returned, respondErr w (Some err),
                  with_metrics (RecordIssuance ''failure'' (iq_CredentialClass req)) s)
      | Inr res \<Rightarrow> (Returned, respondJSON w 200 (Some (issue_response_json res)),
                  with_metrics (RecordIssuance ''success'' (iq_CredentialClass req)) s))))"

text \<open>\<open>errors.As\<close> finds the first coded error of the chain and answers with that.\<close>

definition consume_error :: "goerr \<Rightarrow> goerr" where
  "consume_error err = (case as_apperr err of
       Some (code, msg, cause) \<Rightarrow> AppError code msg cause
     | None \<Rightarrow> apperr_Wrap CodeInternal (Some err) ''consume failed'')"

definition handleConsume ::
    "('p1, 'p2, 's, 'ml, 'e, 'n, 'r, 'l) deps \<Rightarrow> ('p1, 'e, 'n, 'r, 'l) server handler" where
  "handleConsume D io r w s =
     (case Decode (dp_decode_error D) decode_consume r of
        Inl err \<Rightarrow> (Returned, respondErr w (bad_request err ''invalid request''),
                  with_metrics (RecordConsumption ''failure'' ''unknown'' ''unknown'') s)
      | Inr req \<Rightarrow>
        let cls = cq_CredentialClass req; epoch = cq_KeyEpoch req
        in (case ValidateConsumeRequest (dp_validator D) (io_now io 5) req of
        Some err \<Rightarrow> (Returned, respondErr w (Some (apperr_New CodeInvalidArgument ''invalid request'')),
                   with_metrics (RecordConsumption ''failure'' cls epoch) s)
      | None \<Rightarrow>
        let (result, svc) = Consume (dp_blst D) (dp_memguard D) (dp_nullifiers D) (dp_revocations D)
              (io_now io 6) (io_now io 7) (rq_ctx r) (cq_UnblindedSignature req) (cq_Witness req) cls epoch
              (srv_credentialService s);
            s = set_service svc s
        in (case result of
        Inl err \<Rightarrow> (Returned, respondErr w (Some (consume_error err)),
                  with_metrics (RecordConsumption ''failure'' cls epoch) s)
      | Inr res \<Rightarrow> (case cr_Status res of
          ConsumeRevoked \<Rightarrow>
            (Returned, respondJSON w 409 (Some (consume_response_json False ''credential revoked'')),
             with_metrics (RecordConsumption ''revoked'' cls epoch) s)
        | ConsumeDuplicate \<Rightarrow>
            (Returned, respondJSON w 409 (Some (consume_response_json False (cr_Error res))),
             with_metrics (RecordConsumption ''duplicate'' cls epoch) s)
        | ConsumeAccepted \<Rightarrow>
            (Returned, respondJSON w 200 (Some (consume_response_json True '''')),
             with_metrics (RecordConsumption ''success'' cls epoch) s)
        | ConsumeOther other \<Rightarrow>
            (Returned, respondErr w (Some (apperr_New CodeInternal ''unknown consume status'')),
             with_metrics (RecordConsumption ''failure'' cls epoch) s)))))"

text \<open>A call on a revocation store that is nil panics.\<close>

definition handleAdminRevoke ::
    "('p1, 'p2, 's, 'ml, 'e, 'n, 'r, 'l) deps \<Rightarrow> ('p1, 'e, 'n, 'r, 'l) server handler" where
  "handleAdminRevoke D io r w s =
     (case ClaimsFromContext (rq_ctx r) of
        None \<Rightarrow> (Returned, respondErr w (Some (apperr_New CodeInternal ''claims missing from context'')), s)
      | Some cl \<Rightarrow> (case Decode (dp_decode_error D) decode_revoke r of
        Inl err \<Rightarrow> (Returned, respondErr w (bad_request err ''invalid request''), s)
      | Inr req \<Rightarrow> (case ValidateAdminRevokeRequest (dp_validator D) (io_now io 5) req of
        Some err \<Rightarrow> (Returned, respondErr w (bad_request err ''invalid request''), s)
      | None \<Rightarrow> (case srv_revocationStore s of
        None \<Rightarrow> (Panicked, w, s)
      | Some store \<Rightarrow>
        let (err, store) = rs_RevokeClass (dp_revocations D) (io_now io 6) (aq_CredentialClass req)
              (aq_KeyEpoch req) (aq_Reason req) (cl_Subject cl) (aq_RevokedUntil req) store;
            s = set_revocationStore store s
        in (case err of
        Some err \<Rightarrow> (Returned, respondErr w (bad_request err ''revocation failed''),
                   with_metrics (RecordRevocation ''failure'' (aq_CredentialClass req)) s)
      | None \<Rightarrow> (Returned, respondJSON w 200 (Some (status_json ''revoked'')),
               with_metrics (RecordRevocation ''success'' (aq_CredentialClass req)) s))))))"

definition handleAdminUnrevoke ::
    "('p1, 'p2, 's, 'ml, 'e, 'n, 'r, 'l) deps \<Rightarrow> ('p1, 'e, 'n, 'r, 'l) server handler" where
  "handleAdminUnrevoke D io r w s =
     (case ClaimsFromContext (rq_ctx r) of
        None \<Rightarrow> (Returned, respondErr w (Some (apperr_New CodeInternal ''claims missing from context'')), s)
      | Some cl \<Rightarrow> (case Decode (dp_decode_error D) decode_unrevoke r of
        Inl err \<Rightarrow> (Returned, respondErr w (bad_request err ''invalid request''), s)
      | Inr req \<Rightarrow> (case ValidateAdminUnrevokeRequest (dp_validator D) (io_now io 5) req of
        Some err \<Rightarrow> (Returned, respondErr w (bad_request err ''invalid request''), s)
      | None \<Rightarrow> (case srv_revocationStore s of
        None \<Rightarrow> (Panicked, w, s)
      | Some store \<Rightarrow>
        let (err, store) = rs_UnrevokeClass (dp_revocations D) (io_now io 6) (uq_CredentialClass req)
              (uq_KeyEpoch req) store;
            s = set_revocationStore store s
        in (case err of
        Some err \<Rightarrow> (Returned, respondErr w (bad_request err ''unrevoke failed''),
                   with_metrics (RecordUnrevocation ''failure'' (uq_CredentialClass req)) s)
      | None \<Rightarrow> (Returned, respondJSON w 200 (Some (status_json ''unrevoked'')),
               with_metrics (RecordUnrevocation ''success'' (uq_CredentialClass req)) s))))))"

text \<open>A listing that never ends, as the scan of the Redis store may, never answers.\<close>

definition handleAdminListRevocations ::
    "('p1, 'p2, 's, 'ml, 'e, 'n, 'r, 'l) deps \<Rightarrow> ('p1, 'e, 'n, 'r, 'l) server handler" where
  "handleAdminListRevocations D io r w s =
     (case srv_revocationStore s of
        None \<Rightarrow> (Panicked, w, s)
      | Some store \<Rightarrow> (case rs_ListRevocations (dp_revocations D) (io_order io) (io_now io 6) store of
        None \<Rightarrow> (Hung, w, s)
      | Some (Inl err) \<Rightarrow> (Returned, respondErr w (bad_request err ''list failed''), s)
      | Some (Inr entries) \<Rightarrow> (Returned, respondJSON w 200 (revocations_json (dp_time D) entries), s)))"

definition handleHealth ::
    "('p1, 'p2, 's, 'ml, 'e, 'n, 'r, 'l) deps \<Rightarrow> ('p1, 'e, 'n, 'r, 'l) server handler" where
  "handleHealth D io r w s =
     (case Service_Ping (dp_nullifiers D) (dp_revocations D) (io_now io 6) (rq_ctx r) (srv_credentialService s) of
        Some err \<Rightarrow> (Returned, respondErr w (Some (apperr_Wrap CodeUnavailable (Some err) ''storage unhealthy'')), s)
      | None \<Rightarrow> (Returned, respondJSON w 200 (Some (status_json ''ok'')), s))"

definition metricsHandler ::
    "('p1, 'p2, 's, 'ml, 'e, 'n, 'r, 'l) deps \<Rightarrow> ('p1, 'e, 'n, 'r, 'l) server handler" where
  "metricsHandler D io r w s =
     (Returned, dp_metrics_page D (cs_metrics (srv_credentialService s)) w, s)"

subsection \<open>The demo store\<close>

definition handleStoreCredential ::
    "('p1, 'p2, 's, 'ml, 'e, 'n, 'r, 'l) deps \<Rightarrow> ('p1, 'e, 'n, 'r, 'l) server handler" where
  "handleStoreCredential D io r w s =
     (let req = Decode (dp_decode_error D) decode_ciphertext r
      in (case req of
        Inl err \<Rightarrow> (Returned, respondErr w (bad_request err ''invalid request''), s)
      | Inr ciphertext \<Rightarrow>
        if ciphertext = ''''
        then (Returned, respondErr w (Some (apperr_Wrap CodeInvalidArgument None ''invalid request'')), s)
        else (case io_ticket io of
        None \<Rightarrow> (Panicked, w, s)
      | Some ticketID \<Rightarrow> (case srv_demoStore s of
        None \<Rightarrow> (Panicked, w, s)
      | Some demo \<Rightarrow>
        (Returned, respondJSON w 200 (Some (json_object [(''ticket_id'', json_string ticketID)])),
         s\<lparr>srv_demoStore := Some (demo\<lparr>dm_data := (dm_data demo)(ticketID \<mapsto> ciphertext)\<rparr>)\<rparr>)))))"

definition handleRetrieveCredential ::
    "('p1, 'p2, 's, 'ml, 'e, 'n, 'r, 'l) deps \<Rightarrow> ('p1, 'e, 'n, 'r, 'l) server handler" where
  "handleRetrieveCredential D io r w s =
     (let ticketID = Query_Get r ''ticket_id''
      in (case srv_demoStore s of
        None \<Rightarrow> (Panicked, w, s)
      | Some demo \<Rightarrow> (case dm_data demo ticketID of
        None \<Rightarrow> (Returned, respondErr w (Some (apperr_New CodeNotFound ''ticket not found'')), s)
      | Some ciphertext \<Rightarrow>
        (Returned, respondJSON w 200 (Some (json_object [(''ciphertext'', json_string ciphertext)])), s))))"

subsection \<open>Where the status differs from the documented one\<close>

text \<open>
  The documentation of the interface answers an invalid blinded message with 400 and a failure of
  the storage with 500. \<open>Issue\<close> wraps the former without a code, and the handler wraps the latter as
  an invalid argument.
\<close>

lemma DeserializeG1_uncoded: "DeserializeG1 B b = Inl err \<Longrightarrow> CodeOf (Some err) = CodeInternal"
  by (auto simp: DeserializeG1_def CodeOf_def split: option.splits if_splits)

lemma issue_bad_point_500:
  assumes "Decode (dp_decode_error D) decode_issue r = Inr req"
    and "ValidateIssueRequest (dp_validator D) (io_now io 5) req = None" and "iq_CredentialClass req \<noteq> ''''"
    and "hex_decode (iq_BlindedMessage req) = Inr b" and "cx_err (rq_ctx r) 0 = None"
    and bad: "DeserializeG1 (dp_blst D) b = Inl err" and "wrapped w" and "sent_status w = None"
  shows "sent_status (fst (snd (handleIssue D io r w s))) = Some 500"
proof -
  have "fst (Issue (dp_blst D) (dp_memguard D) (io_rand io) (rq_ctx r) (iq_BlindedMessage req) (iq_CredentialClass req)
      (srv_credentialService s)) = Inl (errors_Wrap err ''invalid blinded_message point'')"
    using assms(3-6) by (simp add: Issue_def CheckContext_def)
  then show ?thesis using assms(1,2,7,8) DeserializeG1_uncoded [OF bad]
    by (simp add: handleIssue_def Let_def split_beta respondErr_status)
qed

lemma revoke_failure_400:
  assumes "ClaimsFromContext (rq_ctx r) = Some cl" and "Decode (dp_decode_error D) decode_revoke r = Inr req"
    and "ValidateAdminRevokeRequest (dp_validator D) (io_now io 5) req = None" and "srv_revocationStore s = Some store"
    and "fst (rs_RevokeClass (dp_revocations D) (io_now io 6) (aq_CredentialClass req) (aq_KeyEpoch req) (aq_Reason req)
      (cl_Subject cl) (aq_RevokedUntil req) store) = Some err"
    and "wrapped w" and "sent_status w = None"
  shows "sent_status (fst (snd (handleAdminRevoke D io r w s))) = Some 400"
  using assms by (simp add: handleAdminRevoke_def Let_def split_beta respondErr_status bad_request_def CodeOf_def apperr_Wrap_def)

end
