(* ===== verification/Middleware.thy ===== *)
theory Middleware
  imports Handlers
begin

section \<open>Middlewares, routes and the server (internal/api: middleware.go, server.go)\<close>

text \<open>
  A middleware maps a handler to a handler. \<open>routes\<close> is the table the multiplexer is given;
  \<open>ServeHTTP\<close> finds the handler of a request in it. Request paths are taken to be clean: the
  multiplexer redirects the others before any handler runs. Header names are in canonical form.
\<close>

subsection \<open>Authentication and roles\<close>

definition authenticate ::
    "('p1, 'p2, 's, 'ml, 'e, 'n, 'r, 'l) deps \<Rightarrow> io \<Rightarrow> request \<Rightarrow> ('p1, 'e, 'n, 'r, 'l) server \<Rightarrow>
     claims result" where
  "authenticate D io r s =
     (let h = Header_Get r ''Authorization''
      in if h = '''' then Inl (apperr_New CodeUnauthorized ''missing authorization header'')
         else (let parts = SplitN2 (CHR '' '') h
           in if length parts \<noteq> 2 \<or> \<not> EqualFold (parts ! 0) ''Bearer''
              then Inl (apperr_New CodeUnauthorized ''invalid authorization format'')
              else (case JWT_Validate (dp_jwt D) (srv_jwtValidator s) (io_now io 4) (parts ! 1) of
                  Inl err \<Rightarrow> Inl (apperr_Wrap CodeUnauthorized (Some err) ''invalid token'')
                | Inr cl \<Rightarrow> Inr cl)))"

definition RequireRole ::
    "('p1, 'p2, 's, 'ml, 'e, 'n, 'r, 'l) deps \<Rightarrow> string \<Rightarrow> ('p1, 'e, 'n, 'r, 'l) server handler \<Rightarrow>
     ('p1, 'e, 'n, 'r, 'l) server handler" where
  "RequireRole D role next_h io r w s =
     (case authenticate D io r s of
        Inl err \<Rightarrow> (Returned, respondErr w (Some err), s)
      | Inr cl \<Rightarrow>
          if \<not> HasRole cl role
          then (Returned, respondErr w (Some (apperr_New CodeForbidden
                 (''role '' @ Quote role @ '' required''))), s)
          else next_h io (r\<lparr>rq_ctx := WithClaims (rq_ctx r) cl\<rparr>) w s)"

subsection \<open>Body limit, log, rate limit, recovery\<close>

definition BodyLimitMiddleware :: "int \<Rightarrow> 's handler \<Rightarrow> 's handler" where
  "BodyLimitMiddleware limit next_h io r w s = next_h io (MaxBytesReader limit r) w s"

text \<open>What runs after the next handler does not run when that panics or does not end.\<close>

definition LoggerMiddleware ::
    "('p1, 'e, 'n, 'r, 'l) server handler \<Rightarrow> ('p1, 'e, 'n, 'r, 'l) server handler" where
  "LoggerMiddleware next_h io r w s =
     (let start = io_now io 0
      in (case WithRequestID io (rq_ctx r) of
        None \<Rightarrow> (Panicked, w, s)
      | Some (ctx, reqID) \<Rightarrow>
        let w = Header_Set ''X-Request-Id'' reqID w;
            (out, rw, s) = next_h io (r\<lparr>rq_ctx := ctx\<rparr>) (newResponseWriter w) s
        in if out = Returned
           then (Returned, embedded rw,
                 with_metrics (RecordHTTPRequest (rq_Method r) (rq_Path r) (Status rw) (io_now io 9 - start)) s)
           else (out, embedded rw, s)))"

definition client_ip :: "request \<Rightarrow> string" where
  "client_ip r =
     (let ip = (case SplitHostPort (rq_RemoteAddr r) of Some (host, _) \<Rightarrow> host | None \<Rightarrow> rq_RemoteAddr r);
          forwarded = Header_Get r ''X-Forwarded-For''
      in if forwarded \<noteq> '''' then
           (case ParseIP ip of
              Some parsed \<Rightarrow>
                if IsLoopback parsed \<or> IsPrivate parsed
                then TrimSpace (hd (Split (CHR '','') forwarded)) else ip
            | None \<Rightarrow> ip)
         else ip)"

definition RateLimitMiddleware ::
    "('p1, 'p2, 's, 'ml, 'e, 'n, 'r, 'l) deps \<Rightarrow> ('p1, 'e, 'n, 'r, 'l) server handler \<Rightarrow>
     ('p1, 'e, 'n, 'r, 'l) server handler" where
  "RateLimitMiddleware D next_h io r w s =
     (let (allowed, rl) = Allow (dp_rate D) (io_order io) (io_now io 1) (io_now io 2) (io_now io 3)
            (client_ip r) (srv_rateLimiter s);
          s = s\<lparr>srv_rateLimiter := rl\<rparr>
      in if \<not> allowed
         then (Returned, respondErr w (Some (apperr_New CodeTooManyRequest ''rate limit exceeded'')), s)
         else next_h io r w s)"

definition RecoveryMiddleware :: "'s handler \<Rightarrow> 's handler" where
  "RecoveryMiddleware next_h io r w s =
     (case next_h io r w s of
        (Panicked, w, s) \<Rightarrow>
          (Returned, respondErr w (Some (apperr_New CodeInternal ''internal server error'')), s)
      | (Returned, w, s) \<Rightarrow> (Returned, w, s)
      | (Hung, w, s) \<Rightarrow> (Hung, w, s))"

subsection \<open>Routes\<close>

definition limited ::
    "('p1, 'p2, 's, 'ml, 'e, 'n, 'r, 'l) deps \<Rightarrow> ('p1, 'e, 'n, 'r, 'l) server handler \<Rightarrow>
     ('p1, 'e, 'n, 'r, 'l) server handler" where
  "limited D h = RecoveryMiddleware (LoggerMiddleware (RateLimitMiddleware D (BodyLimitMiddleware (2 ^ 20) h)))"

definition routes ::
    "('p1, 'p2, 's, 'ml, 'e, 'n, 'r, 'l) deps \<Rightarrow> bool \<Rightarrow>
     (string \<times> string \<times> ('p1, 'e, 'n, 'r, 'l) server handler) list" where
  "routes D demo =
     [(''POST'', ''/v1/credential/issue'', limited D (RequireRole D ''issuer'' (handleIssue D))),
      (''POST'', ''/v1/credential/consume'', limited D (handleConsume D)),
      (''POST'', ''/v1/admin/revoke'', limited D (RequireRole D ''admin'' (handleAdminRevoke D))),
      (''DELETE'', ''/v1/admin/revoke'', limited D (RequireRole D ''admin'' (handleAdminUnrevoke D))),
      (''GET'', ''/v1/admin/revocations'', limited D (RequireRole D ''admin'' (handleAdminListRevocations D))),
      (''GET'', ''/health'', handleHealth D),
      (''GET'', ''/metrics'', metricsHandler D)] @
     (if demo then
        [(''POST'', ''/demo/store'', RecoveryMiddleware (LoggerMiddleware (handleStoreCredential D))),
         (''GET'', ''/demo/retrieve'', RecoveryMiddleware (LoggerMiddleware (handleRetrieveCredential D)))]
      else [])"

text \<open>A \<open>GET\<close> pattern also matches \<open>HEAD\<close>; an unknown path is 404, a known one with another method 405.\<close>

definition method_matches :: "string \<Rightarrow> string \<Rightarrow> bool" where
  "method_matches pattern httpMethod \<longleftrightarrow> pattern = httpMethod \<or> pattern = ''GET'' \<and> httpMethod = ''HEAD''"

fun mux_find :: "(string \<times> string \<times> 'h) list \<Rightarrow> string \<Rightarrow> string \<Rightarrow> 'h option" where
  "mux_find [] httpMethod path = None"
| "mux_find ((m, p, h) # tbl) httpMethod path =
     (if p = path \<and> method_matches m httpMethod then Some h else mux_find tbl httpMethod path)"

definition ServeHTTP ::
    "('p1, 'p2, 's, 'ml, 'e, 'n, 'r, 'l) deps \<Rightarrow> ('p1, 'e, 'n, 'r, 'l) server handler" where
  "ServeHTTP D io r w s =
     (let tbl = routes D (srv_demoStore s \<noteq> None)
      in (case mux_find tbl (rq_Method r) (rq_Path r) of
            Some h \<Rightarrow> h io r w s
          | None \<Rightarrow> (Returned,
              (if rq_Path r \<in> fst ` snd ` set tbl then http_Error ''Method Not Allowed'' 405 w
               else http_Error ''404 page not found'' 404 w), s)))"

subsection \<open>Building, ticking and stopping the server\<close>

text \<open>
  The stores are interface values: the in-memory ones or the Redis ones. \<open>dial\<close> is
  \<open>NewRedisClient\<close>, which connects and pings; the configured Redis expiration is a plain
  number that becomes a duration.
\<close>

definition either_nullifier ::
    "'a nullifier_iface \<Rightarrow> 'b nullifier_iface \<Rightarrow> ('a + 'b) nullifier_iface" where
  "either_nullifier N1 N2 = \<lparr>
     ns_CheckAndStore = (\<lambda>now ctx k s. case s of
         Inl a \<Rightarrow> map_prod id Inl (ns_CheckAndStore N1 now ctx k a)
       | Inr b \<Rightarrow> map_prod id Inr (ns_CheckAndStore N2 now ctx k b)),
     ns_Ping = (\<lambda>now ctx s. case s of Inl a \<Rightarrow> ns_Ping N1 now ctx a | Inr b \<Rightarrow> ns_Ping N2 now ctx b),
     ns_Close = (\<lambda>s. case s of
         Inl a \<Rightarrow> map_prod id Inl (ns_Close N1 a) | Inr b \<Rightarrow> map_prod id Inr (ns_Close N2 b)) \<rparr>"

definition either_revocation ::
    "'a revocation_iface \<Rightarrow> 'b revocation_iface \<Rightarrow> ('a + 'b) revocation_iface" where
  "either_revocation R1 R2 = \<lparr>
     rs_RevokeClass = (\<lambda>now c e why who until s. case s of
         Inl a \<Rightarrow> map_prod id Inl (rs_RevokeClass R1 now c e why who until a)
       | Inr b \<Rightarrow> map_prod id Inr (rs_RevokeClass R2 now c e why who until b)),
     rs_IsRevoked = (\<lambda>now c e s. case s of
         Inl a \<Rightarrow> rs_IsRevoked R1 now c e a | Inr b \<Rightarrow> rs_IsRevoked R2 now c e b),
     rs_ListRevocations = (\<lambda>order now s. case s of
         Inl a \<Rightarrow> rs_ListRevocations R1 order now a | Inr b \<Rightarrow> rs_ListRevocations R2 order now b),
     rs_UnrevokeClass = (\<lambda>now c e s. case s of
         Inl a \<Rightarrow> map_prod id Inl (rs_UnrevokeClass R1 now c e a)
       | Inr b \<Rightarrow> map_prod id Inr (rs_UnrevokeClass R2 now c e b)),
     rs_Ping = (\<lambda>now ctx s. case s of Inl a \<Rightarrow> rs_Ping R1 now ctx a | Inr b \<Rightarrow> rs_Ping R2 now ctx b),
     rs_Close = (\<lambda>s. case s of
         Inl a \<Rightarrow> map_prod id Inl (rs_Close R1 a) | Inr b \<Rightarrow> map_prod id Inr (rs_Close R2 b)) \<rparr>"

type_synonym 'c any_nullifier = "nullifier_mem + 'c redis_nullifier"
type_synonym 'c any_revocation = "revocation_mem + 'c"

definition new_stores ::
    "(string \<Rightarrow> string \<Rightarrow> int \<Rightarrow> 'c result) \<Rightarrow> 'e config \<Rightarrow> ('c any_nullifier \<times> 'c any_revocation) result" where
  "new_stores dial cfg =
     (if cf_UseMemoryStore cfg
      then Inr (Inl NewInMemoryNullifierStore, Inl NewInMemoryRevocationStore)
      else (case dial (cf_RedisAddr cfg) (cf_RedisPassword cfg) (cf_RedisDB cfg) of
          Inl err \<Rightarrow> Inl err
        | Inr client \<Rightarrow>
          let nullifiers = Inr (NewRedisNullifierStoreWithClient client (cf_RedisExpiration cfg))
          in if cf_RevocationRedisAddr cfg \<noteq> ''''
             then (case dial (cf_RevocationRedisAddr cfg) (cf_RevocationRedisPassword cfg)
                          (cf_RevocationRedisDB cfg) of
                 Inl err \<Rightarrow> Inl err
               | Inr revClient \<Rightarrow> Inr (nullifiers, Inr revClient))
             else Inr (nullifiers, Inr client)))"

definition NewServer ::
    "('p1, 'p2, 's, 'ml) blst \<Rightarrow> (string \<Rightarrow> string \<Rightarrow> int \<Rightarrow> 'c result) \<Rightarrow> collector \<Rightarrow> 'e config \<Rightarrow>
     ('p1, 'e, 'c any_nullifier, 'c any_revocation, 'l) server result" where
  "NewServer B dial metricsReporter cfg =
     (case new_stores dial cfg of
        Inl err \<Rightarrow> Inl err
      | Inr (nullifiers, revocations) \<Rightarrow>
        let credService = NewCredentialService B cfg nullifiers (Some revocations) (Some metricsReporter);
            jwtconfig = \<lparr> vc_Secret = cf_AuthSecret cfg, vc_Issuer = '''', vc_Audience = '''' \<rparr>
        in Inr \<lparr> srv_credentialService = credService,
             srv_jwtValidator = NewJWTValidator jwtconfig,
             srv_rateLimiter = NewRateLimiter (cf_RateLimit cfg) (cf_RateLimitBurst cfg) (cf_MaxClients cfg),
             srv_demoStore = (if cf_UseDemo cfg then Some NewDemoStore else None),
             srv_httpServer = Some \<lparr> hs_Addr = cf_ListenAddr cfg, hs_ReadTimeout = 10 * second,
               hs_WriteTimeout = 10 * second, hs_IdleTimeout = 60 * second \<rparr> \<rparr>)"

text \<open>One tick of the goroutine that \<open>Start\<close> runs every ten minutes.\<close>

definition Start_tick :: "instant \<Rightarrow> ('p1, 'e, 'n, 'r, 'l) server \<Rightarrow> ('p1, 'e, 'n, 'r, 'l) server" where
  "Start_tick now s = s\<lparr>srv_rateLimiter := Cleanup now (srv_rateLimiter s)\<rparr>"

text \<open>\<open>stop\<close> is \<open>http.Server.Shutdown\<close> under the given context.\<close>

definition Shutdown ::
    "('p1, 'p2, 's, 'ml, 'e, 'n, 'r, 'l) deps \<Rightarrow> (http_server \<Rightarrow> goerr option) \<Rightarrow>
     ('p1, 'e, 'n, 'r, 'l) server option \<Rightarrow> goerr option \<times> ('p1, 'e, 'n, 'r, 'l) server option" where
  "Shutdown D stop srv = (case srv of
       None \<Rightarrow> (None, None)
     | Some s \<Rightarrow>
       let (err, svc) = Service_Close (dp_nullifiers D) (dp_revocations D) (Some (srv_credentialService s));
           s = set_service (the svc) s
       in (case srv_httpServer s of
             None \<Rightarrow> (None, Some s)
           | Some hs \<Rightarrow> (stop hs, Some s)))"

lemmas [handler_defs] = handleIssue_def handleConsume_def handleAdminRevoke_def handleAdminUnrevoke_def
  handleAdminListRevocations_def handleHealth_def metricsHandler_def handleStoreCredential_def
  handleRetrieveCredential_def RequireRole_def BodyLimitMiddleware_def LoggerMiddleware_def
  RateLimitMiddleware_def RecoveryMiddleware_def

subsection \<open>What a handler does to its writer\<close>

text \<open>A writer another one becomes by writing to it: what every handler here does.\<close>

inductive writes :: "writer \<Rightarrow> writer \<Rightarrow> bool" where
  writes_refl: "writes w w"
| writes_Set: "writes w w' \<Longrightarrow> writes w (Header_Set k v w')"
| writes_Del: "writes w w' \<Longrightarrow> writes w (Header_Del k w')"
| writes_Header: "writes w w' \<Longrightarrow> writes w (WriteHeader code w')"
| writes_Write: "writes w w' \<Longrightarrow> writes w (snd (Write bs w'))"

lemma writes_wrapped: "writes w w' \<Longrightarrow> wrapped w \<Longrightarrow> wrapped w'"
  by (induction rule: writes.induct) (simp_all add: wrapped_ops)

lemma writes_sent:
  "writes w w' \<Longrightarrow> bw_sent (base_of w) = Some x \<Longrightarrow> bw_sent (base_of w') = Some x"
  by (induction rule: writes.induct) (simp_all add: WriteHeader_sent Write_sent)

lemma writes_trans: "writes w2 w3 \<Longrightarrow> writes w1 w2 \<Longrightarrow> writes w1 w3"
  by (induction rule: writes.induct) (auto intro: writes.intros)

lemma writes_ResponseWriter:
  "writes w0 w' \<Longrightarrow> w0 = ResponseWriter v st wr \<Longrightarrow>
     \<exists>v' st' wr'. w' = ResponseWriter v' st' wr' \<and> writes v v'"
proof (induction rule: writes.induct)
  case (writes_Header w w' code)
  then show ?case by (auto intro: writes.intros)
next
  case (writes_Write w w' bs)
  then show ?case by (auto simp: split_beta intro: writes.intros)
qed (auto intro: writes.intros)

lemma writes_http_Error: "writes w (http_Error msg code w)"
  unfolding http_Error_def Let_def by (intro writes.intros)

lemma writes_respondJSON: "writes w (respondJSON w code data)"
  by (auto simp: respondJSON_def Let_def writes_http_Error split: option.splits intro: writes.intros)

lemma writes_respondError: "writes w (respondError w code msg details)"
proof -
  let ?w = "WriteHeader code (Header_Set ''Content-Type'' ''application/json'' w)"
  have "respondError w code msg details \<in> {w'. \<exists>bs. w' = snd (Write bs ?w) \<or>
      w' = http_Error ''internal server error'' 500 (snd (Write bs ?w))}"
    by (auto simp: respondError_def Let_def split_beta)
  moreover have "writes w (snd (Write bs ?w))" for bs
    by (intro writes.intros)
  ultimately show ?thesis
    using writes_trans [OF writes_http_Error] by fastforce
qed

lemma writes_respondErr: "writes w (respondErr w err)"
  by (simp add: respondErr_def Let_def writes_respondError)

lemmas writes_respond = writes_respondJSON writes_respondErr writes_respondError

text \<open>A handler that touches its writer only through these operations.\<close>

definition proper :: "'s handler \<Rightarrow> bool" where
  "proper h \<longleftrightarrow> (\<forall>io r w s. writes w (fst (snd (h io r w s))))"

lemma properD: "proper h \<Longrightarrow> h io r w s = (out, w', s') \<Longrightarrow> writes w w'"
  by (metis proper_def fst_conv snd_conv)

lemma properI: "(\<And>io r w s. writes w (fst (snd (h io r w s)))) \<Longrightarrow> proper h"
  by (simp add: proper_def)

named_theorems proper_intros \<open>handlers that only write to their writer\<close>

lemma proper_handlers [proper_intros]:
  "proper (handleIssue D)" "proper (handleConsume D)" "proper (handleAdminRevoke D)"
  "proper (handleAdminUnrevoke D)" "proper (handleAdminListRevocations D)" "proper (handleHealth D)"
  "proper (handleStoreCredential D)" "proper (handleRetrieveCredential D)"
  by (rule properI; auto simp: handleIssue_def handleConsume_def handleAdminRevoke_def
      handleAdminUnrevoke_def handleAdminListRevocations_def handleHealth_def handleStoreCredential_def
      handleRetrieveCredential_def Let_def split_beta writes_respond writes_refl
      split: sum.splits option.splits consume_status.splits)+

lemma proper_RequireRole [proper_intros]: "proper h \<Longrightarrow> proper (RequireRole D role h)"
  by (auto simp: proper_def RequireRole_def writes_respond split: sum.splits)

lemma proper_BodyLimit [proper_intros]: "proper h \<Longrightarrow> proper (BodyLimitMiddleware n h)"
  by (simp add: proper_def BodyLimitMiddleware_def)

lemma proper_RateLimit [proper_intros]: "proper h \<Longrightarrow> proper (RateLimitMiddleware D h)"
  by (auto simp: proper_def RateLimitMiddleware_def Let_def split_beta writes_respond)

lemma proper_Logger [proper_intros]:
  assumes "proper h"
  shows "proper (LoggerMiddleware h)"
proof (rule properI)
  fix io r w s
  have "writes w (embedded (fst (snd (h io r' (newResponseWriter (Header_Set k x w)) s))))" for r' k x
  proof -
    have "writes (newResponseWriter (Header_Set k x w)) (fst (snd (h io r' (newResponseWriter (Header_Set k x w)) s)))"
      using assms by (simp add: proper_def)
    from writes_ResponseWriter [OF this newResponseWriter_def]
    obtain v st wr where v: "fst (snd (h io r' (newResponseWriter (Header_Set k x w)) s)) =
        ResponseWriter v st wr" "writes (Header_Set k x w) v"
      by blast
    have "writes w v" by (rule writes_trans [OF v(2) writes_Set [OF writes_refl]])
    then show ?thesis using v(1) by simp
  qed
  then show "writes w (fst (snd (LoggerMiddleware h io r w s)))"
    by (auto simp: LoggerMiddleware_def Let_def split_beta writes_refl split: option.splits)
qed

lemma proper_Recovery [proper_intros]:
  assumes "proper h"
  shows "proper (RecoveryMiddleware h)"
proof (rule properI)
  fix io r w s
  obtain out w' s' where h: "h io r w s = (out, w', s')" by (cases "h io r w s")
  then have "writes w w'" by (rule properD [OF assms])
  then show "writes w (fst (snd (RecoveryMiddleware h io r w s)))"
    by (cases out) (simp_all add: RecoveryMiddleware_def h writes_trans [OF writes_respondErr])
qed

end
