(* ===== verification/Protocol.thy ===== *)
theory Protocol
  imports Service
begin

section \<open>The protocol end to end\<close>

text \<open>
  Properties that join the client's steps with the service: an honest client's credential is
  redeemed once, and what a client that is not honest can redeem. The client's messages are
  the hex form of compressed points, as the command line client sends them.
\<close>

lemma Issue_config:
  "cs_config (snd (Issue B M rnd ctx blindedHex class s)) \<in> {cs_config s, snd (MasterSeed M (cs_config s))}"
  using Issue_state [of B M rnd ctx blindedHex "class" s] by auto

lemma Issue_keeps:
  "service_key B M e c (cs_config (snd (Issue B M rnd ctx blindedHex class s))) =
     service_key B M e c (cs_config s)"
  "cf_SupportedEpochs (cs_config (snd (Issue B M rnd ctx blindedHex class s))) =
     cf_SupportedEpochs (cs_config s)"
  using Issue_config [of B M rnd ctx blindedHex "class" s] by auto

lemma not_revoked_cong:
  "cs_revocationStore s' = cs_revocationStore s \<Longrightarrow> not_revoked RI t c e s' = not_revoked RI t c e s"
  by (simp add: not_revoked_def)

definition hex_point :: "('p1, 'p2, 's, 'ml) blst \<Rightarrow> 'p1 \<Rightarrow> string" where
  "hex_point B p = hex_of (G1_Compress B p)"

lemma decoded_hex_point: "blst_laws B D \<Longrightarrow> p1_in_g1 B p \<Longrightarrow> decoded B (hex_point B p) p"
  by (simp add: hex_point_def decoded_hex_of)

text \<open>A pair whose second component is the first one's signature is admissible.\<close>

lemma signed_pair_admissible:
  assumes L: "blst_laws B D" and w: "p1_in_g1 B w" and sig: "sig = p1_mult B w sk"
    and k: "service_key B M ep cl (cs_config s) = Inr sk"
    and "consume_admit RI t cl ep s = None" and "cx_err ctx 0 = None"
  shows "admissible B M RI t ctx (hex_point B sig) (hex_point B w) cl ep s sig"
proof -
  have "p1_in_g1 B sig" using L w by (simp add: sig blst_simps)
  then show ?thesis
    unfolding admissible_iff [OF L]
    using assms decoded_hex_point [OF L] by blast
qed

text \<open>
  Redeeming a signed pair, and redeeming it again, with a nullifier store that answers that the
  nullifier is new and then that it was seen.
\<close>

lemma redeemed_then_duplicate:
  assumes L: "blst_laws B D" and m: "p1_in_g1 B m" and sig: "sig = p1_mult B m sk"
    and k: "service_key B M ep cl (cs_config s) = Inr sk"
    and adm: "cl \<noteq> ''''" "ep \<noteq> ''''" "ep \<in> set (cf_SupportedEpochs (cs_config s))"
    and rev: "not_revoked RI t1 cl ep s" "not_revoked RI t3 cl ep s"
    and live: "cx_err c1 0 = None" "cx_err c2 0 = None"
    and store: "ns_CheckAndStore NI t2 (cx_err c1 1) (ComputeNullifier B ep cl sig) (cs_store s) = (Inr True, n)"
      "fst (ns_CheckAndStore NI t4 (cx_err c2 1) (ComputeNullifier B ep cl sig) n) = Inr False"
    and first: "Consume B M NI RI t1 t2 c1 (hex_point B sig) (hex_point B m) cl ep s = (r1, s2)"
    and s2': "cs_store s2' = cs_store s2" "cs_revocationStore s2' = cs_revocationStore s2" "cs_config s2' = cs_config s2"
  shows "\<exists>x. r1 = Inr x \<and> cr_Status x = ConsumeAccepted"
    and "\<exists>x. fst (Consume B M NI RI t3 t4 c2 (hex_point B sig) (hex_point B m) cl ep s2') = Inr x \<and>
      cr_Status x = ConsumeDuplicate"
proof -
  have s2: "s2 = snd (Consume B M NI RI t1 t2 c1 (hex_point B sig) (hex_point B m) cl ep s)"
    and r1: "r1 = fst (Consume B M NI RI t1 t2 c1 (hex_point B sig) (hex_point B m) cl ep s)"
    using first by simp_all
  have a1: "admissible B M RI t1 c1 (hex_point B sig) (hex_point B m) cl ep s sig"
    by (rule signed_pair_admissible [OF L m sig k _ live(1)]) (use adm rev in \<open>simp add: consume_admit_None_iff\<close>)
  note one = Consume_store_status [OF a1 store(1)]
  show "\<exists>x. r1 = Inr x \<and> cr_Status x = ConsumeAccepted" using one(1) by (simp add: r1)
  have keeps: "cs_revocationStore s2' = cs_revocationStore s"
    "cf_SupportedEpochs (cs_config s2') = cf_SupportedEpochs (cs_config s)" "service_key B M ep cl (cs_config s2') = Inr sk"
    using k by (simp_all add: s2' s2 Consume_keeps)
  have a2: "admissible B M RI t3 c2 (hex_point B sig) (hex_point B m) cl ep s2' sig"
    by (rule signed_pair_admissible [OF L m sig keeps(3) _ live(2)])
      (use adm keeps rev not_revoked_cong [OF keeps(1)] in \<open>simp add: consume_admit_None_iff\<close>)
  have "ns_CheckAndStore NI t4 (cx_err c2 1) (ComputeNullifier B ep cl sig) (cs_store s2') =
      (Inr False, snd (ns_CheckAndStore NI t4 (cx_err c2 1) (ComputeNullifier B ep cl sig) n))"
    using store(2) one(2) by (simp add: s2' s2 prod_eq_iff)
  from Consume_store_status(1) [OF a2 this]
  show "\<exists>x. fst (Consume B M NI RI t3 t4 c2 (hex_point B sig) (hex_point B m) cl ep s2') = Inr x \<and>
      cr_Status x = ConsumeDuplicate" by simp
qed

text \<open>The in-memory store answers so for a nullifier it does not hold.\<close>

lemma mem_new_then_seen:
  assumes "nm_store st k \<noteq> Some True"
  shows "ns_CheckAndStore InMemoryNullifierStore t None k st = (Inr True, st\<lparr>nm_store := (nm_store st)(k \<mapsto> True)\<rparr>)"
    and "fst (ns_CheckAndStore InMemoryNullifierStore t' None k (st\<lparr>nm_store := (nm_store st)(k \<mapsto> True)\<rparr>)) = Inr False"
  using assms by (simp_all add: mem_CheckAndStore_def)

lemma sample_key: "service_key z3_blst plain_memguard ''2026-01'' ''gold'' (cs_config sample_service) = Inr Z1"
  by (rule z3_service_key) simp_all

lemma sample_issued:
  obtains ires where "fst (Issue z3_blst plain_memguard (Inr ''noise'') background (hex_point z3_blst Z2) ''gold''
      sample_service) = Inr ires"
    "decoded z3_blst (ir_BlindSignature ires) Z2" "ir_KeyEpoch ires = ''2026-01''"
proof -
  have h: "hex_point z3_blst Z2 = hex_encode (z3_enc 48 Z2)"
    by (simp add: hex_point_def G1_Compress_def z3_ops)
  obtain res where i: "fst (Issue z3_blst plain_memguard (Inr ''noise'') background (hex_point z3_blst Z2) ''gold''
      sample_service) = Inr res"
    using sample_issue unfolding h by blast
  then obtain sk pf bl where k: "service_key z3_blst plain_memguard ''2026-01'' ''gold''
      (cs_config sample_service) = Inr sk"
    and bl: "decoded z3_blst (hex_point z3_blst Z2) bl"
    and r: "res = serialize_issue z3_blst ''2026-01'' (p1_mult z3_blst bl sk) (PubKey z3_blst sk) pf"
    by (auto simp: Issue_ok_iff)
  have in1: "p1_in_g1 z3_blst q" and in2: "p2_in_g2 z3_blst q'" for q q' by (simp_all add: z3_ops)
  have "bl = Z2" using decoded_unique [OF bl] z3_decoded [of Z2] h by simp
  then have "decoded z3_blst (ir_BlindSignature res) Z2"
    using decoded_serialized(1) [OF z3_blst_laws in1 in2 in2 in1] r k sample_key by (simp add: z3_ops)
  then show thesis using that i r by (simp add: serialize_issue_def)
qed

text \<open>
  The protocol with the in-memory store. A client blinds the point \<open>m\<close> of the group
  with a non-zero scalar \<open>r\<close>, decodes what \<open>Issue\<close> returned and unblinds it. If the epoch
  is supported, the class is not revoked and the contexts are live, redeeming the result is
  accepted while its nullifier is not stored, and redeeming it again is answered as a
  duplicate.
\<close>

lemma issue_unblind_consume:
  assumes L: "blst_laws B D" and m: "p1_in_g1 B m" and r: "sv D r \<noteq> 0"
    and blind: "BlindMessage B m r = Inr blinded"
    and issue: "Issue B M rnd ctx (hex_point B blinded) cl s = (Inr res, s1)"
    and unblind: "decoded B (ir_BlindSignature res) bsig" "UnblindSignature B bsig r = Inr sig"
    and ep: "ep = ir_KeyEpoch res" "ep \<noteq> ''''" "ep \<in> set (cf_SupportedEpochs (cs_config s))"
    and rev: "not_revoked RI t1 cl ep s" "not_revoked RI t3 cl ep s"
    and live: "cx_err c1 0 = None" "cx_err c1 1 = None" "cx_err c2 0 = None" "cx_err c2 1 = None"
    and fresh: "nm_store (cs_store s) (ComputeNullifier B ep cl sig) \<noteq> Some True"
    and first: "Consume B M InMemoryNullifierStore RI t1 t2 c1 (hex_point B sig) (hex_point B m) cl ep s1 = (r1, s2)"
    and again: "Consume B M InMemoryNullifierStore RI t3 t4 c2 (hex_point B sig) (hex_point B m) cl ep s2 = (r2, s3)"
  shows "(\<exists>x. r1 = Inr x \<and> cr_Status x = ConsumeAccepted) \<and>
    (\<exists>x. r2 = Inr x \<and> cr_Status x = ConsumeDuplicate)"
proof -
  have res: "fst (Issue B M rnd ctx (hex_point B blinded) cl s) = Inr res" and
    s1: "s1 = snd (Issue B M rnd ctx (hex_point B blinded) cl s)" using issue by simp_all
  have bin: "p1_in_g1 B blinded" using L m blind by (auto simp: BlindMessage_def blst_simps)
  obtain sk bl where cl: "cl \<noteq> ''''" and b: "decoded B (hex_point B blinded) bl"
    and k: "service_key B M ep cl (cs_config s) = Inr sk" and bs: "bsig = p1_mult B bl sk"
    using Issue_signed [OF L res unblind(1)] unfolding ep(1) by metis
  have "bl = blinded" using decoded_unique [OF b decoded_hex_point [OF L bin]] .
  then have "bsig = p1_mult B (p1_mult B m r) sk"
    using bs blind by (simp add: BlindMessage_def)
  then have sig: "sig = p1_mult B m sk"
    using unblind(2) mult_inverse_cancel [OF L m r] by (simp add: UnblindSignature_def)
  have s1': "cs_revocationStore s1 = cs_revocationStore s" "cs_store s1 = cs_store s"
    "service_key B M ep cl (cs_config s1) = Inr sk"
    "cf_SupportedEpochs (cs_config s1) = cf_SupportedEpochs (cs_config s)"
    using Issue_frame [of B M rnd ctx "hex_point B blinded" cl s] k by (simp_all add: s1 Issue_keeps)
  have now: "ep \<in> set (cf_SupportedEpochs (cs_config s1))" "not_revoked RI t1 cl ep s1" "not_revoked RI t3 cl ep s1"
    "nm_store (cs_store s1) (ComputeNullifier B ep cl sig) \<noteq> Some True"
    using ep(3) rev fresh s1' not_revoked_cong [OF s1'(1)] by simp_all
  note new = mem_new_then_seen(1) [OF now(4), of t2] and seen = mem_new_then_seen(2) [OF now(4), of t4]
  note twice = redeemed_then_duplicate [OF L m sig s1'(3) cl ep(2) now(1-3) live(1,3)
      new [folded live(2)] seen [folded live(4)] first refl refl refl]
  show ?thesis using twice unfolding again by simp
qed

lemma issue_unblind_consume_witness:
  "\<exists>res s1 r1 s2 r2 s3.
     Issue z3_blst plain_memguard (Inr ''noise'') background (hex_point z3_blst Z2) ''gold''
       sample_service = (Inr res, s1) \<and>
     Consume z3_blst plain_memguard InMemoryNullifierStore InMemoryRevocationStore 0 0 background
       (hex_point z3_blst Z1) (hex_point z3_blst Z1) ''gold'' ''2026-01'' s1 = (r1, s2) \<and>
     Consume z3_blst plain_memguard InMemoryNullifierStore InMemoryRevocationStore 0 0 background
       (hex_point z3_blst Z1) (hex_point z3_blst Z1) ''gold'' ''2026-01'' s2 = (r2, s3) \<and>
     (\<exists>x. r1 = Inr x \<and> cr_Status x = ConsumeAccepted) \<and>
     (\<exists>x. r2 = Inr x \<and> cr_Status x = ConsumeDuplicate)"
proof -
  obtain res where f: "fst (Issue z3_blst plain_memguard (Inr ''noise'') background (hex_point z3_blst Z2) ''gold''
      sample_service) = Inr res" and bs: "decoded z3_blst (ir_BlindSignature res) Z2" and ep: "ir_KeyEpoch res = ''2026-01''"
    by (rule sample_issued)
  then obtain s1 where i: "Issue z3_blst plain_memguard (Inr ''noise'') background
      (hex_point z3_blst Z2) ''gold'' sample_service = (Inr res, s1)" by (metis surjective_pairing)
  have nr: "not_revoked InMemoryRevocationStore 0 ''gold'' ''2026-01'' sample_service"
    using sample_admit [of 0] by (simp add: consume_admit_None_iff)
  let ?c1 = "Consume z3_blst plain_memguard InMemoryNullifierStore InMemoryRevocationStore 0 0
      background (hex_point z3_blst Z1) (hex_point z3_blst Z1) ''gold'' ''2026-01'' s1"
  let ?c2 = "Consume z3_blst plain_memguard InMemoryNullifierStore InMemoryRevocationStore 0 0
      background (hex_point z3_blst Z1) (hex_point z3_blst Z1) ''gold'' ''2026-01'' (snd ?c1)"
  have "(\<exists>x. fst ?c1 = Inr x \<and> cr_Status x = ConsumeAccepted) \<and>
      (\<exists>x. fst ?c2 = Inr x \<and> cr_Status x = ConsumeDuplicate)"
    by (rule issue_unblind_consume [OF z3_blst_laws, where m = Z1 and r = Z2 and blinded = Z2
          and res = res and s = sample_service and bsig = Z2 and sig = Z1 and ?c1.0 = background
          and ?c2.0 = background and ?t2.0 = 0 and ?t4.0 = 0 and ?s2.0 = "snd ?c1"
          and ?s3.0 = "snd ?c2"])
      (use i bs ep nr in \<open>simp_all add: z3_ops z3_dlog_def BlindMessage_def UnblindSignature_def
        background_def NewInMemoryNullifierStore_def\<close>)
  with i show ?thesis by (metis surjective_pairing)
qed

subsection \<open>What a dishonest client can redeem\<close>

text \<open>Multiplying both points of a signed pair by one scalar gives a signed pair.\<close>

lemma p1_mult_commute:
  assumes L: "blst_laws B D" and w: "p1_in_g1 B w"
  shows "p1_mult B (p1_mult B w a) b = p1_mult B (p1_mult B w b) a"
  using assms
  by (intro p1_eqI [OF L]) (simp_all add: blst_simps d1_blind_sign mult.commute)

lemma scaled_pair:
  assumes L: "blst_laws B D" and w: "p1_in_g1 B w" and sig: "sig = p1_mult B w sk"
  shows "p1_mult B sig a = p1_mult B (p1_mult B w a) sk"
  using p1_mult_commute [OF L w] by (simp add: sig)

text \<open>
  C35: replay protection can be bypassed. The check looks at the pair of signature and
  witness only and never asks that the witness is the hash of a message, so a client that
  redeemed one credential multiplies both points by any scalar that changes the signature
  and redeems again, for the same class and epoch, without another issuance: the new
  nullifier is different, unless the two hash inputs are a SHA-256 collision.
\<close>

theorem rescaled_credential_accepted:
  assumes L: "blst_laws B D"
    and honest: "Consume B M InMemoryNullifierStore RI t1 t2 c1 sigHex witnessHex cl ep s = (r1, s1)"
      "accepted r1"
    and points: "decoded B sigHex sig" "decoded B witnessHex w" and a: "p1_mult B sig a \<noteq> sig"
    and unused: "nm_store (cs_store s) (ComputeNullifier B ep cl (p1_mult B sig a)) \<noteq> Some True"
    and live: "not_revoked RI t3 cl ep s" "cx_err c2 0 = None" "cx_err c2 1 = None"
  shows "accepted (fst (Consume B M InMemoryNullifierStore RI t3 t4 c2
      (hex_point B (p1_mult B sig a)) (hex_point B (p1_mult B w a)) cl ep s1)) \<or>
    sha256_collision (nullifier_preimage B ep cl sig) (nullifier_preimage B ep cl (p1_mult B sig a))"
proof -
  let ?sig' = "p1_mult B sig a" and ?w' = "p1_mult B w a"
  obtain sk where adm: "cl \<noteq> ''''" "ep \<noteq> ''''" "ep \<in> set (cf_SupportedEpochs (cs_config s))"
    and k: "service_key B M ep cl (cs_config s) = Inr sk" and sig: "sig = p1_mult B w sk"
    using Consume_accepted_iff [OF L] honest points decoded_unique by (metis fst_conv)
  note g = decoded_in [OF points(1)] and w = decoded_in [OF points(2)]
  have w': "p1_in_g1 B ?w'" and g': "p1_in_g1 B ?sig'" using L w g by (simp_all add: blst_simps)
  have s1: "s1 = snd (Consume B M InMemoryNullifierStore RI t1 t2 c1 sigHex witnessHex cl ep s)"
    using honest(1) by simp
  have keeps: "cs_revocationStore s1 = cs_revocationStore s"
    "cf_SupportedEpochs (cs_config s1) = cf_SupportedEpochs (cs_config s)"
    "service_key B M ep cl (cs_config s1) = Inr sk"
    using k by (simp_all add: s1 Consume_keeps)
  have ad: "admissible B M RI t3 c2 (hex_point B ?sig') (hex_point B ?w') cl ep s1 ?sig'"
    by (rule signed_pair_admissible [OF L w' scaled_pair [OF L w sig] keeps(3) _ live(2)])
      (simp add: consume_admit_None_iff adm keeps live(1) not_revoked_cong [OF keeps(1)])
  show ?thesis
  proof (cases "nm_store (cs_store s1) (ComputeNullifier B ep cl ?sig') = Some True")
    case False
    then show ?thesis using ad live(3) unfolding Consume_mem_accepted_iff by blast
  next
    case True
    then have "ComputeNullifier B ep cl ?sig' = ComputeNullifier B ep cl sig"
      unfolding s1 Consume_mem_store using unused points(1) decoded_unique by metis
    moreover have "nullifier_preimage B ep cl sig \<noteq> nullifier_preimage B ep cl ?sig'"
      using p1_serialize_inj [OF L g g'] a
      by (simp add: nullifier_preimage_def G1_Serialize_def)
    ultimately show ?thesis by (simp add: sha256_collision_def ComputeNullifier_def)
  qed
qed

lemma sample_accepts:
  "accepted (fst (Consume z3_blst plain_memguard InMemoryNullifierStore InMemoryRevocationStore
     0 0 background (hex_point z3_blst p) (hex_point z3_blst p) ''gold'' ''2026-01'' sample_service))"
proof -
  have "service_key z3_blst plain_memguard ''2026-01'' ''gold'' (cs_config sample_service) = Inr Z1"
    by (rule z3_service_key) simp_all
  moreover have "p = p1_mult z3_blst p Z1" by (cases p) (simp_all add: z3_ops)
  ultimately have "admissible z3_blst plain_memguard InMemoryRevocationStore 0 background
      (hex_point z3_blst p) (hex_point z3_blst p) ''gold'' ''2026-01'' sample_service p"
    by (intro signed_pair_admissible [OF z3_blst_laws _ _ _ sample_admit, where sk = Z1])
      (simp_all add: z3_ops background_def)
  then show ?thesis
    unfolding Consume_mem_accepted_iff
    by (auto simp: background_def NewInMemoryNullifierStore_def)
qed

theorem rescaled_credential_accepted_witness:
  "\<exists>r1 s1. Consume z3_blst plain_memguard InMemoryNullifierStore InMemoryRevocationStore 0 0
      background (hex_point z3_blst Z2) (hex_point z3_blst Z2) ''gold'' ''2026-01'' sample_service =
        (r1, s1) \<and> accepted r1 \<and>
    (accepted (fst (Consume z3_blst plain_memguard InMemoryNullifierStore InMemoryRevocationStore 0 0
       background (hex_point z3_blst Z1) (hex_point z3_blst Z1) ''gold'' ''2026-01'' s1)) \<or>
     sha256_collision (nullifier_preimage z3_blst ''2026-01'' ''gold'' Z2)
       (nullifier_preimage z3_blst ''2026-01'' ''gold'' Z1))"
proof -
  let ?C = "Consume z3_blst plain_memguard InMemoryNullifierStore InMemoryRevocationStore 0 0
      background (hex_point z3_blst Z2) (hex_point z3_blst Z2) ''gold'' ''2026-01'' sample_service"
  have d: "decoded z3_blst (hex_point z3_blst Z2) Z2"
    by (rule decoded_hex_point [OF z3_blst_laws]) (simp add: z3_ops)
  have nr: "not_revoked InMemoryRevocationStore 0 ''gold'' ''2026-01'' sample_service"
    using sample_admit [of 0] by (simp add: consume_admit_None_iff)
  have "accepted (fst (Consume z3_blst plain_memguard InMemoryNullifierStore InMemoryRevocationStore 0 0
       background (hex_point z3_blst (p1_mult z3_blst Z2 Z2)) (hex_point z3_blst (p1_mult z3_blst Z2 Z2))
       ''gold'' ''2026-01'' (snd ?C))) \<or>
     sha256_collision (nullifier_preimage z3_blst ''2026-01'' ''gold'' Z2)
       (nullifier_preimage z3_blst ''2026-01'' ''gold'' (p1_mult z3_blst Z2 Z2))"
    by (rule rescaled_credential_accepted [OF z3_blst_laws surjective_pairing sample_accepts d d _ _ nr])
      (simp_all add: z3_ops NewInMemoryNullifierStore_def background_def)
  then show ?thesis
    using sample_accepts [of Z2] by (intro exI [of _ "fst ?C"] exI [of _ "snd ?C"]) (simp add: z3_ops)
qed

text \<open>
  A credential nobody issued. The neutral element of the group passes the subgroup
  check, and as signature and as witness it satisfies the verification equation under every
  key. One redemption per class and supported epoch needs no issuance at all.
\<close>

lemma identity_credential_accepted:
  assumes L: "blst_laws B D" and z: "p1_in_g1 B z" "d1 D z = 0"
    and adm: "cl \<noteq> ''''" "ep \<noteq> ''''" "ep \<in> set (cf_SupportedEpochs (cs_config s))"
      "not_revoked RI t1 cl ep s" "service_key B M ep cl (cs_config s) = Inr sk"
    and live: "cx_err ctx 0 = None" "cx_err ctx 1 = None"
    and unused: "nm_store (cs_store s) (ComputeNullifier B ep cl z) \<noteq> Some True"
  shows "accepted (fst (Consume B M InMemoryNullifierStore RI t1 t2 ctx
      (hex_point B z) (hex_point B z) cl ep s))"
proof -
  have "d1 D (p1_mult B z sk) = d1 D z" using L z by (simp add: d1_mult)
  then have "z = p1_mult B z sk" using L z(1) by (intro p1_eqI [OF L]) (simp_all add: blst_simps)
  then have "admissible B M RI t1 ctx (hex_point B z) (hex_point B z) cl ep s z"
    by (rule signed_pair_admissible [OF L z(1) _ adm(5) _ live(1)])
      (simp add: consume_admit_None_iff adm)
  then show ?thesis unfolding Consume_mem_accepted_iff using live(2) unused by blast
qed

lemma identity_credential_accepted_witness:
  "accepted (fst (Consume z3_blst plain_memguard InMemoryNullifierStore InMemoryRevocationStore
     0 0 background (hex_point z3_blst Z0) (hex_point z3_blst Z0) ''gold'' ''2026-01'' sample_service))"
proof (rule identity_credential_accepted [OF z3_blst_laws])
  show "service_key z3_blst plain_memguard ''2026-01'' ''gold'' (cs_config sample_service) = Inr Z1"
    by (rule z3_service_key) simp_all
  show "not_revoked InMemoryRevocationStore 0 ''gold'' ''2026-01'' sample_service"
    using sample_admit [of 0] by (simp add: consume_admit_None_iff)
qed (simp_all add: z3_ops z3_dlog_def background_def NewInMemoryNullifierStore_def)

end
