(* ===== verification/JsonRoundTrip.thy ===== *)
theory JsonRoundTrip
  imports Json
begin

section \<open>What is printed as JSON is read back\<close>

text \<open>
  The scanner reads what the printer prints, for compact and for indented output; the
  decoder of string tokens inverts the escaping of valid UTF-8, and base64 decoding inverts
  the encoding.
\<close>

subsection \<open>Tokens\<close>

primrec str_run :: "nat \<Rightarrow> string \<Rightarrow> nat option" where
  "str_run e [] = Some e"
| "str_run e (c # cs) = (if e = 0 \<and> c = dquote then None
     else (case str_step e c of Some e' \<Rightarrow> str_run e' cs | None \<Rightarrow> None))"

definition good_token :: "string \<Rightarrow> bool" where
  "good_token raw \<longleftrightarrow> str_run 0 raw = Some 0"

primrec num_run :: "num_state \<Rightarrow> string \<Rightarrow> num_state option" where
  "num_run n [] = Some n"
| "num_run n (c # cs) = (case num_step n c of Some n' \<Rightarrow> num_run n' cs | None \<Rightarrow> None)"

definition num_start :: "char \<Rightarrow> num_state option" where
  "num_start c = (if c = CHR ''-'' then Some NNeg else if c = CHR ''0'' then Some NZero
     else if digit c then Some NInt else None)"

definition good_num :: "string \<Rightarrow> bool" where
  "good_num raw \<longleftrightarrow> (\<exists>c cs n n'. raw = c # cs \<and> num_start c = Some n \<and> num_run n cs = Some n' \<and> num_ok n')"

fun good_json :: "json \<Rightarrow> bool" where
  "good_json (JNum raw) = good_num raw"
| "good_json (JStr raw) = good_token raw"
| "good_json (JArr vs) = (\<forall>v \<in> set vs. good_json v)"
| "good_json (JObj ms) = (\<forall>m \<in> set ms. good_token (fst m) \<and> good_json (snd m))"
| "good_json _ = True"

fun json_depth :: "json \<Rightarrow> nat" where
  "json_depth (JArr vs) = Suc (fold max (map json_depth vs) 0)"
| "json_depth (JObj ms) = Suc (fold max (map (\<lambda>m. json_depth (snd m)) ms) 0)"
| "json_depth _ = 0"

lemma fold_max_le: "x \<in> set xs \<Longrightarrow> (x :: nat) \<le> fold max xs a"
  by (metis List.finite_set Max.set_eq_fold Max_ge list.set_intros(2) list.simps(15))

lemma depth_arr: "v \<in> set vs \<Longrightarrow> json_depth v < json_depth (JArr vs)"
  using fold_max_le [of "json_depth v" "map json_depth vs" 0] by (simp add: less_Suc_eq_le)

lemma depth_obj: "m \<in> set ms \<Longrightarrow> json_depth (snd m) < json_depth (JObj ms)"
  using fold_max_le [of "json_depth (snd m)" "map (\<lambda>m. json_depth (snd m)) ms" 0]
  by (simp add: less_Suc_eq_le)

subsection \<open>Running the scanner\<close>

lemma done_None [simp]:
  "json_done (MVal, fs) x = None" "json_done (MKey, fs) x = None" "json_done (MKeyOrEnd, fs) x = None"
  "json_done (MValOrEnd, fs) x = None" "json_done (MColon k, fs) x = None"
  "json_done (MStr e raw, fs) x = None" "json_done (MKeyStr e raw, fs) x = None"
  "json_done (MLit l v, fs) x = None"
  "json_done (m, f # fs) x = None"
  by (simp_all add: json_done_def split: json_mode.splits)

lemma run_done: "json_run rest (MEnd v, []) = Some (v, rest)"
  by (cases rest) (simp_all add: json_done_def)

lemma run_spaces:
  assumes "list_all json_space sp" and "m \<in> {MVal, MKey, MKeyOrEnd, MValOrEnd, MColon k} \<or> m = MEnd v \<and> fs \<noteq> []"
  shows "json_run (sp @ rest) (m, fs) = json_run rest (m, fs)"
  using assms by (induction sp) (auto simp: neq_Nil_conv)

lemma run_str:
  "str_run e raw = Some e' \<Longrightarrow> json_run (raw @ rest) (MStr e acc, fs) = json_run rest (MStr e' (acc @ raw), fs)"
  by (induction raw arbitrary: e acc) (auto split: if_splits option.splits)

lemma run_key:
  "str_run e raw = Some e' \<Longrightarrow> json_run (raw @ rest) (MKeyStr e acc, fs) = json_run rest (MKeyStr e' (acc @ raw), fs)"
  by (induction raw arbitrary: e acc) (auto split: if_splits option.splits)

definition delim :: "char \<Rightarrow> bool" where
  "delim c \<longleftrightarrow> json_space c \<or> c \<in> {CHR '','', CHR '']'', CHR ''}''}"

definition delim_first :: "string \<Rightarrow> bool" where
  "delim_first s \<longleftrightarrow> (\<exists>c cs. s = c # cs \<and> delim c)"

lemma num_step_delim: "delim c \<Longrightarrow> num_step n c = None"
proof -
  assume "delim c"
  then consider "c = CHR '' ''" | "c = CHR 0x09" | "c = CHR 0x0D" | "c = CHR 0x0A" | "c = CHR '',''" | "c = CHR '']''" | "c = CHR ''}''"
    by (auto simp: delim_def json_space_def)
  then show "num_step n c = None"
    by cases (cases n; simp add: in_range_def)+
qed

lemma run_num:
  "num_run n raw = Some n' \<Longrightarrow>
     json_run (raw @ rest) (MNum n acc, f # fs) = json_run rest (MNum n' (acc @ raw), f # fs)"
  by (induction raw arbitrary: n acc) (auto split: option.splits)

lemma run_num_end:
  "num_ok n \<Longrightarrow> delim_first rest \<Longrightarrow>
     json_run rest (MNum n raw, f # fs) = json_run rest (MEnd (JNum raw), f # fs)"
  by (auto simp: delim_first_def num_step_delim)

lemma digit_plain: "digit c \<Longrightarrow> c \<notin> {dquote, CHR ''{'', CHR ''['', CHR '']'', CHR ''-''} \<and> \<not> json_space c"
  by (auto simp: in_range_def json_space_def)

lemma num_start_cases:
  assumes "num_start c = Some n"
  obtains "c = CHR ''-''" "n = NNeg" | "c = CHR ''0''" "n = NZero"
    | "digit c" "c \<noteq> CHR ''0''" "n = NInt"
  using assms by (auto simp: num_start_def split: if_splits)

lemma num_start_plain: "num_start c = Some n \<Longrightarrow> c \<noteq> CHR '']'' \<and> \<not> json_space c"
  by (erule num_start_cases) (use digit_plain in \<open>auto simp: json_space_def\<close>)

lemma num_start_begin: "num_start c = Some n \<Longrightarrow> begin_value fs c = (MNum n [c], fs)"
  by (erule num_start_cases) (use digit_plain in \<open>auto simp: begin_value_def\<close>)

subsection \<open>Printed values\<close>

locale json_layout =
  fixes nl :: "nat \<Rightarrow> string" and col :: string and sp :: string
  assumes nl_space: "list_all json_space (nl d)"
    and col_colon: "col = CHR '':'' # sp" and sp_space: "list_all json_space sp"
begin

abbreviation "print \<equiv> json_print nl col"

text \<open>Reading a value back, whatever surrounds it; a number needs something that ends it.\<close>

definition reads :: "json \<Rightarrow> bool" where
  "reads v \<longleftrightarrow> (\<forall>d fs rest. length fs + json_depth v \<le> max_nesting \<longrightarrow>
     (\<forall>raw. v = JNum raw \<longrightarrow> fs \<noteq> [] \<and> delim_first rest) \<longrightarrow>
     json_run (print d v @ rest) (MVal, fs) = json_run rest (MEnd v, fs))"

lemma readsD:
  "reads v \<Longrightarrow> fs \<noteq> [] \<Longrightarrow> length fs + json_depth v \<le> max_nesting \<Longrightarrow> delim_first rest \<Longrightarrow>
     json_run (print d v @ rest) (MVal, fs) = json_run rest (MEnd v, fs)"
  unfolding reads_def by blast

lemma reads_JStr: "good_token raw \<Longrightarrow> reads (JStr raw)"
  using run_str [of 0 raw 0]
  by (simp add: reads_def good_token_def json_space_def begin_value_def)

lemma reads_lit: "reads JNull" "reads (JBool b)"
  by (auto simp: reads_def json_space_def begin_value_def in_range_def)

lemma reads_JNum:
  assumes "good_num raw"
  shows "reads (JNum raw)"
proof -
  obtain c cs n n' where raw: "raw = c # cs" and n: "num_start c = Some n"
    and r: "num_run n cs = Some n'" and k: "num_ok n'"
    using assms by (auto simp: good_num_def)
  have "json_run (raw @ rest) (MVal, f # fs) = json_run rest (MEnd (JNum raw), f # fs)"
    if "delim_first rest" for rest f fs
  proof -
    have "json_step (MVal, f # fs) c = (MNum n [c], f # fs)"
      using num_start_plain [OF n] num_start_begin [OF n] by simp
    then show ?thesis
      using run_num [OF r, of rest "[c]" f fs] run_num_end [OF k that] by (simp add: raw)
  qed
  then show ?thesis by (auto simp: reads_def neq_Nil_conv)
qed

lemma delim_first_nl: "delim c \<Longrightarrow> delim_first (nl d @ c # rest)"
  using nl_space [of d] by (cases "nl d") (auto simp: delim_first_def delim_def)

lemma run_key_value:
  assumes "good_token k" and "reads v" and "Suc (length fs) + json_depth v \<le> max_nesting" and "delim_first rest"
    and "m \<in> {MKey, MKeyOrEnd}"
  shows "json_run (nl d @ dquote # k @ dquote # col @ print d v @ rest) (m, InObj ms # fs) =
    json_run rest (MEnd v, InMember ms k # fs)"
proof -
  have "json_run (print d v @ rest) (MVal, InMember ms k # fs) = json_run rest (MEnd v, InMember ms k # fs)"
    using assms(3,4) by (intro readsD [OF assms(2)]) simp_all
  moreover have "json_run (nl d @ dquote # k @ dquote # col @ print d v @ rest) (m, InObj ms # fs) =
      json_run (dquote # k @ dquote # col @ print d v @ rest) (m, InObj ms # fs)"
    using assms(5) by (intro run_spaces [OF nl_space]) auto
  moreover have "\<dots> = json_run (k @ dquote # col @ print d v @ rest) (MKeyStr 0 [], InObj ms # fs)"
    using assms(5) by (elim insertE emptyE) (simp_all add: json_space_def)
  moreover have "\<dots> = json_run (dquote # col @ print d v @ rest) (MKeyStr 0 k, InObj ms # fs)"
    using run_key [OF assms(1) [unfolded good_token_def], where acc = "[]"] by simp
  moreover have "\<dots> = json_run (sp @ print d v @ rest) (MVal, InMember ms k # fs)"
    by (simp add: col_colon json_space_def)
  moreover have "\<dots> = json_run (print d v @ rest) (MVal, InMember ms k # fs)"
    by (rule run_spaces [OF sp_space]) simp
  ultimately show ?thesis by simp
qed

lemma run_members:
  assumes "\<And>m. m \<in> set ms \<Longrightarrow> good_token (fst m) \<and> reads (snd m) \<and>
      Suc (length fs) + json_depth (snd m) \<le> max_nesting"
    and "delim_first rest"
  shows "json_run (concat (map (\<lambda>(k, v). CHR '','' # nl d @ dquote # k @ dquote # col @ print d v) ms) @ rest)
      (MEnd v0, InMember acc k0 # fs) =
    (let xs = acc @ (k0, v0) # ms
     in json_run rest (MEnd (snd (last xs)), InMember (butlast xs) (fst (last xs)) # fs))"
  using assms(1)
proof (induction ms arbitrary: acc k0 v0)
  case (Cons m ms)
  obtain k v where m: "m = (k, v)" by (cases m)
  let ?tail = "concat (map (\<lambda>(k, v). CHR '','' # nl d @ dquote # k @ dquote # col @ print d v) ms) @ rest"
  have "delim_first ?tail" using assms(2) by (cases ms) (auto simp: delim_first_def delim_def split_beta)
  then have "json_run (nl d @ dquote # k @ dquote # col @ print d v @ ?tail) (MKey, InObj (acc @ [(k0, v0)]) # fs) =
      json_run ?tail (MEnd v, InMember (acc @ [(k0, v0)]) k # fs)"
    using Cons.prems [of m] m by (intro run_key_value) simp_all
  moreover have "json_run ?tail (MEnd v, InMember (acc @ [(k0, v0)]) k # fs) =
      (let xs = (acc @ [(k0, v0)]) @ (k, v) # ms
       in json_run rest (MEnd (snd (last xs)), InMember (butlast xs) (fst (last xs)) # fs))"
    by (rule Cons.IH) (use Cons.prems in simp)
  ultimately show ?case by (simp add: m json_space_def Let_def)
qed (simp add: Let_def)

lemma run_elems:
  assumes "\<And>v. v \<in> set vs \<Longrightarrow> reads v \<and> Suc (length fs) + json_depth v \<le> max_nesting"
    and "delim_first rest"
  shows "json_run (concat (map (\<lambda>v. CHR '','' # nl d @ print d v) vs) @ rest) (MEnd v0, InArr acc # fs) =
    (let xs = acc @ v0 # vs in json_run rest (MEnd (last xs), InArr (butlast xs) # fs))"
  using assms(1)
proof (induction vs arbitrary: acc v0)
  case (Cons v vs)
  let ?tail = "concat (map (\<lambda>v. CHR '','' # nl d @ print d v) vs) @ rest"
  have t: "delim_first ?tail" using assms(2) by (cases vs) (auto simp: delim_first_def delim_def)
  have "json_run (nl d @ print d v @ ?tail) (MVal, InArr (acc @ [v0]) # fs) =
      json_run (print d v @ ?tail) (MVal, InArr (acc @ [v0]) # fs)"
    by (rule run_spaces [OF nl_space]) simp
  also have "\<dots> = json_run ?tail (MEnd v, InArr (acc @ [v0]) # fs)"
    using Cons.prems [of v] t by (intro readsD) simp_all
  also have "\<dots> = (let xs = (acc @ [v0]) @ v # vs in json_run rest (MEnd (last xs), InArr (butlast xs) # fs))"
    by (rule Cons.IH) (use Cons.prems in simp)
  finally show ?case by (simp add: json_space_def Let_def)
qed (simp add: Let_def)

lemma reads_JObj:
  assumes "\<And>m. m \<in> set ms \<Longrightarrow> good_token (fst m) \<and> reads (snd m)"
  shows "reads (JObj ms)"
  unfolding reads_def
proof (intro allI impI)
  fix d rest and fs :: "json_frame list"
  assume depth: "length fs + json_depth (JObj ms) \<le> max_nesting"
  have lt: "length fs < max_nesting" using depth by simp
  show "json_run (print d (JObj ms) @ rest) (MVal, fs) = json_run rest (MEnd (JObj ms), fs)"
  proof (cases ms)
    case Nil
    then show ?thesis using lt by (simp add: json_space_def begin_value_def json_push_def)
  next
    case (Cons m ms')
    obtain k v where m: "m = (k, v)" by (cases m)
    have dep: "Suc (length fs) + json_depth (snd x) \<le> max_nesting" if "x \<in> set ms" for x
      using depth_obj [OF that] depth by simp
    let ?closing = "nl d @ CHR ''}'' # rest"
    let ?tail = "concat (map (\<lambda>(k, v). CHR '','' # nl (Suc d) @ dquote # k @ dquote # col @
      print (Suc d) v) ms') @ ?closing"
    have e: "delim_first ?closing" by (rule delim_first_nl) (simp add: delim_def)
    then have t: "delim_first ?tail" by (cases ms') (auto simp: delim_first_def delim_def split_beta)
    have "json_run (nl (Suc d) @ dquote # k @ dquote # col @ print (Suc d) v @ ?tail) (MKeyOrEnd, InObj [] # fs) =
        json_run ?tail (MEnd v, InMember [] k # fs)"
      using assms [of m] dep [of m] Cons m t by (intro run_key_value) simp_all
    also have "\<dots> = (let xs = [] @ (k, v) # ms'
        in json_run ?closing (MEnd (snd (last xs)), InMember (butlast xs) (fst (last xs)) # fs))"
      by (rule run_members) (use assms dep Cons e in auto)
    also have "\<dots> = json_run (CHR ''}'' # rest) (MEnd (snd (last ms)), InMember (butlast ms) (fst (last ms)) # fs)"
      using run_spaces [OF nl_space, where fs = "InMember (butlast ms) (fst (last ms)) # fs"] by (simp add: Let_def Cons m)
    also have "\<dots> = json_run rest (MEnd (JObj ms), fs)"
      by (simp add: json_space_def Cons)
    finally show ?thesis
      using lt by (simp add: Cons m json_space_def begin_value_def json_push_def)
  qed
qed

lemma print_head:
  assumes "good_json v"
  obtains c cs where "print d v = c # cs" "c \<noteq> CHR '']''" "\<not> json_space c"
proof (cases v)
  case (JNum raw)
  then show thesis
    using assms that by (auto simp: good_num_def dest: num_start_plain)
next
  case (JArr vs)
  then show thesis using that by (cases vs) (auto simp: json_space_def)
next
  case (JObj ms)
  then show thesis using that by (cases ms) (auto simp: json_space_def)
next
  case (JBool b)
  then show thesis using that by (cases b) (auto simp: json_space_def)
qed (use that in \<open>auto simp: json_space_def\<close>)

lemma first_elem:
  "good_json v \<Longrightarrow> json_run (print d v @ rest) (MValOrEnd, fs) = json_run (print d v @ rest) (MVal, fs)"
  by (rule print_head [of v d]) simp_all

lemma reads_JArr:
  assumes "\<And>v. v \<in> set vs \<Longrightarrow> good_json v \<and> reads v"
  shows "reads (JArr vs)"
  unfolding reads_def
proof (intro allI impI)
  fix d rest and fs :: "json_frame list"
  assume depth: "length fs + json_depth (JArr vs) \<le> max_nesting"
  have lt: "length fs < max_nesting" using depth by simp
  show "json_run (print d (JArr vs) @ rest) (MVal, fs) = json_run rest (MEnd (JArr vs), fs)"
  proof (cases vs)
    case Nil
    then show ?thesis using lt by (simp add: json_space_def begin_value_def json_push_def)
  next
    case (Cons v vs')
    have dep: "Suc (length fs) + json_depth x \<le> max_nesting" if "x \<in> set vs" for x
      using depth_arr [OF that] depth by simp
    let ?closing = "nl d @ CHR '']'' # rest"
    let ?tail = "concat (map (\<lambda>v. CHR '','' # nl (Suc d) @ print (Suc d) v) vs') @ ?closing"
    have e: "delim_first ?closing" by (rule delim_first_nl) (simp add: delim_def)
    then have t: "delim_first ?tail" by (cases vs') (auto simp: delim_first_def delim_def)
    have "json_run (nl (Suc d) @ print (Suc d) v @ ?tail) (MValOrEnd, InArr [] # fs) =
        json_run (print (Suc d) v @ ?tail) (MValOrEnd, InArr [] # fs)"
      by (rule run_spaces [OF nl_space]) simp
    also have "\<dots> = json_run (print (Suc d) v @ ?tail) (MVal, InArr [] # fs)"
      using assms [of v] Cons by (intro first_elem) simp
    also have "\<dots> = json_run ?tail (MEnd v, InArr [] # fs)"
      using assms [of v] dep [of v] Cons t by (intro readsD) simp_all
    also have "\<dots> = (let xs = [] @ v # vs' in json_run ?closing (MEnd (last xs), InArr (butlast xs) # fs))"
      by (rule run_elems) (use assms dep Cons e in auto)
    also have "\<dots> = json_run (CHR '']'' # rest) (MEnd (last vs), InArr (butlast vs) # fs)"
      using run_spaces [OF nl_space, where fs = "InArr (butlast vs) # fs"] by (simp add: Let_def Cons)
    also have "\<dots> = json_run rest (MEnd (JArr vs), fs)"
      by (simp add: json_space_def Cons)
    finally show ?thesis
      using lt by (simp add: Cons json_space_def begin_value_def json_push_def)
  qed
qed

lemma good_reads: "good_json v \<Longrightarrow> reads v"
proof (induction v rule: json.induct)
  case (JArr vs)
  then show ?case by (intro reads_JArr) auto
next
  case (JObj ms)
  then show ?case by (intro reads_JObj) (auto simp: split_beta)
qed (auto intro: reads_lit reads_JNum reads_JStr)

text \<open>A container is read back as a whole, and leaves what follows it.\<close>

lemma print_first:
  assumes "good_json v" and "json_depth v \<le> max_nesting" and "\<And>raw. v \<noteq> JNum raw"
  shows "json_first (print 0 v @ rest) = Some (v, rest)"
proof -
  have "json_run (print 0 v @ rest) (MVal, []) = json_run rest (MEnd v, [])"
    using good_reads [OF assms(1)] assms(2,3) unfolding reads_def by fastforce
  then show ?thesis by (simp add: json_first_def run_done)
qed

end

interpretation compact: json_layout "\<lambda>_. []" "'':''" "[]"
  by unfold_locales simp_all

interpretation indented: json_layout "\<lambda>d. CHR 0x0A # replicate (2 * d) CHR '' ''" "'': ''" "'' ''"
  by unfold_locales (simp_all add: json_space_def list_all_iff)

lemma Marshal_first:
  "good_json v \<Longrightarrow> json_depth v \<le> max_nesting \<Longrightarrow> (\<And>raw. v \<noteq> JNum raw) \<Longrightarrow>
     json_first (Marshal v @ rest) = Some (v, rest)"
  unfolding Marshal_def by (rule compact.print_first)

lemma MarshalIndent_whole:
  "good_json v \<Longrightarrow> json_depth v \<le> max_nesting \<Longrightarrow> (\<And>raw. v \<noteq> JNum raw) \<Longrightarrow>
     json_whole (MarshalIndent v) = Some v"
  using indented.print_first [of v "[]"] by (simp add: MarshalIndent_def json_whole_def)

subsection \<open>Strings\<close>

lemma rune_len_cases:
  assumes "0 < rune_len s"
  obtains a b t where "s = a # b # t" "rune_len s = 2" "in_range 194 223 a" "in_range 128 191 b"
  | a b c t where "s = a # b # c # t" "rune_len s = 3" "in_range 224 239 a"
      "in_range (if of_char a = (224::nat) then 160 else 128) (if of_char a = (237::nat) then 159 else 191) b"
      "in_range 128 191 c"
  | a b c d t where "s = a # b # c # d # t" "rune_len s = 4" "in_range 240 244 a"
      "in_range (if of_char a = (240::nat) then 144 else 128) (if of_char a = (244::nat) then 143 else 191) b"
      "in_range 128 191 c" "in_range 128 191 d"
proof -
  obtain a b t where s: "s = a # b # t" using assms by (cases s rule: rune_len.cases) auto
  have n2: "in_range 194 223 a \<Longrightarrow> \<not> in_range 224 239 a" "in_range 194 223 a \<Longrightarrow> \<not> in_range 240 244 a"
    "in_range 224 239 a \<Longrightarrow> \<not> in_range 240 244 a"
    by (auto simp: in_range_def)
  show thesis
  proof (cases "in_range 194 223 a")
    case True
    then show thesis using that(1) [of a b t] assms s by (simp split: if_splits)
  next
    case F1: False
    show thesis
    proof (cases "in_range 224 239 a")
      case True
      show thesis using that(2) assms s F1 True by (cases t) (simp_all split: if_splits)
    next
      case False
      show thesis
      proof (cases t)
        case (Cons c t')
        then show thesis using that(3) assms s F1 False by (cases t') (simp_all split: if_splits)
      qed (use assms s F1 False in \<open>simp split: if_splits\<close>)
    qed
  qed
qed

lemma rune_len_take:
  assumes "0 < rune_len s"
  shows "rune_len (take (rune_len s) s @ rest) = rune_len s" and "rune_len s \<le> length s"
    and "\<forall>x \<in> set (take (rune_len s) s). \<not> is_ascii x"
proof -
  have "rune_len (take (rune_len s) s @ rest) = rune_len s \<and> rune_len s \<le> length s \<and>
      (\<forall>x \<in> set (take (rune_len s) s). \<not> is_ascii x)"
    using assms
  proof (cases rule: rune_len_cases)
    case (1 a b t)
    have e: "take (rune_len s) s = [a, b]" using 1 by simp
    show ?thesis unfolding e 1(2) using 1 by (auto simp: in_range_def)
  next
    case (2 a b c t)
    have e: "take (rune_len s) s = [a, b, c]" using 2 by simp
    show ?thesis unfolding e 2(2) using 2 by (auto simp: in_range_def split: if_splits)
  next
    case (3 a b c d t)
    have e: "take (rune_len s) s = [a, b, c, d]" using 3 by simp
    show ?thesis unfolding e 3(2) using 3 by (auto simp: in_range_def split: if_splits)
  qed
  then show "rune_len (take (rune_len s) s @ rest) = rune_len s" and "rune_len s \<le> length s"
    and "\<forall>x \<in> set (take (rune_len s) s). \<not> is_ascii x" by simp_all
qed


lemma str_run_append: "str_run e (xs @ ys) = Option.bind (str_run e xs) (\<lambda>e. str_run e ys)"
  by (induction xs arbitrary: e) (auto split: option.splits)

lemma str_run_plain:
  "\<forall>c \<in> set xs. c \<noteq> dquote \<and> c \<noteq> backslash \<and> 32 \<le> (of_char c :: nat) \<Longrightarrow> str_run 0 xs = Some 0"
  by (induction xs) (auto simp: str_step_def)

lemma not_ascii_plain: "\<not> is_ascii c \<Longrightarrow> c \<noteq> dquote \<and> c \<noteq> backslash \<and> 32 \<le> (of_char c :: nat)"
  by auto

lemma hex_digit_ok: "from_hex (hex_digit n) = Some (n mod 16)"
  using from_hex_hex_digit [of "n mod 16"] by (simp add: hex_digit_def)

lemma from_hex_literals [simp]:
  "from_hex (CHR ''0'') = Some 0" "from_hex (CHR ''2'') = Some 2" "from_hex (CHR ''8'') = Some 8"
  "from_hex (CHR ''9'') = Some 9" "from_hex (CHR ''f'') = Some 15" "from_hex (CHR ''d'') = Some 13"
  by (simp_all add: from_hex_def)

lemma good_escape_ascii: "str_run 0 (escape_ascii c) = Some 0"
  by (auto simp: escape_ascii_def html_safe_def str_step_def simple_escape_def hex_digit_ok)

lemma good_escape_rune: "\<forall>x \<in> set r. \<not> is_ascii x \<Longrightarrow> str_run 0 (escape_rune r) = Some 0"
proof -
  assume r: "\<forall>x \<in> set r. \<not> is_ascii x"
  have "str_run 0 r = Some 0"
    by (rule str_run_plain) (use r not_ascii_plain in blast)
  then show ?thesis by (simp add: escape_rune_def str_step_def)
qed

lemma good_json_escape: "good_token (json_escape s)"
  unfolding good_token_def
proof (induction s rule: json_escape.induct)
  case (2 c cs)
  have n: "str_run 0 (escape_rune (take (rune_len (c # cs)) (c # cs))) = Some 0" if "rune_len (c # cs) \<noteq> 0"
    by (rule good_escape_rune) (use rune_len_take(3) [of "c # cs"] that in simp)
  show ?case
    using 2 n by (simp add: json_escape.simps str_run_append good_escape_ascii Let_def str_step_def del: take_Cons')
qed (simp add: json_escape.simps)

lemma unquote_ascii: "is_ascii c \<Longrightarrow> c \<noteq> backslash \<Longrightarrow> unquote (c # rest) = c # unquote rest"
  by (simp add: unquote.simps)

lemma unquote_escape_ascii:
  assumes "is_ascii c"
  shows "unquote (escape_ascii c @ rest) = c # unquote rest"
proof -
  have h: "unquote ([backslash, CHR ''u'', CHR ''0'', CHR ''0'', hex_digit (of_char c div 16), hex_digit (of_char c)] @ rest) =
      c # unquote rest"
  proof -
    have "(of_char c :: nat) div 16 mod 16 * 16 + of_char c mod 16 = of_char c"
      using assms by simp
    then show ?thesis
      using assms by (simp add: unquote.simps hex_digit_ok append_rune_def)
  qed
  show ?thesis
  proof (cases "html_safe c")
    case True
    then show ?thesis using assms by (simp add: escape_ascii_def html_safe_def unquote_ascii)
  next
    case unsafe: False
    show ?thesis
    proof (cases "c \<in> {backslash, dquote, CHR 0x08, CHR 0x0C, CHR 0x0A, CHR 0x0D, CHR 0x09}")
      case True
      then show ?thesis
        by (elim insertE emptyE) (simp_all add: unquote.simps escape_ascii_def html_safe_def simple_escape_def)
    next
      case False
      then have "escape_ascii c = [backslash, CHR ''u'', CHR ''0'', CHR ''0'',
          hex_digit (of_char c div 16), hex_digit (of_char c)]"
        using unsafe by (simp add: escape_ascii_def)
      then show ?thesis using h by simp
    qed
  qed
qed

lemma unquote_rune:
  assumes "\<not> is_ascii c" and "0 < rune_len (c # cs)"
  shows "unquote (c # cs) = take (rune_len (c # cs)) (c # cs) @ unquote (drop (rune_len (c # cs) - 1) cs)"
  using assms by (auto simp: unquote.simps Let_def)

lemma unquote_escape_rune:
  assumes "0 < rune_len s"
  shows "unquote (escape_rune (take (rune_len s) s) @ rest) = take (rune_len s) s @ unquote rest"
proof -
  let ?r = "take (rune_len s) s"
  have len: "length ?r = rune_len s" using rune_len_take(2) [OF assms] by simp
  obtain c cs where r: "?r = c # cs" using len assms by (cases ?r) auto
  have "\<not> is_ascii c" using rune_len_take(3) [OF assms] r by simp
  moreover have n: "rune_len (c # (cs @ rest)) = rune_len s"
    using rune_len_take(1) [OF assms, of rest] r by simp
  moreover have "rune_len s = Suc (length cs)" using len r by simp
  ultimately have plain: "unquote (?r @ rest) = ?r @ unquote rest"
    using unquote_rune [of c "cs @ rest"] assms r by simp
  show ?thesis
  proof (cases "?r = map char_of [226, 128, 168 :: nat] \<or> ?r = map char_of [226, 128, 169 :: nat]")
    case True
    then show ?thesis
      by (elim disjE) (simp_all add: unquote.simps escape_rune_def append_rune_def)
  next
    case False
    then show ?thesis using plain by (simp add: escape_rune_def)
  qed
qed

lemma unquote_json_escape_coerces: "unquote (json_escape s) = coerce_utf8 s"
proof (induction s rule: coerce_utf8.induct)
  case (2 c cs)
  let ?n = "rune_len (c # cs)"
  consider (ascii) "is_ascii c" | (bad) "\<not> is_ascii c" "?n = 0" | (rune) "\<not> is_ascii c" "0 < ?n" by blast
  then show ?case
  proof cases
    case ascii
    then show ?thesis using 2 by (simp add: json_escape.simps unquote_escape_ascii)
  next
    case bad
    have "unquote (backslash # ''ufffd'' @ t) = replacement @ unquote t" for t
      by (simp add: unquote.simps append_rune_def replacement_def)
    then show ?thesis using 2(2) [OF bad(1) refl bad(2)] bad by (simp add: json_escape.simps coerce_utf8.simps Let_def)
  next
    case rune
    have "unquote (json_escape (c # cs)) = take ?n (c # cs) @ unquote (json_escape (drop (?n - 1) cs))"
      using rune unquote_escape_rune [OF rune(2)] by (simp add: json_escape.simps Let_def del: take_Cons')
    then show ?thesis
      using 2(3) [OF rune(1) refl] rune by (simp add: coerce_utf8.simps Let_def del: take_Cons')
  qed
qed (simp add: json_escape.simps unquote.simps)

lemma unquote_json_escape: "valid_utf8 s \<Longrightarrow> unquote (json_escape s) = s"
  by (simp add: unquote_json_escape_coerces coerce_utf8_valid)

text \<open>ASCII text is valid, and so is everything the encoders of the program produce.\<close>

lemma valid_utf8_ascii: "\<forall>c \<in> set s. is_ascii c \<Longrightarrow> valid_utf8 s"
  by (induction s) simp_all

lemma ascii_hex_encode: "\<forall>c \<in> set (hex_encode bs). is_ascii c"
proof -
  have d: "is_ascii (hex_digit n)" for n
    using from_hex_bound [OF hex_digit_ok] by (auto simp: hex_digit_ok dest: arg_cong [of _ _ from_hex])
      (use hex_digit_ok [of n] in \<open>auto simp: from_hex_def Let_def split: if_splits\<close>)
  show ?thesis by (induction bs) (simp_all add: d)
qed

subsection \<open>Base64\<close>

lemma byte_parts:
  "(of_char c :: nat) div 4 < 64" "(of_char c :: nat) div 16 < 16" "(of_char c :: nat) div 64 < 4"
  "(of_char c :: nat) div 16 div 16 = 0" "(of_char c :: nat) div 64 div 4 = 0"
  using nat_of_char_less_256 [of c] by (simp_all add: less_mult_imp_div_less div_mult2_eq [symmetric])

lemma sextets:
  "(of_char a :: nat) mod 4 * 16 + of_char b div 16 < 64" "(of_char a :: nat) mod 4 * 16 < 64"
  "(of_char b :: nat) mod 16 * 4 + of_char c div 64 < 64" "(of_char b :: nat) mod 16 * 4 < 64"
  "(of_char c :: nat) mod 64 < 64"
proof -
  have "(of_char a :: nat) mod 4 < 4" "(of_char b :: nat) mod 16 < 16" by simp_all
  then show "(of_char a :: nat) mod 4 * 16 + of_char b div 16 < 64" "(of_char a :: nat) mod 4 * 16 < 64"
    "(of_char b :: nat) mod 16 * 4 + of_char c div 64 < 64" "(of_char b :: nat) mod 16 * 4 < 64"
    "(of_char c :: nat) mod 64 < 64"
    using byte_parts(2) [of b] byte_parts(3) [of c] by linarith+
qed

lemma byte_joins:
  "char_of ((of_char a :: nat) div 4 * 4 + (of_char a mod 4 * 16 + of_char b div 16) div 16) = a"
  "char_of ((of_char a :: nat) div 4 * 4 + (of_char a mod 4 * 16) div 16) = a"
  "char_of ((of_char a mod 4 * 16 + (of_char b :: nat) div 16) mod 16 * 16 + (of_char b mod 16 * 4 + of_char c div 64) div 4) = b"
  "char_of ((of_char a mod 4 * 16 + (of_char b :: nat) div 16) mod 16 * 16 + (of_char b mod 16 * 4) div 4) = b"
  "char_of ((of_char b mod 16 * 4 + (of_char c :: nat) div 64) mod 4 * 64 + of_char c mod 64) = c"
proof -
  have d: "(x mod 4 * 16 + y div 16) div 16 = x mod 4 + y div 16 div 16"
    "(y mod 16 * 4 + z div 64) div 4 = y mod 16 + z div 64 div 4" for x y z :: nat by simp_all
  have m: "(x mod 4 * 16 + y div 16) mod 16 = y div 16" if "y div 16 < 16" for x y :: nat using that by simp
  have m': "(y mod 16 * 4 + z div 64) mod 4 = z div 64" if "z div 64 < 4" for y z :: nat using that by simp
  show "char_of ((of_char a :: nat) div 4 * 4 + (of_char a mod 4 * 16 + of_char b div 16) div 16) = a"
    "char_of ((of_char a :: nat) div 4 * 4 + (of_char a mod 4 * 16) div 16) = a"
    "char_of ((of_char a mod 4 * 16 + (of_char b :: nat) div 16) mod 16 * 16 + (of_char b mod 16 * 4 + of_char c div 64) div 4) = b"
    "char_of ((of_char a mod 4 * 16 + (of_char b :: nat) div 16) mod 16 * 16 + (of_char b mod 16 * 4) div 4) = b"
    "char_of ((of_char b mod 16 * 4 + (of_char c :: nat) div 64) mod 4 * 64 + of_char c mod 64) = c"
    by (simp_all only: d m [OF byte_parts(2)] m' [OF byte_parts(3)] byte_parts(4,5)) simp_all
qed

lemma b64_quads_encode: "b64_quads (b64_encode bs) = Some bs"
  by (induction bs rule: b64_encode.induct)
    (simp_all only: b64_encode.simps b64_quads.simps Let_def append.simps b64_val_char [OF byte_parts(1)]
      b64_val_char [OF sextets(1)] b64_val_char [OF sextets(2)] b64_val_char [OF sextets(3)]
      b64_val_char [OF sextets(4)] b64_val_char [OF sextets(5)] option.case if_False if_True
      b64_char_plain [OF sextets(3), THEN conjunct1] b64_char_plain [OF sextets(4), THEN conjunct1]
      b64_char_plain [OF sextets(5), THEN conjunct1] byte_joins option.map simp_thms prod.case)

lemma b64_encode_plain:
  "\<forall>c \<in> set (b64_encode bs). c \<noteq> CHR 0x0A \<and> c \<noteq> CHR 0x0D \<and> is_ascii c"
  by (induction bs rule: b64_encode.induct)
    (simp_all add: Let_def b64_char_plain byte_parts(1) sextets)

lemma b64_decode_encode: "b64_decode (b64_encode bs) = Some bs"
proof -
  have "filter (\<lambda>c. c \<noteq> CHR 0x0A \<and> c \<noteq> CHR 0x0D) (b64_encode bs) = b64_encode bs"
    using b64_encode_plain [of bs] by (simp add: filter_id_conv)
  then show ?thesis by (simp add: b64_decode_def b64_quads_encode)
qed

lemma json_escape_safe: "\<forall>c \<in> set s. html_safe c \<and> is_ascii c \<Longrightarrow> json_escape s = s"
  by (induction s) (simp_all add: json_escape.simps escape_ascii_def)

subsection \<open>Objects of a struct\<close>

lemma good_json_string: "good_json (json_string s)" "json_depth (json_string s) = 0"
  by (simp_all add: json_string_def good_json_escape)

lemma fold_max_bound: "(\<forall>x \<in> set xs. x \<le> n) \<Longrightarrow> a \<le> n \<Longrightarrow> fold max xs a \<le> (n :: nat)"
  by (induction xs arbitrary: a) auto

lemma good_json_object:
  assumes "\<forall>m \<in> set ms. good_json (snd m) \<and> json_depth (snd m) \<le> n"
  shows "good_json (json_object ms) \<and> json_depth (json_object ms) \<le> Suc n"
proof -
  have "fold max (map (\<lambda>m. json_depth (snd m)) ms) 0 \<le> n"
    using assms by (intro fold_max_bound) auto
  then show ?thesis
    using assms by (auto simp: json_object_def good_json_escape split_beta comp_def)
qed

lemma struct_members_printed:
  assumes "\<forall>m \<in> set ms. fst m \<in> set names \<and> valid_utf8 (fst m)"
  shows "struct_members names (map (\<lambda>(k, v). (json_escape k, v)) ms) = ms"
  using assms by (induction ms) (auto simp: struct_members_def struct_field_def unquote_json_escape List.map_filter_simps)

end
