(* ===== verification/Api.thy ===== *)
theory Api
  imports Middleware Protocol JsonRoundTrip
begin

section \<open>Properties of the HTTP interface\<close>

text \<open>
  What the composition of routes, middlewares, handlers and service guarantees: who reaches
  the protected handlers, what each kind of response is, that every handler answers, and what
  replay protection and revocation mean for the statuses a client sees.
\<close>

subsection \<open>The chain of middlewares\<close>

text \<open>What a limited route does: it stops at the request id, at the limiter, or serves.\<close>

definition rate_limited ::
    "('p1, 'p2, 's, 'ml, 'e, 'n, 'r, 'l) deps \<Rightarrow> io \<Rightarrow> request \<Rightarrow> ('p1, 'e, 'n, 'r, 'l) server \<Rightarrow>
     bool \<times> ('p1, 'e, 'n, 'r, 'l) server" where
  "rate_limited D io r s =
     (let (allowed, rl) = Allow (dp_rate D) (io_order io) (io_now io 1) (io_now io 2) (io_now io 3)
            (client_ip r) (srv_rateLimiter s)
      in (allowed, s\<lparr>srv_rateLimiter := rl\<rparr>))"

definition inner_request :: "go_context \<Rightarrow> request \<Rightarrow> request" where
  "inner_request ctx r = MaxBytesReader (2 ^ 20) (r\<lparr>rq_ctx := ctx\<rparr>)"

definition inner_writer :: "string \<Rightarrow> writer \<Rightarrow> writer" where
  "inner_writer reqID w = newResponseWriter (Header_Set ''X-Request-Id'' reqID w)"

definition recorded ::
    "io \<Rightarrow> request \<Rightarrow> nat \<Rightarrow> ('p1, 'e, 'n, 'r, 'l) server \<Rightarrow> ('p1, 'e, 'n, 'r, 'l) server" where
  "recorded io r st s =
     with_metrics (RecordHTTPRequest (rq_Method r) (rq_Path r) st (io_now io 9 - io_now io 0)) s"

abbreviation too_many :: "goerr option" where
  "too_many \<equiv> Some (apperr_New CodeTooManyRequest ''rate limit exceeded'')"

abbreviation recovered :: "goerr option" where
  "recovered \<equiv> Some (apperr_New CodeInternal ''internal server error'')"

lemma client_ip_ctx [simp]: "client_ip (r\<lparr>rq_ctx := ctx\<rparr>) = client_ip r"
  by (simp add: client_ip_def Header_Get_def Let_def cong: option.case_cong)

lemma rate_limited_ctx [simp]:
  "rate_limited D io (r\<lparr>rq_ctx := ctx\<rparr>) s = rate_limited D io r s"
  by (simp add: rate_limited_def)

lemma limited_cases:
  obtains (no_id) "WithRequestID io (rq_ctx r) = None" "limited D h io r w s = (Returned, respondErr w recovered, s)"
  | (denied) ctx reqID s1 where "WithRequestID io (rq_ctx r) = Some (ctx, reqID)"
      "rate_limited D io r s = (False, s1)"
      "limited D h io r w s = (Returned, embedded (respondErr (inner_writer reqID w) too_many),
         recorded io r (Status (respondErr (inner_writer reqID w) too_many)) s1)"
  | (served) ctx reqID s1 out rw s2 where "WithRequestID io (rq_ctx r) = Some (ctx, reqID)"
      "rate_limited D io r s = (True, s1)"
      "h io (inner_request ctx r) (inner_writer reqID w) s1 = (out, rw, s2)"
      "limited D h io r w s = (case out of
         Returned \<Rightarrow> (Returned, embedded rw, recorded io r (Status rw) s2)
       | Panicked \<Rightarrow> (Returned, respondErr (embedded rw) recovered, s2)
       | Hung \<Rightarrow> (Hung, embedded rw, s2))"
proof (cases "WithRequestID io (rq_ctx r)")
  case None
  then show thesis by (intro no_id) (simp_all add: limited_def RecoveryMiddleware_def LoggerMiddleware_def)
next
  case (Some p)
  then obtain ctx reqID where id: "WithRequestID io (rq_ctx r) = Some (ctx, reqID)" by (cases p) auto
  obtain a s1 where rl: "rate_limited D io r s = (a, s1)" by fastforce
  have R: "RateLimitMiddleware D (BodyLimitMiddleware 1048576 h) io (r\<lparr>rq_ctx := ctx\<rparr>) w' s =
      (if \<not> a then (Returned, respondErr w' too_many, s1) else h io (inner_request ctx r) w' s1)" for w'
    using rl rate_limited_ctx [of D io ctx r s]
    by (auto simp: RateLimitMiddleware_def rate_limited_def BodyLimitMiddleware_def inner_request_def
        Let_def split_beta)
  show thesis
  proof (cases a)
    case False
    then show thesis
      by (intro denied [OF id]) (simp_all add: rl limited_def RecoveryMiddleware_def LoggerMiddleware_def
          id R recorded_def inner_writer_def)
  next
    case True
    obtain out rw s2 where h: "h io (inner_request ctx r) (inner_writer reqID w) s1 = (out, rw, s2)"
      by (cases "h io (inner_request ctx r) (inner_writer reqID w) s1")
    show thesis
      by (rule served [OF id _ h])
        (use True h in \<open>simp_all add: rl limited_def RecoveryMiddleware_def LoggerMiddleware_def
          id R recorded_def inner_writer_def split: outcome.splits\<close>)
  qed
qed

lemma base_of_embedded [simp]: "base_of (embedded w) = base_of w"
  by (cases w) simp_all

lemma sent_status_embedded [simp]: "sent_status (embedded w) = sent_status w"
  by (simp add: sent_status_def)

lemma wrapped_embedded: "wrapped w \<Longrightarrow> wrapped (embedded w)"
  by (cases w) simp_all

lemma inner_writer_ok:
  "wrapped w \<Longrightarrow> sent_status w = None \<Longrightarrow> wrapped (inner_writer reqID w)"
  "sent_status (inner_writer reqID w) = sent_status w"
  by (simp_all add: inner_writer_def newResponseWriter_def wrapped_Header_Set sent_status_def)

text \<open>The wrapper's status is the one sent.\<close>

lemma Status_inner:
  assumes "writes (inner_writer reqID w) rw" and "wrapped w" and "sent_status w = None"
    and "sent_status rw = Some st"
  shows "Status rw = st"
proof -
  have "inner_writer reqID w = ResponseWriter (Header_Set ''X-Request-Id'' reqID w) 200 False"
    by (simp add: inner_writer_def newResponseWriter_def)
  from writes_ResponseWriter [OF assms(1) this] obtain v st' wr where rw: "rw = ResponseWriter v st' wr"
    by blast
  have "wrapped rw" using writes_wrapped [OF assms(1)] inner_writer_ok(1) [OF assms(2,3)] by simp
  then show ?thesis using assms(4) by (auto simp: rw sent_status_def split: if_splits)
qed

subsection \<open>Every handler answers\<close>

text \<open>A handler that returns has sent a status.\<close>

definition answers :: "'s handler \<Rightarrow> bool" where
  "answers h \<longleftrightarrow> proper h \<and> (\<forall>io r w s. wrapped w \<longrightarrow> fst (h io r w s) = Returned \<longrightarrow>
     sent_status (fst (snd (h io r w s))) \<noteq> None)"

named_theorems answers_intros \<open>handlers that answer when they return\<close>

lemma answers_handlers [answers_intros]:
  "answers (handleIssue D)" "answers (handleConsume D)" "answers (handleAdminRevoke D)"
  "answers (handleAdminUnrevoke D)" "answers (handleAdminListRevocations D)" "answers (handleHealth D)"
  "answers (handleStoreCredential D)" "answers (handleRetrieveCredential D)"
  by (auto simp: answers_def proper_handlers handleIssue_def handleConsume_def handleAdminRevoke_def
      handleAdminUnrevoke_def handleAdminListRevocations_def handleHealth_def handleStoreCredential_def
      handleRetrieveCredential_def Let_def split_beta respond_status
      split: sum.splits option.splits consume_status.splits)

lemma answers_RequireRole [answers_intros]: "answers h \<Longrightarrow> answers (RequireRole D role h)"
  by (auto simp: answers_def proper_RequireRole RequireRole_def respond_status split: sum.splits)

text \<open>A limited route never panics, and answers whenever the handler behind it ends.\<close>

lemma limited_answers:
  assumes h: "answers h" and w: "wrapped w" "sent_status w = None"
    and L: "limited D h io r w s = (out, w', s')" and "out \<noteq> Hung"
  shows "out = Returned \<and> wrapped w' \<and> sent_status w' \<noteq> None"
proof (cases rule: limited_cases [of io r D h w s])
  case no_id
  then show ?thesis using L w by (auto simp: respond_status)
next
  case (denied ctx reqID s1)
  then show ?thesis
    using L inner_writer_ok(1) [OF w, of reqID]
    by (auto simp: respond_status wrapped_embedded inner_writer_ok)
next
  case (served ctx reqID s1 o2 rw s2)
  have p: "proper h" using h by (simp add: answers_def)
  have iw: "wrapped (inner_writer reqID w)" by (rule inner_writer_ok(1) [OF w])
  have rw: "wrapped rw" by (rule writes_wrapped [OF properD [OF p served(3)] iw])
  have a: "o2 = Returned \<Longrightarrow> sent_status rw \<noteq> None"
    using h [unfolded answers_def, THEN conjunct2, rule_format, OF iw] served(3) by (metis fst_conv snd_conv)
  show ?thesis
    using served(4) L assms(5) rw a
    by (cases o2) (auto simp: wrapped_embedded respond_status)
qed

lemma plain_answers:
  assumes h: "answers h" and w: "wrapped w" "sent_status w = None"
    and L: "RecoveryMiddleware (LoggerMiddleware h) io r w s = (out, w', s')" and "out \<noteq> Hung"
  shows "out = Returned \<and> wrapped w' \<and> sent_status w' \<noteq> None"
proof (cases "WithRequestID io (rq_ctx r)")
  case None
  then show ?thesis
    using L w by (auto simp: RecoveryMiddleware_def LoggerMiddleware_def respond_status)
next
  case (Some p)
  then obtain ctx reqID where id: "WithRequestID io (rq_ctx r) = Some (ctx, reqID)" by (cases p) auto
  have p: "proper h" using h by (simp add: answers_def)
  have iw: "wrapped (inner_writer reqID w)" by (rule inner_writer_ok(1) [OF w])
  obtain o2 rw s2 where hh: "h io (r\<lparr>rq_ctx := ctx\<rparr>) (inner_writer reqID w) s = (o2, rw, s2)"
    by (cases "h io (r\<lparr>rq_ctx := ctx\<rparr>) (inner_writer reqID w) s")
  have rw: "wrapped rw" by (rule writes_wrapped [OF properD [OF p hh] iw])
  have a: "o2 = Returned \<Longrightarrow> sent_status rw \<noteq> None"
    using h [unfolded answers_def, THEN conjunct2, rule_format, OF iw] hh by (metis fst_conv snd_conv)
  show ?thesis
    using L assms(5) rw a hh
    by (cases o2) (auto simp: RecoveryMiddleware_def LoggerMiddleware_def id wrapped_embedded respond_status
        inner_writer_def)
qed


subsection \<open>Routes\<close>

definition required_role :: "string \<Rightarrow> string \<Rightarrow> string option" where
  "required_role httpMethod path =
     (if path = ''/v1/credential/issue'' \<and> httpMethod = ''POST'' then Some ''issuer''
      else if path = ''/v1/admin/revoke'' \<and> httpMethod \<in> {''POST'', ''DELETE''} then Some ''admin''
      else if path = ''/v1/admin/revocations'' \<and> httpMethod \<in> {''GET'', ''HEAD''} then Some ''admin''
      else None)"

lemma required_role_cases:
  assumes "required_role m p = Some role"
  shows "(m, p, role) \<in> {(''POST'', ''/v1/credential/issue'', ''issuer''), (''POST'', ''/v1/admin/revoke'', ''admin''),
    (''DELETE'', ''/v1/admin/revoke'', ''admin''), (''GET'', ''/v1/admin/revocations'', ''admin''),
    (''HEAD'', ''/v1/admin/revocations'', ''admin'')}"
  using assms by (simp add: required_role_def split: if_splits)

lemma mux_find_split:
  "mux_find (routes D demo) m p = Some h \<Longrightarrow>
     p = ''/v1/credential/issue'' \<and> m = ''POST'' \<and> h = limited D (RequireRole D ''issuer'' (handleIssue D)) \<or>
     p = ''/v1/credential/consume'' \<and> m = ''POST'' \<and> h = limited D (handleConsume D) \<or>
     p = ''/v1/admin/revoke'' \<and> m = ''POST'' \<and> h = limited D (RequireRole D ''admin'' (handleAdminRevoke D)) \<or>
     p = ''/v1/admin/revoke'' \<and> m = ''DELETE'' \<and> h = limited D (RequireRole D ''admin'' (handleAdminUnrevoke D)) \<or>
     p = ''/v1/admin/revocations'' \<and> m \<in> {''GET'', ''HEAD''} \<and>
       h = limited D (RequireRole D ''admin'' (handleAdminListRevocations D)) \<or>
     p = ''/health'' \<and> h = handleHealth D \<or>
     p = ''/metrics'' \<and> h = metricsHandler D \<or>
     p = ''/demo/store'' \<and> h = RecoveryMiddleware (LoggerMiddleware (handleStoreCredential D)) \<or>
     p = ''/demo/retrieve'' \<and> h = RecoveryMiddleware (LoggerMiddleware (handleRetrieveCredential D))"
  by (auto simp: routes_def method_matches_def split: if_splits)

definition protected_handlers ::
    "('p1, 'p2, 's, 'ml, 'e, 'n, 'r, 'l) deps \<Rightarrow> string \<Rightarrow> ('p1, 'e, 'n, 'r, 'l) server handler set" where
  "protected_handlers D path = (if path = ''/v1/admin/revoke''
     then {handleAdminRevoke D, handleAdminUnrevoke D} else {handleIssue D, handleAdminListRevocations D})"

lemma protected_handlers_all:
  "h \<in> protected_handlers D path \<Longrightarrow>
     h \<in> {handleIssue D, handleAdminRevoke D, handleAdminUnrevoke D, handleAdminListRevocations D}"
  by (auto simp: protected_handlers_def split: if_splits)

lemma ServeHTTP_protected:
  assumes "required_role (rq_Method r) (rq_Path r) = Some role"
  shows "\<exists>h \<in> protected_handlers D (rq_Path r).
    ServeHTTP D io r w s = limited D (RequireRole D role h) io r w s"
proof -
  note defs = ServeHTTP_def routes_def method_matches_def protected_handlers_def
  from required_role_cases [OF assms] consider
      "rq_Method r = ''POST''" "rq_Path r = ''/v1/credential/issue''" "role = ''issuer''"
    | "rq_Method r = ''POST''" "rq_Path r = ''/v1/admin/revoke''" "role = ''admin''"
    | "rq_Method r = ''DELETE''" "rq_Path r = ''/v1/admin/revoke''" "role = ''admin''"
    | "rq_Method r \<in> {''GET'', ''HEAD''}" "rq_Path r = ''/v1/admin/revocations''" "role = ''admin''"
    by auto
  then show ?thesis
  proof cases
    case 1 then show ?thesis by (intro bexI [of _ "handleIssue D"]) (simp_all add: defs)
  next
    case 2 then show ?thesis by (intro bexI [of _ "handleAdminRevoke D"]) (simp_all add: defs)
  next
    case 3 then show ?thesis by (intro bexI [of _ "handleAdminUnrevoke D"]) (simp_all add: defs)
  next
    case 4 then show ?thesis
      by (intro bexI [of _ "handleAdminListRevocations D"]) (auto simp add: defs)
  qed
qed

lemma ServeHTTP_consume:
  assumes "rq_Method r = ''POST''" "rq_Path r = ''/v1/credential/consume''"
  shows "ServeHTTP D io r w s = limited D (handleConsume D) io r w s"
  using assms by (simp add: ServeHTTP_def routes_def method_matches_def)

text \<open>All the routes there are.\<close>

lemma ServeHTTP_cases:
  obtains (consume) "rq_Method r = ''POST''" "rq_Path r = ''/v1/credential/consume''"
      "ServeHTTP D io r w s = limited D (handleConsume D) io r w s"
  | (protected) role h where "required_role (rq_Method r) (rq_Path r) = Some role"
      "ServeHTTP D io r w s = limited D (RequireRole D role h) io r w s"
      "h \<in> {handleIssue D, handleAdminRevoke D, handleAdminUnrevoke D, handleAdminListRevocations D}"
      "h \<in> protected_handlers D (rq_Path r)"
  | (health) "ServeHTTP D io r w s = handleHealth D io r w s" "rq_Path r = ''/health''"
  | (metrics) "ServeHTTP D io r w s = metricsHandler D io r w s" "rq_Path r = ''/metrics''"
  | (demo) h where "ServeHTTP D io r w s = RecoveryMiddleware (LoggerMiddleware h) io r w s"
      "h \<in> {handleStoreCredential D, handleRetrieveCredential D}"
      "rq_Path r \<in> {''/demo/store'', ''/demo/retrieve''}"
  | (unmatched) msg code where "ServeHTTP D io r w s = (Returned, http_Error msg code w, s)"
      "(msg, code) \<in> {(''Method Not Allowed'', 405), (''404 page not found'', 404)}"
proof (cases "mux_find (routes D (srv_demoStore s \<noteq> None)) (rq_Method r) (rq_Path r)")
  case None
  have "ServeHTTP D io r w s = (Returned, http_Error ''Method Not Allowed'' 405 w, s) \<or>
      ServeHTTP D io r w s = (Returned, http_Error ''404 page not found'' 404 w, s)"
    unfolding ServeHTTP_def Let_def None by auto
  then show thesis using unmatched by blast
next
  case (Some h)
  then have S: "ServeHTTP D io r w s = h io r w s" by (simp add: ServeHTTP_def Let_def)
  show thesis
  proof (cases "required_role (rq_Method r) (rq_Path r)")
    case None
    then show thesis
      using mux_find_split [OF Some] S
      by (elim disjE conjE)
        (simp_all add: required_role_def, auto intro: consume health metrics demo)
  next
    case (Some role)
    show thesis using ServeHTTP_protected [OF Some, of D io w s] protected [OF Some] protected_handlers_all by blast
  qed
qed

subsection \<open>Only the holders of a token with the role reach a protected handler\<close>

definition bearer :: "request \<Rightarrow> string option" where
  "bearer r = (case SplitN2 (CHR '' '') (Header_Get r ''Authorization'') of
     [scheme, tok] \<Rightarrow> if EqualFold scheme ''Bearer'' then Some tok else None | _ \<Rightarrow> None)"

definition entitled ::
    "(string \<Rightarrow> method_family) \<Rightarrow> (string \<Rightarrow> bytes \<Rightarrow> string \<Rightarrow> claims \<Rightarrow> bool) \<Rightarrow> bytes \<Rightarrow> instant \<Rightarrow> string \<Rightarrow>
     request \<Rightarrow> bool" where
  "entitled family genuine secret now role r \<longleftrightarrow>
     (\<exists>tok cl alg. bearer r = Some tok \<and> alg \<in> {''HS256'', ''HS384'', ''HS512''} \<and> family alg = HMAC \<and>
        genuine alg secret tok cl \<and> (\<exists>e. cl_ExpiresAt cl = Some e \<and> now < e) \<and> HasRole cl role)"

lemma authenticate_entitled:
  assumes "jwt_laws (dp_jwt D) family genuine" and a: "authenticate D io r s = Inr cl" and "HasRole cl role"
  shows "entitled family genuine (jv_secret (srv_jwtValidator s)) (io_now io 4) role r"
proof -
  obtain scheme tok where p: "SplitN2 (CHR '' '') (Header_Get r ''Authorization'') = [scheme, tok]"
    and e: "EqualFold scheme ''Bearer''"
    and v: "JWT_Validate (dp_jwt D) (srv_jwtValidator s) (io_now io 4) tok = Inr cl"
    using a by (auto simp: authenticate_def Let_def length_Suc_conv numeral_2_eq_2
        split: if_splits sum.splits)
  then have "bearer r = Some tok" by (simp add: bearer_def)
  with JWT_Validate_genuine [OF assms(1) v] assms(3) show ?thesis
    unfolding entitled_def by blast
qed

lemma authenticate_codes:
  "authenticate D io r s = Inl err \<Longrightarrow> CodeOf (Some err) = CodeUnauthorized"
  by (auto simp: authenticate_def Let_def split: if_splits sum.splits)

lemma authenticate_cong:
  "authenticate D io (inner_request ctx r) s = authenticate D io r s"
  "bearer (inner_request ctx r) = bearer r"
  by (simp_all add: authenticate_def bearer_def inner_request_def MaxBytesReader_def Header_Get_def)

lemma rate_limited_frame:
  "rate_limited D io r s = (a, s1) \<Longrightarrow> srv_credentialService s1 = srv_credentialService s \<and>
     srv_jwtValidator s1 = srv_jwtValidator s \<and> srv_demoStore s1 = srv_demoStore s"
  by (auto simp: rate_limited_def Let_def split: prod.splits)

lemma recorded_frame [simp]:
  "srv_credentialService (recorded io r st s) = (srv_credentialService s)\<lparr>cs_metrics :=
     map_option (RecordHTTPRequest (rq_Method r) (rq_Path r) st (io_now io 9 - io_now io 0))
       (cs_metrics (srv_credentialService s))\<rparr>"
  "srv_jwtValidator (recorded io r st s) = srv_jwtValidator s"
  "srv_demoStore (recorded io r st s) = srv_demoStore s"
  "srv_rateLimiter (recorded io r st s) = srv_rateLimiter s"
  by (simp_all add: recorded_def with_metrics_def)

lemma authenticate_server:
  "srv_jwtValidator s' = srv_jwtValidator s \<Longrightarrow> authenticate D io r s' = authenticate D io r s"
  by (simp only: authenticate_def)

subsection \<open>What a server error tells\<close>

lemma base_of_WriteHeader:
  "wrapped w \<Longrightarrow> bw_sent (base_of w) = None \<Longrightarrow> base_of (WriteHeader c w) = base_WriteHeader c (base_of w)"
  by (induction w) (auto split: if_splits)

lemma base_of_Write [simp]:
  "base_of (snd (Write bs w)) = snd (base_Write bs (base_of w))"
  "fst (Write bs w) = fst (base_Write bs (base_of w))"
  by (induction w) (simp_all add: split_beta)

definition unwritten :: "writer \<Rightarrow> bool" where
  "unwritten w \<longleftrightarrow> wrapped w \<and> bw_sent (base_of w) = None \<and> bw_body (base_of w) = '''' \<and> bw_writable (base_of w)"

lemma unwritten_fresh [simp]: "unwritten fresh_writer"
  by (simp add: unwritten_def fresh_writer_def)

lemma unwritten_inner [simp]: "unwritten w \<Longrightarrow> unwritten (inner_writer reqID w)"
  by (simp add: unwritten_def inner_writer_def newResponseWriter_def wrapped_Header_Set)

lemma unwritten_embedded: "unwritten w \<Longrightarrow> unwritten (embedded w)"
  by (simp add: unwritten_def wrapped_embedded)

lemma unwritten_status: "unwritten w \<Longrightarrow> wrapped w \<and> sent_status w = None"
  by (simp add: unwritten_def sent_status_def)

definition error_body :: "nat \<Rightarrow> string \<Rightarrow> string" where
  "error_body st msg =
     Marshal (error_response_json \<lparr> eo_Error = msg, eo_Code = st, eo_Details = '''' \<rparr>) @ [CHR 0x0A]"

lemma respondErr_body:
  assumes "unwritten w"
  shows "bw_body (base_of (respondErr w err)) = (let st = HTTPStatus (CodeOf err) in error_body st
    (if 500 \<le> st then StatusText st else case err of Some e \<Rightarrow> error_text e | None \<Rightarrow> ''''))"
  using assms
  by (simp add: respondErr_def respondError_def Let_def split_beta unwritten_def base_of_WriteHeader
      wrapped_Header_Set base_WriteHeader_def base_Write_def error_body_def)

lemma respondJSON_body:
  assumes "unwritten w"
  shows "bw_body (base_of (respondJSON w code data)) =
    (case data of None \<Rightarrow> ''internal server error'' @ [CHR 0x0A] | Some v \<Rightarrow> Marshal v)"
  using assms
  by (cases data) (simp_all add: respondJSON_def http_Error_def Let_def unwritten_def base_of_WriteHeader
      wrapped_Header_Set wrapped_Header_Del base_WriteHeader_def base_Write_def)

lemma http_Error_body:
  "unwritten w \<Longrightarrow> bw_body (base_of (http_Error msg code w)) = msg @ [CHR 0x0A]"
  by (simp add: http_Error_def Let_def unwritten_def base_of_WriteHeader wrapped_Header_Set
      wrapped_Header_Del base_WriteHeader_def base_Write_def)

lemma handlers_end:
  assumes "\<And>order now st. rs_ListRevocations (dp_revocations D) order now st \<noteq> None"
    and "h \<in> {handleIssue D, handleConsume D, handleAdminRevoke D, handleAdminUnrevoke D,
      handleAdminListRevocations D, handleStoreCredential D, handleRetrieveCredential D}"
  shows "fst (h io r w s) \<noteq> Hung"
proof -
  have "rs_ListRevocations (dp_revocations D) (io_order io) (io_now io 6) (the (srv_revocationStore s)) \<noteq> None"
    by (rule assms(1))
  then show ?thesis
    using assms(2)
    by (auto simp: handleIssue_def handleConsume_def handleAdminRevoke_def
      handleAdminUnrevoke_def handleAdminListRevocations_def handleStoreCredential_def
      handleRetrieveCredential_def Let_def split_beta
      split: sum.splits option.splits consume_status.splits if_splits)
qed

lemma limited_ends:
  assumes "\<And>io r w s. fst (h io r w s) \<noteq> Hung"
  shows "fst (limited D h io r w s) \<noteq> Hung"
proof (cases rule: limited_cases [of io r D h w s])
  case (served ctx reqID s1 o2 rw s2)
  then have "o2 \<noteq> Hung" using assms by (metis fst_conv)
  then show ?thesis using served(4) by (cases o2) simp_all
qed simp_all

subsection \<open>Redemption over HTTP\<close>

text \<open>The request a redemption handler works on, once it is decoded and validated.\<close>

definition consume_of ::
    "('p1, 'p2, 's, 'ml, 'e, 'n, 'r, 'l) deps \<Rightarrow> io \<Rightarrow> request \<Rightarrow> consume_request option" where
  "consume_of D io r = (case Decode (dp_decode_error D) decode_consume r of
       Inl err \<Rightarrow> None
     | Inr req \<Rightarrow> if ValidateConsumeRequest (dp_validator D) (io_now io 5) req = None then Some req else None)"

definition consume_call ::
    "('p1, 'p2, 's, 'ml, 'e, 'n, 'r, 'l) deps \<Rightarrow> io \<Rightarrow> go_context \<Rightarrow> consume_request \<Rightarrow>
     ('p1, 'e, 'n, 'r) service \<Rightarrow> consume_result result \<times> ('p1, 'e, 'n, 'r) service" where
  "consume_call D io ctx req = Consume (dp_blst D) (dp_memguard D) (dp_nullifiers D) (dp_revocations D)
     (io_now io 6) (io_now io 7) ctx (cq_UnblindedSignature req) (cq_Witness req)
     (cq_CredentialClass req) (cq_KeyEpoch req)"

text \<open>The status of an answered redemption.\<close>

fun consume_http :: "consume_result result \<Rightarrow> nat" where
  "consume_http (Inl err) = HTTPStatus (CodeOf (Some err))"
| "consume_http (Inr res) = (case cr_Status res of
     ConsumeAccepted \<Rightarrow> 200 | ConsumeDuplicate \<Rightarrow> 409 | ConsumeRevoked \<Rightarrow> 409 | ConsumeOther _ \<Rightarrow> 500)"

lemma CodeOf_consume_error [simp]: "CodeOf (Some (consume_error err)) = CodeOf (Some err)"
  by (auto simp: consume_error_def CodeOf_def apperr_Wrap_def split: option.splits prod.splits)

lemma HTTPStatus_not_200 [simp]: "HTTPStatus c \<noteq> 200" "200 \<noteq> HTTPStatus c"
  using HTTPStatus_range [of c] by auto

lemma consume_http_200 [simp]: "consume_http r = 200 \<longleftrightarrow> accepted r"
  by (cases r) (simp_all split: consume_status.splits)

lemma with_metrics_frame [simp]:
  "cs_store (srv_credentialService (with_metrics f s)) = cs_store (srv_credentialService s)"
  "cs_revocationStore (srv_credentialService (with_metrics f s)) = cs_revocationStore (srv_credentialService s)"
  "cs_config (srv_credentialService (with_metrics f s)) = cs_config (srv_credentialService s)"
  "srv_jwtValidator (with_metrics f s) = srv_jwtValidator s"
  "srv_demoStore (with_metrics f s) = srv_demoStore s"
  by (simp_all add: with_metrics_def)

text \<open>Two services that differ in metrics only.\<close>

definition same_state :: "('p1, 'e, 'n, 'r) service \<Rightarrow> ('p1, 'e, 'n, 'r) service \<Rightarrow> bool" where
  "same_state s t \<longleftrightarrow> cs_engine s = cs_engine t \<and> cs_config s = cs_config t \<and> cs_store s = cs_store t \<and>
     cs_revocationStore s = cs_revocationStore t"

lemma same_state_metrics [simp]: "same_state (srv_credentialService (with_metrics f s)) (srv_credentialService s)"
  by (simp add: same_state_def with_metrics_def)

lemma handleConsume_effect:
  assumes h: "handleConsume D io r w s = (out, w', s')" and w: "wrapped w" "sent_status w = None"
  shows "out = Returned \<and> (case consume_of D io r of
      None \<Rightarrow> sent_status w' = Some 400 \<and> same_state (srv_credentialService s') (srv_credentialService s)
    | Some req \<Rightarrow> (let (res, svc) = consume_call D io (rq_ctx r) req (srv_credentialService s)
        in sent_status w' = Some (consume_http res) \<and> same_state (srv_credentialService s') svc))"
proof (cases "consume_of D io r")
  case None
  then show ?thesis
    using h w by (auto simp: handleConsume_def consume_of_def Let_def respond_status bad_request_def
        split: sum.splits option.splits if_splits)
next
  case (Some req)
  then have d: "Decode (dp_decode_error D) decode_consume r = Inr req"
    "ValidateConsumeRequest (dp_validator D) (io_now io 5) req = None"
    by (auto simp: consume_of_def split: sum.splits if_splits)
  obtain res svc where c: "consume_call D io (rq_ctx r) req (srv_credentialService s) = (res, svc)" by fastforce
  have set_svc: "srv_credentialService (set_service svc s) = svc" by (simp add: set_service_def)
  show ?thesis
    using h w c Some set_svc same_state_metrics [of _ "set_service svc s"]
    by (cases res) (auto simp: handleConsume_def d consume_call_def Let_def respond_status
        split: consume_status.splits)
qed

text \<open>What a handler leaves alone: a part of the server that neither metrics nor the limiter touch.\<close>

definition aside :: "(('p1, 'e, 'n, 'r, 'l) server \<Rightarrow> 'x) \<Rightarrow> bool" where
  "aside st \<longleftrightarrow> (\<forall>s x. st (s\<lparr>srv_rateLimiter := x\<rparr>) = st s) \<and> (\<forall>f s. st (with_metrics f s) = st s)"

definition keeps :: "('s \<Rightarrow> 'x) \<Rightarrow> 's handler \<Rightarrow> bool" where
  "keeps st h \<longleftrightarrow> (\<forall>io r w s. st (snd (snd (h io r w s))) = st s)"

lemma keepsD: "keeps st h \<Longrightarrow> h io r w s = (out, w', s') \<Longrightarrow> st s' = st s"
  by (metis keeps_def snd_conv)

lemma aside_parts [simp]:
  "aside (\<lambda>s. cs_store (srv_credentialService s))"
  "aside (\<lambda>s. cs_revocationStore (srv_credentialService s))"
  "aside srv_demoStore"
  by (simp_all add: aside_def)

lemma asideD:
  assumes "aside st"
  shows "st (recorded io r code s) = st s" and "rate_limited D io r s = (a, s1) \<Longrightarrow> st s1 = st s"
  using assms by (auto simp: aside_def recorded_def rate_limited_def Let_def split: prod.splits)

lemma keeps_RequireRole: "keeps st h \<Longrightarrow> keeps st (RequireRole D role h)"
  by (auto simp: keeps_def RequireRole_def split: sum.splits)

lemma keeps_limited:
  assumes "aside st" and "keeps st h"
  shows "keeps st (limited D h)"
  unfolding keeps_def
proof (intro allI)
  fix io r w s
  show "st (snd (snd (limited D h io r w s))) = st s"
  proof (cases rule: limited_cases [of io r D h w s])
    case (served ctx reqID s1 o2 rw s2)
    then show ?thesis
      using keepsD [OF assms(2) served(3)] asideD [OF assms(1)] by (cases o2) auto
  qed (use asideD [OF assms(1)] in auto)
qed

lemma keeps_plain:
  assumes "aside st" and "keeps st h"
  shows "keeps st (RecoveryMiddleware (LoggerMiddleware h))"
  unfolding keeps_def
proof (intro allI)
  fix io r w s
  have m: "st (with_metrics f s') = st s'" for f s' using assms(1) by (simp add: aside_def)
  show "st (snd (snd (RecoveryMiddleware (LoggerMiddleware h) io r w s))) = st s"
  proof (cases "WithRequestID io (rq_ctx r)")
    case None
    then show ?thesis by (simp add: RecoveryMiddleware_def LoggerMiddleware_def)
  next
    case (Some p)
    then obtain ctx reqID where id: "WithRequestID io (rq_ctx r) = Some (ctx, reqID)" by (cases p) auto
    obtain o2 rw s2 where hh: "h io (r\<lparr>rq_ctx := ctx\<rparr>) (inner_writer reqID w) s = (o2, rw, s2)"
      by (cases "h io (r\<lparr>rq_ctx := ctx\<rparr>) (inner_writer reqID w) s")
    show ?thesis
      using keepsD [OF assms(2) hh] hh
      by (cases o2) (auto simp: RecoveryMiddleware_def LoggerMiddleware_def id inner_writer_def m)
  qed
qed

lemma Issue_frames:
  "cs_store (snd (Issue B M rnd ctx b c svc)) = cs_store svc"
  "cs_revocationStore (snd (Issue B M rnd ctx b c svc)) = cs_revocationStore svc"
  using Issue_frame by blast+

text \<open>The nullifier store is written by redemptions only.\<close>

lemma keeps_store:
  "keeps (\<lambda>s. cs_store (srv_credentialService s)) (handleIssue D)"
  "keeps (\<lambda>s. cs_store (srv_credentialService s)) (handleAdminRevoke D)"
  "keeps (\<lambda>s. cs_store (srv_credentialService s)) (handleAdminUnrevoke D)"
  "keeps (\<lambda>s. cs_store (srv_credentialService s)) (handleAdminListRevocations D)"
  "keeps (\<lambda>s. cs_store (srv_credentialService s)) (handleStoreCredential D)"
  "keeps (\<lambda>s. cs_store (srv_credentialService s)) (handleRetrieveCredential D)"
  by (auto simp: keeps_def handleIssue_def handleAdminRevoke_def handleAdminUnrevoke_def set_service_def
      handleAdminListRevocations_def handleStoreCredential_def handleRetrieveCredential_def Let_def
      split_beta set_revocationStore_def Issue_frames split: sum.splits option.splits)

text \<open>The revocation store is written by the two administrative handlers only.\<close>

lemma keeps_revocations:
  "keeps (\<lambda>s. cs_revocationStore (srv_credentialService s)) (handleIssue D)"
  "keeps (\<lambda>s. cs_revocationStore (srv_credentialService s)) (handleConsume D)"
  "keeps (\<lambda>s. cs_revocationStore (srv_credentialService s)) (handleAdminListRevocations D)"
  "keeps (\<lambda>s. cs_revocationStore (srv_credentialService s)) (handleStoreCredential D)"
  "keeps (\<lambda>s. cs_revocationStore (srv_credentialService s)) (handleRetrieveCredential D)"
  by (auto simp: keeps_def handleIssue_def handleConsume_def set_service_def
      handleAdminListRevocations_def handleStoreCredential_def handleRetrieveCredential_def Let_def
      split_beta Issue_frames Consume_keeps split: sum.splits option.splits consume_status.splits)

text \<open>The nullifier an HTTP request presents, and whether it is a redemption that is granted.\<close>

type_synonym http_request = "io \<times> request"

definition presented_nullifier ::
    "('p1, 'p2, 's, 'ml, 'e, 'n, 'r, 'l) deps \<Rightarrow> http_request \<Rightarrow> bytes option" where
  "presented_nullifier D = (\<lambda>(io, r).
     if rq_Method r = ''POST'' \<and> rq_Path r = ''/v1/credential/consume''
     then (case consume_of D io (MaxBytesReader (2 ^ 20) r) of
        None \<Rightarrow> None
      | Some req \<Rightarrow> (case hex_decode (cq_UnblindedSignature req) of
          Inl _ \<Rightarrow> None
        | Inr b \<Rightarrow> (case DeserializeG1 (dp_blst D) b of
            Inl _ \<Rightarrow> None
          | Inr sig \<Rightarrow> Some (ComputeNullifier (dp_blst D) (cq_KeyEpoch req) (cq_CredentialClass req) sig))))
     else None)"

definition http_step ::
    "('p1, 'p2, 's, 'ml, 'e, 'n, 'r, 'l) deps \<Rightarrow> http_request \<Rightarrow> ('p1, 'e, 'n, 'r, 'l) server \<Rightarrow>
     bool \<times> ('p1, 'e, 'n, 'r, 'l) server" where
  "http_step D = (\<lambda>(io, r) s. let (out, w, s') = ServeHTTP D io r fresh_writer s
     in (rq_Method r = ''POST'' \<and> rq_Path r = ''/v1/credential/consume'' \<and> sent_status w = Some 200, s'))"

definition http_run ::
    "('p1, 'p2, 's, 'ml, 'e, 'n, 'r, 'l) deps \<Rightarrow> http_request list \<Rightarrow> ('p1, 'e, 'n, 'r, 'l) server \<Rightarrow>
     bool list \<times> ('p1, 'e, 'n, 'r, 'l) server" where
  "http_run D = op_run (http_step D)"

lemma consume_of_inner:
  "consume_of D io (inner_request ctx r) = consume_of D io (MaxBytesReader (2 ^ 20) r)"
  by (simp add: consume_of_def Decode_def readable_def inner_request_def MaxBytesReader_def)

lemma Consume_uses:
  obtains (quiet) "\<not> accepted (fst (Consume B M NI RI t1 t2 ctx sigHex wHex cls epoch s))"
      "cs_store (snd (Consume B M NI RI t1 t2 ctx sigHex wHex cls epoch s)) = cs_store s"
  | (call) sig where "decoded B sigHex sig"
      "cs_store (snd (Consume B M NI RI t1 t2 ctx sigHex wHex cls epoch s)) =
         snd (ns_CheckAndStore NI t2 (cx_err ctx 1) (ComputeNullifier B epoch cls sig) (cs_store s))"
      "accepted (fst (Consume B M NI RI t1 t2 ctx sigHex wHex cls epoch s)) \<longleftrightarrow>
         fst (ns_CheckAndStore NI t2 (cx_err ctx 1) (ComputeNullifier B epoch cls sig) (cs_store s)) = Inr True"
proof (cases "\<exists>sig. admissible B M RI t1 ctx sigHex wHex cls epoch s sig")
  case False
  then show thesis
    using quiet Consume_inadmissible [of B M RI t1 ctx sigHex wHex cls epoch s NI t2] by blast
next
  case True
  then obtain sig where ad: "admissible B M RI t1 ctx sigHex wHex cls epoch s sig" ..
  then have "decoded B sigHex sig" by (simp add: admissible_def consume_verify_ok_iff)
  then show thesis
    by (rule call) (simp_all add: Consume_admissible [OF ad] consume_commit_store consume_verify_keeps)
qed

lemma handleConsume_uses:
  assumes h: "handleConsume D io (inner_request ctx r) w s = (out, w', s')" and w: "wrapped w" "sent_status w = None"
    and m: "rq_Method r = ''POST''" "rq_Path r = ''/v1/credential/consume''"
  shows "out = Returned \<and>
    (sent_status w' \<noteq> Some 200 \<and> cs_store (srv_credentialService s') = cs_store (srv_credentialService s) \<or>
     (\<exists>c k. presented_nullifier D (io, r) = Some k \<and>
        cs_store (srv_credentialService s') =
          snd (ns_CheckAndStore (dp_nullifiers D) (io_now io 7) c k (cs_store (srv_credentialService s))) \<and>
        (sent_status w' = Some 200 \<longleftrightarrow> fst (ns_CheckAndStore (dp_nullifiers D) (io_now io 7) c k
          (cs_store (srv_credentialService s))) = Inr True)))"
proof (cases "consume_of D io (inner_request ctx r)")
  case None
  then show ?thesis using handleConsume_effect [OF h w] by (auto simp: same_state_def)
next
  case (Some req)
  obtain res svc where c: "consume_call D io (rq_ctx (inner_request ctx r)) req (srv_credentialService s) = (res, svc)"
    by fastforce
  have e: "out = Returned" "sent_status w' = Some (consume_http res)"
    "cs_store (srv_credentialService s') = cs_store svc"
    using handleConsume_effect [OF h w] Some c by (auto simp: same_state_def)
  have p: "presented_nullifier D (io, r) =
      Some (ComputeNullifier (dp_blst D) (cq_KeyEpoch req) (cq_CredentialClass req) sig)"
    if "decoded (dp_blst D) (cq_UnblindedSignature req) sig" for sig
    using that m Some by (auto simp: presented_nullifier_def consume_of_inner decoded_def)
  show ?thesis
    by (cases rule: Consume_uses [of "dp_blst D" "dp_memguard D" "dp_nullifiers D" "dp_revocations D"
          "io_now io 6" "io_now io 7" "rq_ctx (inner_request ctx r)" "cq_UnblindedSignature req"
          "cq_Witness req" "cq_CredentialClass req" "cq_KeyEpoch req" "srv_credentialService s"])
      (use e c p in \<open>auto simp: consume_call_def\<close>)
qed

lemma http_uses_store:
  "uses_store (ns_CheckAndStore (dp_nullifiers D)) (\<lambda>s. cs_store (srv_credentialService s))
     (presented_nullifier D) (\<lambda>(io, r). {io_now io 7}) (http_step D)"
  unfolding uses_store_def
proof (intro allI)
  fix op :: http_request and s
  obtain io r where op: "op = (io, r)" by (cases op)
  obtain out w' s' where S: "ServeHTTP D io r fresh_writer s = (out, w', s')"
    by (cases "ServeHTTP D io r fresh_writer s")
  have fw: "wrapped fresh_writer" "sent_status fresh_writer = None" by (simp_all add: sent_status_def)
  let ?st = "\<lambda>s. cs_store (srv_credentialService s)" and ?check = "ns_CheckAndStore (dp_nullifiers D)"
  show "\<not> fst (http_step D op s) \<and> ?st (snd (http_step D op s)) = ?st s \<or>
    (\<exists>t c k. presented_nullifier D op = Some k \<and> (case op of (io, r) \<Rightarrow> {io_now io 7}) = {t} \<and>
      ?st (snd (http_step D op s)) = snd (?check t c k (?st s)) \<and>
      (fst (http_step D op s) \<longleftrightarrow> fst (?check t c k (?st s)) = Inr True))"
  proof (cases "rq_Method r = ''POST'' \<and> rq_Path r = ''/v1/credential/consume''")
    case True
    then have L: "limited D (handleConsume D) io r fresh_writer s = (out, w', s')"
      using ServeHTTP_consume S by metis
    show ?thesis
    proof (cases rule: limited_cases [of io r D "handleConsume D" fresh_writer s])
      case no_id
      then show ?thesis using L S True op fw by (auto simp: http_step_def respond_status)
    next
      case (denied ctx reqID s1)
      then show ?thesis
        using L S True op inner_writer_ok(1) [OF fw, of reqID] inner_writer_ok(2) [of reqID fresh_writer] rate_limited_frame [OF denied(2)] fw
        by (auto simp: http_step_def respond_status)
    next
      case (served ctx reqID s1 o2 rw s2)
      have iw: "wrapped (inner_writer reqID fresh_writer)" "sent_status (inner_writer reqID fresh_writer) = None"
        using inner_writer_ok(1) [OF fw, of reqID] inner_writer_ok(2) [of reqID fresh_writer] fw by simp_all
      note u = handleConsume_uses [OF served(3) iw True [THEN conjunct1] True [THEN conjunct2]]
      then have o2: "o2 = Returned" by blast
      have s': "?st s' = ?st s2" "sent_status w' = sent_status rw"
        using served(4) L o2 by auto
      show ?thesis
        using u s' S True op rate_limited_frame [OF served(2)] by (auto simp: http_step_def)
    qed
  next
    case False
    have "?st s' = ?st s"
    proof (cases rule: ServeHTTP_cases [of r D io fresh_writer s])
      case consume
      then show ?thesis using False by simp
    next
      case (protected role h)
      then have "keeps ?st (limited D (RequireRole D role h))"
        using keeps_limited [OF aside_parts(1) keeps_RequireRole] keeps_store by blast
      then show ?thesis
        by (rule keepsD [where io = io and r = r and w = fresh_writer and out = out and w' = w'])
          (simp add: protected(2) [symmetric] S)
    next
      case health
      then show ?thesis using S by (auto simp: handleHealth_def split: option.splits)
    next
      case metrics
      then show ?thesis using S by (auto simp: metricsHandler_def)
    next
      case (demo h)
      then have "keeps ?st (RecoveryMiddleware (LoggerMiddleware h))"
        using keeps_plain [OF aside_parts(1)] keeps_store by blast
      then show ?thesis
        by (rule keepsD [where io = io and r = r and w = fresh_writer and out = out and w' = w'])
          (simp add: demo(1) [symmetric] S)
    next
      case (unmatched msg code)
      then show ?thesis using S by simp
    qed
    then show ?thesis using False S op by (auto simp: http_step_def)
  qed
qed

subsection \<open>Revocation over HTTP\<close>

definition revoke_of ::
    "('p1, 'p2, 's, 'ml, 'e, 'n, 'r, 'l) deps \<Rightarrow> io \<Rightarrow> request \<Rightarrow> admin_revoke_request option" where
  "revoke_of D io r = (case Decode (dp_decode_error D) decode_revoke r of
       Inl err \<Rightarrow> None
     | Inr req \<Rightarrow> if ValidateAdminRevokeRequest (dp_validator D) (io_now io 5) req = None then Some req else None)"

lemma Decode_ctx [simp]: "Decode e f (r\<lparr>rq_ctx := c\<rparr>) = Decode e f r"
  by (simp add: Decode_def readable_def cong: option.case_cong)

lemma revoke_of_inner:
  "revoke_of D io (inner_request ctx r) = revoke_of D io (MaxBytesReader (2 ^ 20) r)"
  "revoke_of D io (r'\<lparr>rq_ctx := c\<rparr>) = revoke_of D io r'"
proof -
  have "inner_request ctx r = (MaxBytesReader (2 ^ 20) r)\<lparr>rq_ctx := ctx\<rparr>"
    by (simp add: inner_request_def MaxBytesReader_def)
  then show "revoke_of D io (inner_request ctx r) = revoke_of D io (MaxBytesReader (2 ^ 20) r)"
    unfolding revoke_of_def by (simp only: Decode_ctx)
qed (simp add: revoke_of_def)

lemma bad_request_status: "wrapped w \<Longrightarrow> sent_status w = None \<Longrightarrow> sent_status (respondErr w (bad_request e m)) = Some 400"
  by (simp add: respond_status bad_request_def)

text \<open>A revocation that is answered 200 was made.\<close>

lemma handleAdminRevoke_ok:
  assumes h: "handleAdminRevoke D io r w s = (out, w', s')" and w: "wrapped w" "sent_status w = None"
    and "sent_status w' = Some 200"
  shows "\<exists>cl req store. ClaimsFromContext (rq_ctx r) = Some cl \<and> revoke_of D io r = Some req \<and>
    srv_revocationStore s = Some store \<and>
    (let res = rs_RevokeClass (dp_revocations D) (io_now io 6) (aq_CredentialClass req) (aq_KeyEpoch req)
       (aq_Reason req) (cl_Subject cl) (aq_RevokedUntil req) store
     in fst res = None \<and> srv_revocationStore s' = Some (snd res))"
  using assms
  by (auto simp: handleAdminRevoke_def revoke_of_def Let_def respond_status bad_request_status
      srv_revocationStore_def set_revocationStore_def split_beta
      split: sum.splits option.splits if_splits)

lemma ServeHTTP_revoke:
  assumes "rq_Method r = ''POST''" "rq_Path r = ''/v1/admin/revoke''"
  shows "ServeHTTP D io r w s = limited D (RequireRole D ''admin'' (handleAdminRevoke D)) io r w s"
  using assms by (simp add: ServeHTTP_def routes_def method_matches_def)

lemma revoke_answered_200:
  assumes "rq_Method r = ''POST''" "rq_Path r = ''/v1/admin/revoke''"
    and S: "ServeHTTP D io r fresh_writer s = (out, w', s')" "sent_status w' = Some 200"
  shows "\<exists>(cl :: claims) req store. revoke_of D io (MaxBytesReader (2 ^ 20) r) = Some req \<and>
    (let res = rs_RevokeClass (dp_revocations D) (io_now io 6) (aq_CredentialClass req) (aq_KeyEpoch req)
       (aq_Reason req) (cl_Subject cl) (aq_RevokedUntil req) store
     in fst res = None \<and> cs_revocationStore (srv_credentialService s') = Some (snd res))"
proof -
  have fw: "wrapped fresh_writer" "sent_status fresh_writer = None" by (simp_all add: sent_status_def)
  let ?h = "RequireRole D ''admin'' (handleAdminRevoke D)"
  have L: "limited D ?h io r fresh_writer s = (out, w', s')"
    using S(1) ServeHTTP_revoke [OF assms(1,2), of D io fresh_writer s] by simp
  show ?thesis
  proof (cases rule: limited_cases [of io r D ?h fresh_writer s])
    case no_id
    then show ?thesis using L S(2) fw by (auto simp: respond_status)
  next
    case (denied ctx reqID s1)
    then show ?thesis
      using L S(2) inner_writer_ok(1) [OF fw, of reqID] inner_writer_ok(2) [of reqID fresh_writer] fw
      by (auto simp: respond_status)
  next
    case (served ctx reqID s1 o2 rw s2)
    have iw: "wrapped (inner_writer reqID fresh_writer)" "sent_status (inner_writer reqID fresh_writer) = None"
      using inner_writer_ok(1) [OF fw, of reqID] inner_writer_ok(2) [of reqID fresh_writer] fw by simp_all
    have "o2 \<noteq> Returned \<Longrightarrow> rw = inner_writer reqID fresh_writer"
      using served(3) by (auto simp: RequireRole_def handleAdminRevoke_def Let_def split_beta
        split: sum.splits option.splits if_splits)
    then have o2: "o2 = Returned \<and> sent_status rw = Some 200 \<and> s' = recorded io r (Status rw) s2"
      using served(4) L S(2) iw by (cases o2) (auto simp: respond_status wrapped_embedded)
    obtain cl where hr: "handleAdminRevoke D io ((inner_request ctx r)\<lparr>rq_ctx := WithClaims
        (rq_ctx (inner_request ctx r)) cl\<rparr>) (inner_writer reqID fresh_writer) s1 = (o2, rw, s2)"
      using served(3) o2 iw by (auto simp: RequireRole_def respond_status split: sum.splits if_splits)
    have "sent_status rw = Some 200" using o2 by simp
    from handleAdminRevoke_ok [OF hr iw this, unfolded revoke_of_inner Let_def srv_revocationStore_def] obtain cl' :: claims and req store where
      "revoke_of D io (MaxBytesReader (2 ^ 20) r) = Some req"
      "fst (rs_RevokeClass (dp_revocations D) (io_now io 6) (aq_CredentialClass req) (aq_KeyEpoch req)
        (aq_Reason req) (cl_Subject cl') (aq_RevokedUntil req) store) = None"
      "cs_revocationStore (srv_credentialService s2) = Some (snd (rs_RevokeClass (dp_revocations D)
        (io_now io 6) (aq_CredentialClass req) (aq_KeyEpoch req) (aq_Reason req) (cl_Subject cl')
        (aq_RevokedUntil req) store))"
      by blast
    then show ?thesis
      using o2 by (intro exI [of _ cl'] exI [of _ req] exI [of _ store]) simp
  qed
qed

lemma keeps_apply: "keeps st h \<Longrightarrow> st (snd (snd (h io r w s))) = st s"
  by (simp add: keeps_def)

text \<open>Requests to other paths leave the revocations alone.\<close>

lemma ServeHTTP_keeps_revocations:
  assumes "rq_Path r \<noteq> ''/v1/admin/revoke''"
  shows "cs_revocationStore (srv_credentialService (snd (snd (ServeHTTP D io r w s)))) =
    cs_revocationStore (srv_credentialService s)"
proof -
  let ?st = "\<lambda>s. cs_revocationStore (srv_credentialService s)"
  show ?thesis
  proof (cases rule: ServeHTTP_cases [of r D io w s])
    case consume
    then show ?thesis using keeps_apply [OF keeps_limited [OF aside_parts(2) keeps_revocations(2)]] by simp
  next
    case (protected role h)
    have "h \<in> {handleIssue D, handleAdminListRevocations D}"
      using protected(4) assms by (simp add: protected_handlers_def)
    then have "keeps ?st (limited D (RequireRole D role h))"
      using keeps_limited [OF aside_parts(2) keeps_RequireRole] keeps_revocations by blast
    from keeps_apply [OF this] show ?thesis using protected(2) by simp
  next
    case health
    then show ?thesis by (simp add: handleHealth_def split: option.splits)
  next
    case metrics
    then show ?thesis by (simp add: metricsHandler_def)
  next
    case (demo h)
    then have "keeps ?st (RecoveryMiddleware (LoggerMiddleware h))"
      using keeps_plain [OF aside_parts(2)] keeps_revocations by blast
    from keeps_apply [OF this] show ?thesis using demo(1) by simp
  next
    case (unmatched msg code)
    then show ?thesis by simp
  qed
qed


lemma http_run_keeps_revocations:
  assumes "\<forall>(io, r) \<in> set reqs. rq_Path r \<noteq> ''/v1/admin/revoke''"
  shows "cs_revocationStore (srv_credentialService (snd (http_run D reqs s))) =
    cs_revocationStore (srv_credentialService s)"
  using assms unfolding http_run_def
proof (induction reqs arbitrary: s)
  case (Cons q reqs)
  obtain io r where q: "q = (io, r)" by (cases q)
  have "cs_revocationStore (srv_credentialService (snd (http_step D q s))) =
      cs_revocationStore (srv_credentialService s)"
    using ServeHTTP_keeps_revocations [of r D io fresh_writer s] Cons.prems q
    by (simp add: http_step_def split_beta Let_def)
  then show ?case using Cons.IH [of "snd (http_step D q s)"] Cons.prems by (simp add: split_beta Let_def)
qed simp

subsection \<open>Other administration leaves a revocation in force\<close>

definition unrevoke_of ::
    "('p1, 'p2, 's, 'ml, 'e, 'n, 'r, 'l) deps \<Rightarrow> io \<Rightarrow> request \<Rightarrow> admin_unrevoke_request option" where
  "unrevoke_of D io r = (case Decode (dp_decode_error D) decode_unrevoke r of
       Inl err \<Rightarrow> None
     | Inr req \<Rightarrow> if ValidateAdminUnrevokeRequest (dp_validator D) (io_now io 5) req = None then Some req else None)"

lemma unrevoke_of_inner:
  "unrevoke_of D io (inner_request ctx r) = unrevoke_of D io (MaxBytesReader (2 ^ 20) r)"
  "unrevoke_of D io (r'\<lparr>rq_ctx := c\<rparr>) = unrevoke_of D io r'"
proof -
  have "inner_request ctx r = (MaxBytesReader (2 ^ 20) r)\<lparr>rq_ctx := ctx\<rparr>"
    by (simp add: inner_request_def MaxBytesReader_def)
  then show "unrevoke_of D io (inner_request ctx r) = unrevoke_of D io (MaxBytesReader (2 ^ 20) r)"
    unfolding unrevoke_of_def by (simp only: Decode_ctx)
qed (simp add: unrevoke_of_def)

text \<open>
  Whether a request, read up to the body limit, revokes a class and an epoch anew or lifts the
  revocation, as far as the key of the in-memory store tells.
\<close>

definition concerns ::
    "('p1, 'p2, 's, 'ml, 'e, 'n, 'r, 'l) deps \<Rightarrow> io \<Rightarrow> request \<Rightarrow> string \<Rightarrow> string \<Rightarrow> bool" where
  "concerns D io r cls ep \<longleftrightarrow> rq_Path r = ''/v1/admin/revoke'' \<and>
     ((\<exists>rv. revoke_of D io (MaxBytesReader (2 ^ 20) r) = Some rv \<and>
         mem_revocationKey (aq_CredentialClass rv) (aq_KeyEpoch rv) = mem_revocationKey cls ep) \<or>
      (\<exists>uv. unrevoke_of D io (MaxBytesReader (2 ^ 20) r) = Some uv \<and>
         mem_revocationKey (uq_CredentialClass uv) (uq_KeyEpoch uv) = mem_revocationKey cls ep))"

definition entry_under :: "string \<Rightarrow> ('p1, 'e, 'n, revocation_mem, 'l) server \<Rightarrow> revocation_entry option" where
  "entry_under k s = Option.bind (cs_revocationStore (srv_credentialService s)) (\<lambda>st. rm_store st k)"

lemma admin_handlers_entry:
  fixes D :: "('p1, 'p2, 's, 'ml, 'e, 'n, revocation_mem, 'l) deps"
  assumes D: "dp_revocations D = InMemoryRevocationStore"
  shows "(\<And>rv. revoke_of D io r = Some rv \<Longrightarrow> mem_revocationKey (aq_CredentialClass rv) (aq_KeyEpoch rv) \<noteq> k) \<Longrightarrow>
      handleAdminRevoke D io r w s = (out, w', s') \<Longrightarrow> entry_under k s' = entry_under k s"
    and "(\<And>uv. unrevoke_of D io r = Some uv \<Longrightarrow> mem_revocationKey (uq_CredentialClass uv) (uq_KeyEpoch uv) \<noteq> k) \<Longrightarrow>
      handleAdminUnrevoke D io r w s = (out, w', s') \<Longrightarrow> entry_under k s' = entry_under k s"
  by (auto simp: handleAdminRevoke_def handleAdminUnrevoke_def revoke_of_def unrevoke_of_def entry_under_def D
      InMemoryRevocationStore_def mem_RevokeClass_def mem_UnrevokeClass_def Let_def split_beta
      srv_revocationStore_def set_revocationStore_def split: sum.splits option.splits if_splits)

lemma ServeHTTP_keeps_entry:
  fixes D :: "('p1, 'p2, 's, 'ml, 'e, 'n, revocation_mem, 'l) deps"
  assumes D: "dp_revocations D = InMemoryRevocationStore" and c: "\<not> concerns D io r cls ep"
  shows "entry_under (mem_revocationKey cls ep) (snd (snd (ServeHTTP D io r w s))) = entry_under (mem_revocationKey cls ep) s"
proof (cases "rq_Path r = ''/v1/admin/revoke''")
  case False
  then show ?thesis by (simp add: entry_under_def ServeHTTP_keeps_revocations)
next
  case True
  let ?k = "mem_revocationKey cls ep"
  show ?thesis
  proof (cases rule: ServeHTTP_cases [of r D io w s])
    case (protected role h)
    have h: "h \<in> {handleAdminRevoke D, handleAdminUnrevoke D}"
      using protected(4) True by (simp add: protected_handlers_def)
    show ?thesis
    proof (cases rule: limited_cases [of io r D "RequireRole D role h" w s])
      case no_id
      then show ?thesis using protected(2) by simp
    next
      case (denied ctx reqID s1)
      then show ?thesis using protected(2) rate_limited_frame [OF denied(2)] by (simp add: entry_under_def)
    next
      case (served ctx reqID s1 out rw s2)
      let ?r = "inner_request ctx r"
      have rv: "revoke_of D io (?r\<lparr>rq_ctx := x\<rparr>) = Some rv \<Longrightarrow> mem_revocationKey (aq_CredentialClass rv) (aq_KeyEpoch rv) \<noteq> ?k"
        "unrevoke_of D io (?r\<lparr>rq_ctx := x\<rparr>) = Some uv \<Longrightarrow> mem_revocationKey (uq_CredentialClass uv) (uq_KeyEpoch uv) \<noteq> ?k"
        for rv uv x
        using c True by (auto simp: concerns_def revoke_of_inner unrevoke_of_inner)
      have "entry_under ?k s2 = entry_under ?k s1"
        using served(3) h admin_handlers_entry(1) [OF D rv(1)] admin_handlers_entry(2) [OF D rv(2)]
        by (auto simp: RequireRole_def split: sum.splits if_splits)
      moreover have "entry_under ?k s1 = entry_under ?k s"
        using rate_limited_frame [OF served(2)] by (simp add: entry_under_def)
      ultimately show ?thesis using protected(2) served(4) by (cases out) (simp_all add: entry_under_def)
    qed
  qed (use True in \<open>simp_all add: entry_under_def\<close>)
qed

lemma http_run_keeps_entry:
  fixes D :: "('p1, 'p2, 's, 'ml, 'e, 'n, revocation_mem, 'l) deps"
  assumes "dp_revocations D = InMemoryRevocationStore" and "\<forall>(io, r) \<in> set reqs. \<not> concerns D io r cls ep"
  shows "entry_under (mem_revocationKey cls ep) (snd (http_run D reqs s)) = entry_under (mem_revocationKey cls ep) s"
  using assms(2) unfolding http_run_def
proof (induction reqs arbitrary: s)
  case (Cons q reqs)
  obtain io r where q: "q = (io, r)" by (cases q)
  have "entry_under (mem_revocationKey cls ep) (snd (http_step D q s)) = entry_under (mem_revocationKey cls ep) s"
    using ServeHTTP_keeps_entry [OF assms(1), of io r cls ep fresh_writer s] Cons.prems q
    by (simp add: http_step_def split_beta Let_def)
  then show ?case using Cons.IH [of "snd (http_step D q s)"] Cons.prems by (simp add: split_beta Let_def)
qed simp

text \<open>A redemption that is granted passed the revocation check.\<close>

lemma granted_not_revoked:
  assumes "fst (http_step D (io, r) s)"
  shows "\<exists>req. consume_of D io (MaxBytesReader (2 ^ 20) r) = Some req \<and>
    not_revoked (dp_revocations D) (io_now io 6) (cq_CredentialClass req) (cq_KeyEpoch req) (srv_credentialService s)"
proof -
  obtain out w' s' where S: "ServeHTTP D io r fresh_writer s = (out, w', s')"
    by (cases "ServeHTTP D io r fresh_writer s")
  have m: "rq_Method r = ''POST''" "rq_Path r = ''/v1/credential/consume''" "sent_status w' = Some 200"
    using assms S by (simp_all add: http_step_def)
  have L: "limited D (handleConsume D) io r fresh_writer s = (out, w', s')"
    using S ServeHTTP_consume [OF m(1,2), of D io fresh_writer s] by simp
  have fw: "wrapped fresh_writer" "sent_status fresh_writer = None" by (simp_all add: sent_status_def)
  show ?thesis
  proof (cases rule: limited_cases [of io r D "handleConsume D" fresh_writer s])
    case no_id
    then show ?thesis using L m(3) fw by (auto simp: respond_status)
  next
    case (denied ctx reqID s1)
    then show ?thesis
      using L m(3) inner_writer_ok(1) [OF fw, of reqID] inner_writer_ok(2) [of reqID fresh_writer] fw
      by (auto simp: respond_status)
  next
    case (served ctx reqID s1 o2 rw s2)
    have iw: "wrapped (inner_writer reqID fresh_writer)" "sent_status (inner_writer reqID fresh_writer) = None"
      using inner_writer_ok(1) [OF fw, of reqID] inner_writer_ok(2) [of reqID fresh_writer] fw by simp_all
    note e = handleConsume_effect [OF served(3) iw]
    have "sent_status rw = Some 200" using served(4) L m(3) e by auto
    then obtain req where r: "consume_of D io (inner_request ctx r) = Some req"
      and "accepted (fst (consume_call D io (rq_ctx (inner_request ctx r)) req (srv_credentialService s1)))"
      using e by (auto simp: Let_def split: option.splits prod.splits)
    then have "\<exists>sig. admissible (dp_blst D) (dp_memguard D) (dp_revocations D) (io_now io 6)
        (rq_ctx (inner_request ctx r)) (cq_UnblindedSignature req) (cq_Witness req) (cq_CredentialClass req)
        (cq_KeyEpoch req) (srv_credentialService s1) sig"
      using Consume_inadmissible(1) unfolding consume_call_def by blast
    then have "not_revoked (dp_revocations D) (io_now io 6) (cq_CredentialClass req) (cq_KeyEpoch req)
        (srv_credentialService s1)"
      by (auto simp: admissible_def consume_admit_None_iff)
    then show ?thesis using r rate_limited_frame [OF served(2)] by (auto simp: consume_of_inner)
  qed
qed

end
