(* ===== verification/ApiSamples.thy ===== *)
theory ApiSamples
  imports Api
begin

section \<open>A concrete server\<close>

text \<open>
  A server on the reference group, the in-memory stores and a verifier that knows one token,
  with an administrator's revocation and a redemption as requests. The properties of the HTTP
  interface are applied to it.
\<close>

subsection \<open>The server and its requests\<close>

definition sample_deps ::
    "(z3, z3, z3, z3, bytes, nullifier_mem, revocation_mem, int) deps" where
  "sample_deps = \<lparr> dp_blst = z3_blst, dp_memguard = plain_memguard,
     dp_nullifiers = InMemoryNullifierStore, dp_revocations = InMemoryRevocationStore,
     dp_validator = reference_validator, dp_jwt = table_jwt ''tok'' ''key'' sample_claims,
     dp_rate = counting_buckets, dp_decode_error = (\<lambda>b cut. Errorf ''invalid JSON''),
     dp_time = (\<lambda>t. None), dp_metrics_page = (\<lambda>m w. w) \<rparr>"

definition sample_server :: "(z3, bytes, nullifier_mem, revocation_mem, int) server" where
  "sample_server = \<lparr> srv_credentialService = sample_service,
     srv_jwtValidator = NewJWTValidator \<lparr> vc_Secret = ''key'', vc_Issuer = '''', vc_Audience = '''' \<rparr>,
     srv_rateLimiter = NewRateLimiter 0 0 0, srv_demoStore = Some NewDemoStore, srv_httpServer = None \<rparr>"

definition sample_io :: io where
  "sample_io = \<lparr> io_now = (\<lambda>_. 0), io_rand = Inr ''noise'', io_uuid = Some ''id'', io_ticket = Some ''ticket'', io_order = [] \<rparr>"

definition sample_request :: "string \<Rightarrow> string \<Rightarrow> (string \<times> json) list \<Rightarrow> request" where
  "sample_request httpMethod path ms = \<lparr> rq_Method = httpMethod, rq_Path = path, rq_RawQuery = '''',
     rq_RemoteAddr = ''8.8.8.8'', rq_Header = [''Authorization'' \<mapsto> ''Bearer tok''],
     rq_Body = Marshal (json_object ms), rq_limit = None, rq_ctx = background \<rparr>"

text \<open>A body that was printed is decoded as it was.\<close>

lemma Decode_printed:
  assumes "rq_Body r = Marshal (JObj ms)" and "good_json (JObj ms)" and "json_depth (JObj ms) \<le> max_nesting"
    and "length (rq_Body r) \<le> 2 ^ 20" and "rq_limit r \<in> {None, Some (2 ^ 20)}"
  shows "Decode e f r = (case f ms of None \<Rightarrow> Inl (e (rq_Body r) False) | Some x \<Rightarrow> Inr x)"
proof -
  have "readable r = (rq_Body r, False)" using assms(4,5) by (auto simp: readable_def)
  moreover have "json_first (rq_Body r) = Some (JObj ms, [])"
    using Marshal_first [OF assms(2,3), of "[]"] assms(1) by simp
  ultimately show ?thesis by (simp add: Decode_def)
qed

definition revoke_body :: "(string \<times> json) list" where
  "revoke_body = [(''credential_class'', json_string ''gold''), (''key_epoch'', json_string ''2026-01''),
     (''reason'', json_string ''leak'')]"

lemma revoke_body_decoded:
  "decode_revoke (map (\<lambda>(k, v). (json_escape k, v)) revoke_body) =
     Some \<lparr> aq_CredentialClass = ''gold'', aq_KeyEpoch = ''2026-01'', aq_Reason = ''leak'', aq_RevokedUntil = None \<rparr>"
proof -
  have "struct_members [''credential_class'', ''key_epoch'', ''reason'', ''revoked_until'']
      (map (\<lambda>(k, v). (json_escape k, v)) revoke_body) = revoke_body"
    by (rule struct_members_printed) (simp add: revoke_body_def)
  then show ?thesis
    by (simp add: decode_revoke_def revoke_body_def json_string_def unquote_json_escape)
qed

lemma revoke_body_ok:
  "good_json (json_object revoke_body)" "json_depth (json_object revoke_body) \<le> max_nesting"
proof -
  have "\<forall>m \<in> set revoke_body. good_json (snd m) \<and> json_depth (snd m) \<le> 0"
    by (simp add: revoke_body_def good_json_string)
  from good_json_object [OF this] show "good_json (json_object revoke_body)"
    "json_depth (json_object revoke_body) \<le> max_nesting" by (auto simp: max_nesting_def)
qed

lemma sample_revoke_length:
  "length (rq_Body (sample_request m p revoke_body)) \<le> 1048576"
  by (simp add: sample_request_def Marshal_def json_object_def revoke_body_def json_string_def json_escape_safe html_safe_def)

lemma sample_revoke_decode:
  assumes "rq_Body r = rq_Body (sample_request m p revoke_body)" "rq_limit r \<in> {None, Some (2 ^ 20)}"
  shows "Decode e decode_revoke r =
    Inr \<lparr> aq_CredentialClass = ''gold'', aq_KeyEpoch = ''2026-01'', aq_Reason = ''leak'', aq_RevokedUntil = None \<rparr>"
proof -
  have "rq_Body r = Marshal (JObj (map (\<lambda>(k, v). (json_escape k, v)) revoke_body))"
    using assms(1) by (simp add: sample_request_def json_object_def)
  then show ?thesis
    using Decode_printed [of r _ e decode_revoke] revoke_body_ok sample_revoke_length [of m p] assms
    by (simp add: revoke_body_decoded json_object_def)
qed

abbreviation "sample_revocation \<equiv>
  \<lparr> aq_CredentialClass = ''gold'', aq_KeyEpoch = ''2026-01'', aq_Reason = ''leak'', aq_RevokedUntil = None \<rparr>"

lemma sample_revocation_valid:
  "ValidateAdminRevokeRequest reference_validator now sample_revocation = None"
  by (simp add: ValidateAdminRevokeRequest_def ValidateStruct_def reference_validator_def fields_pass_def
      revoke_fields_def registered_def class_tag_def epoch_tag_def Class_iff class_char_def is_letter_def
      is_digit_def Epoch_def ReEpoch_def Let_def upt_rec)

text \<open>The sample server limits nobody, so a limited route runs its handler.\<close>

abbreviation "sample_ctx \<equiv> background\<lparr>cx_request_id := Some ''id''\<rparr>"

lemma sample_limited:
  assumes "srv_rateLimiter s = NewRateLimiter 0 0 0"
    and "h sample_io (inner_request sample_ctx (sample_request m p ms)) (inner_writer ''id'' fresh_writer) s =
      (Returned, rw, s2)"
  shows "limited sample_deps h sample_io (sample_request m p ms) fresh_writer s =
    (Returned, embedded rw, recorded sample_io (sample_request m p ms) (Status rw) s2)"
proof -
  let ?r = "sample_request m p ms"
  have id: "WithRequestID sample_io (rq_ctx ?r) = Some (sample_ctx, ''id'')"
    by (simp add: WithRequestID_def sample_request_def sample_io_def background_def)
  have rl: "rate_limited sample_deps sample_io ?r s = (True, s)"
    using assms(1) by (simp add: rate_limited_def NewRateLimiter_def Allow_def)
  show ?thesis
    by (cases rule: limited_cases [of sample_io ?r sample_deps h fresh_writer s])
      (use id rl assms(2) in auto)
qed

lemma sample_authenticate:
  assumes "rq_Header r = [''Authorization'' \<mapsto> ''Bearer tok'']"
    and "srv_jwtValidator s = srv_jwtValidator sample_server"
  shows "authenticate sample_deps sample_io r s = Inr sample_claims"
proof -
  have "JWT_Validate (table_jwt ''tok'' ''key'' sample_claims) (srv_jwtValidator sample_server) 0 ''tok'' =
      Inr sample_claims"
    by (simp add: JWT_Validate_def table_jwt_def jwt_options_of_def keyfunc_of_def sample_server_def
        NewJWTValidator_def sample_claims_def)
  then show ?thesis
    using assms by (simp add: authenticate_def Header_Get_def EqualFold_def to_lower_def Let_def
        sample_deps_def sample_io_def)
qed

lemma sample_inner [simp]:
  "rq_Header (inner_request ctx (sample_request m p ms)) = [''Authorization'' \<mapsto> ''Bearer tok'']"
  "rq_ctx (inner_request ctx r) = ctx"
  "rq_limit (inner_request ctx (sample_request m p ms)) = Some 1048576"
  "rq_Body (inner_request ctx r) = rq_Body r"
  by (simp_all add: inner_request_def MaxBytesReader_def sample_request_def)

lemma sample_server_simps [simp]:
  "srv_rateLimiter sample_server = NewRateLimiter 0 0 0"
  "srv_credentialService sample_server = sample_service"
  "srv_demoStore sample_server = Some NewDemoStore"
  by (simp_all add: sample_server_def)

lemma sample_deps_simps [simp]:
  "dp_validator sample_deps = reference_validator" "dp_revocations sample_deps = InMemoryRevocationStore"
  "dp_nullifiers sample_deps = InMemoryNullifierStore" "dp_blst sample_deps = z3_blst"
  "dp_memguard sample_deps = plain_memguard" "dp_jwt sample_deps = table_jwt ''tok'' ''key'' sample_claims"
  by (simp_all add: sample_deps_def)

lemma fresh_inner_writer:
  "wrapped (inner_writer i fresh_writer)" "sent_status (inner_writer i fresh_writer) = None"
  by (simp_all add: inner_writer_def newResponseWriter_def sent_status_def wrapped_Header_Set)

lemma sample_revoke_200:
  "sent_status (fst (snd (ServeHTTP sample_deps sample_io
     (sample_request ''POST'' ''/v1/admin/revoke'' revoke_body) fresh_writer sample_server))) = Some 200"
proof -
  let ?r = "sample_request ''POST'' ''/v1/admin/revoke'' revoke_body"
  let ?h = "RequireRole sample_deps ''admin'' (handleAdminRevoke sample_deps)"
  have m: "rq_Method ?r = ''POST''" "rq_Path ?r = ''/v1/admin/revoke''" by (simp_all add: sample_request_def)
  have d: "Decode e decode_revoke (inner_request c ?r) = Inr sample_revocation" for e c
    by (rule sample_revoke_decode) simp_all
  have "\<exists>s2. ?h sample_io (inner_request sample_ctx ?r) (inner_writer ''id'' fresh_writer) sample_server =
      (Returned, respondJSON (inner_writer ''id'' fresh_writer) 200 (Some (status_json ''revoked'')), s2)"
    by (simp add: RequireRole_def sample_authenticate HasRole_def sample_claims_def handleAdminRevoke_def
        d sample_revocation_valid srv_revocationStore_def InMemoryRevocationStore_def mem_RevokeClass_def Let_def)
  then show ?thesis
    using sample_limited [of sample_server ?h] fresh_inner_writer
    by (auto simp: ServeHTTP_revoke [OF m] respond_status)
qed

definition consume_body :: "(string \<times> json) list" where
  "consume_body = [(''unblinded_signature'', json_string (hex_encode (z3_enc 48 Z2))),
     (''witness'', json_string (hex_encode (z3_enc 48 Z2))), (''credential_class'', json_string ''gold''),
     (''key_epoch'', json_string ''2026-01'')]"

abbreviation "sample_consume \<equiv> \<lparr> cq_UnblindedSignature = hex_encode (z3_enc 48 Z2),
  cq_Witness = hex_encode (z3_enc 48 Z2), cq_CredentialClass = ''gold'', cq_KeyEpoch = ''2026-01'' \<rparr>"

lemma hex_safe: "\<forall>c \<in> set (hex_encode bs). html_safe c \<and> is_ascii c"
proof -
  have "\<forall>n \<in> set [0..<16]. html_safe (hex_digit n)"
    by (simp add: upt_rec hex_digit_def hextable_def html_safe_def)
  then have "html_safe (hex_digit (n mod 16))" for n by simp
  then have "html_safe (hex_digit n)" for n by (simp add: hex_digit_def)
  then show ?thesis using ascii_hex_encode [of bs] by (induction bs) simp_all
qed

lemma length_z3_hex: "length (hex_encode (z3_enc 48 p)) = 96"
  by (simp add: z3_enc_def)

lemma consume_body_decoded:
  "decode_consume (map (\<lambda>(k, v). (json_escape k, v)) consume_body) = Some sample_consume"
proof -
  have "struct_members [''unblinded_signature'', ''witness'', ''credential_class'', ''key_epoch'']
      (map (\<lambda>(k, v). (json_escape k, v)) consume_body) = consume_body"
    by (rule struct_members_printed) (simp add: consume_body_def)
  then show ?thesis
    using valid_utf8_ascii [OF ascii_hex_encode]
    by (simp add: decode_consume_def consume_body_def json_string_def unquote_json_escape)
qed

lemma sample_consume_decode:
  assumes "rq_Body r = rq_Body (sample_request m p consume_body)" "rq_limit r \<in> {None, Some (2 ^ 20)}"
  shows "Decode e decode_consume r = Inr sample_consume"
proof -
  have g: "\<forall>m \<in> set consume_body. good_json (snd m) \<and> json_depth (snd m) \<le> 0"
    by (simp add: consume_body_def good_json_string)
  have len: "length (json_escape (hex_encode (z3_enc 48 Z2))) = 96"
    by (simp only: json_escape_safe [OF hex_safe] length_z3_hex)
  have "length (Marshal (json_object consume_body)) \<le> 1048576"
    by (simp add: len Marshal_def json_object_def consume_body_def json_string_def
        json_escape_safe html_safe_def)
  moreover have "rq_Body r = Marshal (JObj (map (\<lambda>(k, v). (json_escape k, v)) consume_body))"
    using assms(1) by (simp add: sample_request_def json_object_def)
  ultimately show ?thesis
    using Decode_printed [of r _ e decode_consume] good_json_object [OF g] assms
    by (simp add: consume_body_decoded json_object_def max_nesting_def)
qed

lemma sample_consume_valid: "ValidateConsumeRequest reference_validator now sample_consume = None"
proof -
  have "hex_decode (hex_encode (z3_enc 48 Z2)) = Inr (z3_enc 48 Z2)" "length (z3_enc 48 Z2) = 48"
    by (simp_all add: z3_enc_def)
  then have h: "hex_len_tag (FString (hex_encode (z3_enc 48 Z2))) ''48''" 
    using TrimSpace_hex [of "hex_encode (z3_enc 48 Z2)"] hex_decode_digits [of "hex_encode (z3_enc 48 Z2)" "z3_enc 48 Z2"]
    by (auto simp: hex_len_tag_def Atoi_48)
  have "length (z3_enc 48 Z2) = 48" by (simp add: z3_enc_def)
  then have "z3_enc 48 Z2 \<noteq> []" by (metis list.size(3) zero_neq_numeral)
  with h show ?thesis
    by (simp add: ValidateConsumeRequest_def ValidateStruct_def reference_validator_def fields_pass_def
      consume_fields_def registered_def class_tag_def epoch_tag_def Class_iff class_char_def is_letter_def
      is_digit_def Epoch_def ReEpoch_def Let_def upt_rec)
qed

lemma sample_consume_of:
  "consume_of sample_deps sample_io (MaxBytesReader (2 ^ 20) (sample_request m p consume_body)) = Some sample_consume"
proof -
  have "Decode e decode_consume (MaxBytesReader (2 ^ 20) (sample_request m p consume_body)) = Inr sample_consume" for e
    by (rule sample_consume_decode) (simp_all add: MaxBytesReader_def sample_request_def)
  then show ?thesis by (simp add: consume_of_def sample_consume_valid)
qed

lemma sample_revoke_of:
  "revoke_of sample_deps sample_io (MaxBytesReader (2 ^ 20) (sample_request m p revoke_body)) = Some sample_revocation"
proof -
  have "Decode e decode_revoke (MaxBytesReader (2 ^ 20) (sample_request m p revoke_body)) = Inr sample_revocation" for e
    by (rule sample_revoke_decode) (simp_all add: MaxBytesReader_def sample_request_def)
  then show ?thesis by (simp add: revoke_of_def sample_revocation_valid)
qed

lemma only_metrics_store: "t = s\<lparr>cs_metrics := x\<rparr> \<Longrightarrow> cs_revocationStore t = cs_revocationStore s"
  by simp

end
