(* ===== verification/Replies.thy ===== *)
theory Replies
  imports Api
begin

section \<open>The replies of the server\<close>

text \<open>
  What every response has in common, from the handlers through the middlewares to the route
  table: a predicate on writers that holds of each single response the code makes holds of the
  reply to every request. It is used for the texts of server errors and for the types of all
  responses.
\<close>

subsection \<open>The contract of a kind of reply\<close>

text \<open>The JSON values handlers answer with.\<close>

definition response_forms :: "('p1, 'p2, 's, 'ml, 'e, 'n, 'r, 'l) deps \<Rightarrow> json option set" where
  "response_forms D = range (\<lambda>res. Some (issue_response_json res)) \<union>
     range (\<lambda>(v, err). Some (consume_response_json v err)) \<union> range (\<lambda>st. Some (status_json st)) \<union>
     range (revocations_json (dp_time D)) \<union>
     range (\<lambda>v. Some (json_object [(''ticket_id'', json_string v)])) \<union>
     range (\<lambda>v. Some (json_object [(''ciphertext'', json_string v)]))"

lemma response_formsI [simp, intro]:
  "Some (issue_response_json res) \<in> response_forms D" "Some (consume_response_json v err) \<in> response_forms D"
  "Some (status_json st) \<in> response_forms D" "revocations_json (dp_time D) es \<in> response_forms D"
  "Some (json_object [(''ticket_id'', json_string t)]) \<in> response_forms D"
  "Some (json_object [(''ciphertext'', json_string t)]) \<in> response_forms D"
  unfolding response_forms_def by (blast, force, blast+)

text \<open>A handler writes one response, or nothing when it does not return.\<close>

definition replies :: "(writer \<Rightarrow> bool) \<Rightarrow> 's handler \<Rightarrow> bool" where
  "replies P h \<longleftrightarrow> (\<forall>io r w s. unwritten w \<longrightarrow> (case h io r w s of
     (Returned, w', s') \<Rightarrow> P w' | (_, w', s') \<Rightarrow> w' = w))"

lemma repliesD:
  assumes "replies P h" and "h io r w s = (out, w', s')" and "unwritten w"
  shows "out = Returned \<Longrightarrow> P w'" and "out \<noteq> Returned \<Longrightarrow> w' = w"
  using assms(1) [unfolded replies_def, rule_format, OF assms(3), of io r s] assms(2)
  by (auto split: outcome.splits)

locale reply_contract =
  fixes D :: "('p1, 'p2, 's, 'ml, 'e, 'n, 'r, 'l) deps"
    and reply :: "writer \<Rightarrow> bool"
  assumes same_base: "base_of w' = base_of w \<Longrightarrow> reply w \<Longrightarrow> reply w'"
    and error_reply: "unwritten w \<Longrightarrow> reply (respondErr w err)"
    and data_reply: "unwritten w \<Longrightarrow> data \<in> response_forms D \<Longrightarrow> code \<in> {200, 409} \<Longrightarrow> reply (respondJSON w code data)"
    and unmatched_reply: "unwritten w \<Longrightarrow>
      (msg, code) \<in> {(''Method Not Allowed'', 405), (''404 page not found'', 404)} \<Longrightarrow> reply (http_Error msg code w)"
begin

lemma embedded_reply: "reply w \<Longrightarrow> reply (embedded w)"
  by (rule same_base [OF base_of_embedded])

lemma replies_handlers:
  "replies reply (handleIssue D)" "replies reply (handleConsume D)" "replies reply (handleAdminRevoke D)"
  "replies reply (handleAdminUnrevoke D)" "replies reply (handleAdminListRevocations D)"
  "replies reply (handleHealth D)" "replies reply (handleStoreCredential D)" "replies reply (handleRetrieveCredential D)"
  by (auto simp: replies_def handleIssue_def handleConsume_def handleAdminRevoke_def
      handleAdminUnrevoke_def handleAdminListRevocations_def handleHealth_def handleStoreCredential_def
      handleRetrieveCredential_def Let_def split_beta error_reply data_reply
      split: sum.splits option.splits consume_status.splits)

lemma replies_RequireRole: "replies reply h \<Longrightarrow> replies reply (RequireRole D role h)"
  by (auto simp: replies_def RequireRole_def error_reply split: sum.splits)

lemma limited_replies:
  assumes "replies reply h" and w: "unwritten w" and "limited D h io r w s = (out, w', s')" and "out \<noteq> Hung"
  shows "reply w'"
proof (cases rule: limited_cases [of io r D h w s])
  case no_id
  then show ?thesis using assms(3) w by (auto simp: error_reply)
next
  case (denied ctx reqID s1)
  then show ?thesis using assms(3) w by (auto simp: error_reply embedded_reply)
next
  case (served ctx reqID s1 o2 rw s2)
  note d = repliesD [OF assms(1) served(3) unwritten_inner [OF w]]
  show ?thesis
    using served(4) assms(3,4) d w
    by (cases o2) (auto simp: error_reply unwritten_embedded embedded_reply)
qed

lemma plain_replies:
  assumes "replies reply h" and w: "unwritten w"
    and "RecoveryMiddleware (LoggerMiddleware h) io r w s = (out, w', s')" and "out \<noteq> Hung"
  shows "reply w'"
proof (cases "WithRequestID io (rq_ctx r)")
  case None
  then show ?thesis
    using assms(3) w by (auto simp: RecoveryMiddleware_def LoggerMiddleware_def error_reply)
next
  case (Some p)
  then obtain ctx reqID where id: "WithRequestID io (rq_ctx r) = Some (ctx, reqID)" by (cases p) auto
  obtain o2 rw s2 where hh: "h io (r\<lparr>rq_ctx := ctx\<rparr>) (inner_writer reqID w) s = (o2, rw, s2)"
    by (cases "h io (r\<lparr>rq_ctx := ctx\<rparr>) (inner_writer reqID w) s")
  note d = repliesD [OF assms(1) hh unwritten_inner [OF w]]
  show ?thesis
    using assms(3,4) d hh w
    by (cases o2) (auto simp: RecoveryMiddleware_def LoggerMiddleware_def id inner_writer_def embedded_reply
        error_reply unwritten_embedded [OF unwritten_inner [OF w, unfolded inner_writer_def]])
qed

lemma ServeHTTP_replies:
  assumes "ServeHTTP D io r fresh_writer s = (out, w', s')" and "out \<noteq> Hung" and "rq_Path r \<noteq> ''/metrics''"
  shows "reply w'"
proof (cases rule: ServeHTTP_cases [of r D io fresh_writer s])
  case consume
  then show ?thesis using limited_replies [OF replies_handlers(2) unwritten_fresh] assms(1,2) by metis
next
  case (protected role h)
  then have "replies reply h" using replies_handlers by blast
  then show ?thesis
    using limited_replies [OF replies_RequireRole unwritten_fresh] protected(2) assms(1,2) by metis
next
  case health
  then show ?thesis
    using assms(1) by (auto simp: handleHealth_def error_reply data_reply split: option.splits)
next
  case metrics
  then show ?thesis using assms(3) by simp
next
  case (demo h)
  then have "replies reply h" using replies_handlers by blast
  then show ?thesis using plain_replies [OF _ unwritten_fresh] demo(1) assms(1,2) by metis
next
  case (unmatched msg code)
  then show ?thesis using assms(1) by (auto simp: unmatched_reply)
qed

end

subsection \<open>What a server error tells\<close>

definition opaque_reply :: "writer \<Rightarrow> bool" where
  "opaque_reply w \<longleftrightarrow> (\<forall>st. sent_status w = Some st \<longrightarrow> 500 \<le> st \<longrightarrow> bw_body (base_of w) \<in>
     {error_body 500 ''Internal Server Error'', error_body 503 ''Service Unavailable'',
      ''internal server error'' @ [CHR 0x0A]})"

interpretation opaque_contract: reply_contract D opaque_reply
  for D :: "('p1, 'p2, 's, 'ml, 'e, 'n, 'r, 'l) deps"
proof
  show "opaque_reply (respondErr w err)" if "unwritten w" for w err
    using that HTTPStatus_server_iff [of "CodeOf err"]
    by (auto simp: opaque_reply_def respond_status unwritten_status respondErr_body Let_def StatusText_def)
  show "opaque_reply (respondJSON w code data)" if "unwritten w" "code \<in> {200, 409}" for w code data
    using that by (auto simp: opaque_reply_def respond_status unwritten_status respondJSON_body split: option.splits)
  show "opaque_reply (http_Error msg code w)" if "unwritten w"
    "(msg, code) \<in> {(''Method Not Allowed'', 405), (''404 page not found'', 404)}" for w msg code
    using that by (auto simp: opaque_reply_def http_Error_status unwritten_status)
qed (simp add: opaque_reply_def sent_status_def)

subsection \<open>The types of responses\<close>

text \<open>
  What was sent: a status and a content type with a body of that type. The body of a data
  response is one JSON object, the body of an error response is an object of its status and
  message and ends in a newline, and three fixed texts are sent as plain text.
\<close>

definition data_sent :: "nat \<Rightarrow> (string \<rightharpoonup> string) \<Rightarrow> bytes \<Rightarrow> bool" where
  "data_sent st h body \<longleftrightarrow> st \<in> {200, 409} \<and> h ''Content-Type'' = Some ''application/json'' \<and>
     (\<exists>ms. json_whole body = Some (JObj ms))"

definition error_sent :: "nat \<Rightarrow> (string \<rightharpoonup> string) \<Rightarrow> bytes \<Rightarrow> bool" where
  "error_sent st h body \<longleftrightarrow> st \<in> {400, 401, 403, 404, 409, 429, 500, 503} \<and>
     h ''Content-Type'' = Some ''application/json'' \<and>
     (\<exists>msg. json_first body = Some (JObj [(''error'', JStr (json_escape msg)), (''code'', JNum (nat_str st))], [CHR 0x0A]))"

definition plain_sent :: "nat \<Rightarrow> (string \<rightharpoonup> string) \<Rightarrow> bytes \<Rightarrow> bool" where
  "plain_sent st h body \<longleftrightarrow> h ''Content-Type'' = Some ''text/plain; charset=utf-8'' \<and>
     (st, body) \<in> {(404, ''404 page not found'' @ [CHR 0x0A]), (405, ''Method Not Allowed'' @ [CHR 0x0A]),
       (500, ''internal server error'' @ [CHR 0x0A])}"

definition typed_reply :: "writer \<Rightarrow> bool" where
  "typed_reply w \<longleftrightarrow> (\<exists>st h. bw_sent (base_of w) = Some (st, h) \<and>
     (data_sent st h (bw_body (base_of w)) \<or> error_sent st h (bw_body (base_of w)) \<or>
      plain_sent st h (bw_body (base_of w))))"

lemma respondErr_sent:
  assumes "unwritten w"
  shows "bw_sent (base_of (respondErr w err)) = Some (HTTPStatus (CodeOf err),
    (bw_header (base_of w))(''Content-Type'' \<mapsto> ''application/json''))"
  using assms
  by (simp add: respondErr_def respondError_def Let_def split_beta unwritten_def base_of_WriteHeader
      wrapped_Header_Set base_WriteHeader_def base_Write_def)

lemma respondJSON_sent:
  assumes "unwritten w"
  shows "bw_sent (base_of (respondJSON w code (Some v))) = Some (code,
      (bw_header (base_of w))(''Content-Type'' \<mapsto> ''application/json''))"
    "\<exists>h. bw_sent (base_of (respondJSON w code None)) = Some (500, h) \<and> h ''Content-Type'' = Some ''text/plain; charset=utf-8''"
  using assms
  by (simp_all add: respondJSON_def http_Error_def Let_def unwritten_def base_of_WriteHeader
      wrapped_Header_Set wrapped_Header_Del base_WriteHeader_def base_Write_def)

lemma http_Error_sent:
  assumes "unwritten w"
  shows "\<exists>h. bw_sent (base_of (http_Error msg code w)) = Some (code, h) \<and> h ''Content-Type'' = Some ''text/plain; charset=utf-8''"
  using assms
  by (simp add: http_Error_def Let_def unwritten_def base_of_WriteHeader wrapped_Header_Set
      wrapped_Header_Del base_WriteHeader_def base_Write_def)

lemma status_texts:
  "nat_str 400 = ''400''" "nat_str 401 = ''401''" "nat_str 403 = ''403''" "nat_str 404 = ''404''"
  "nat_str 409 = ''409''" "nat_str 429 = ''429''" "nat_str 500 = ''500''" "nat_str 503 = ''503''"
  by code_simp+

lemma good_status: "st \<in> {400, 401, 403, 404, 409, 429, 500, 503} \<Longrightarrow> good_num (nat_str st)"
  by (elim insertE emptyE; simp add: good_num_def status_texts num_start_def in_range_def)

lemma error_body_read:
  assumes "st \<in> {400, 401, 403, 404, 409, 429, 500, 503}"
  shows "json_first (error_body st msg) =
    Some (JObj [(''error'', JStr (json_escape msg)), (''code'', JNum (nat_str st))], [CHR 0x0A])"
proof -
  let ?ms = "[(''error'', json_string msg), (''code'', JNum (nat_str st))]"
  have "\<forall>m \<in> set ?ms. good_json (snd m) \<and> json_depth (snd m) \<le> 0"
    using good_status [OF assms] by (simp add: good_json_string)
  note g = good_json_object [OF this]
  have "json_first (Marshal (json_object ?ms) @ [CHR 0x0A]) = Some (json_object ?ms, [CHR 0x0A])"
    by (rule Marshal_first) (use g in \<open>simp_all add: max_nesting_def json_object_def\<close>)
  then show ?thesis
    by (simp add: error_body_def error_response_json_def json_object_def json_string_def json_escape_safe html_safe_def)
qed

text \<open>The values handlers answer with are printed as JSON texts, if times are.\<close>

abbreviation good_value :: "nat \<Rightarrow> json \<Rightarrow> bool" where
  "good_value n v \<equiv> good_json v \<and> json_depth v \<le> n"

lemma good_object: "\<forall>m \<in> set ms. good_value n (snd m) \<Longrightarrow> good_value (Suc n) (json_object ms)"
  using good_json_object by blast

lemma good_array: "\<forall>v \<in> set vs. good_value n v \<Longrightarrow> good_value (Suc n) (JArr vs)"
  by (simp add: fold_max_bound)

lemma all_some_in: "all_some xs = Some ys \<Longrightarrow> y \<in> set ys \<Longrightarrow> Some y \<in> set xs"
  by (induction xs arbitrary: ys) (auto split: option.splits)

text \<open>The printer of times gives the inside of a JSON string.\<close>

definition prints_times :: "(instant \<Rightarrow> string option) \<Rightarrow> bool" where
  "prints_times F \<longleftrightarrow> (\<forall>t u. F t = Some u \<longrightarrow> good_token u)"

definition good_form :: "json \<Rightarrow> bool" where
  "good_form v \<longleftrightarrow> good_value 3 v \<and> (\<exists>ms. v = JObj ms)"

lemma entry_form_good:
  assumes F: "prints_times F" and "entry_form F e = Some v"
  shows "good_value 1 v"
proof -
  have F: "F t = Some u \<Longrightarrow> good_json (JStr u)" for t u using F by (simp add: prints_times_def)
  obtain a where a: "F (re_RevokedAt e) = Some a" using assms(2) by (auto simp: entry_form_def split: option.splits)
  have "good_value (Suc 0) v"
  proof (cases "re_RevokedUntil e")
    case None
    then show ?thesis
      using assms(2) F [OF a] unfolding entry_form_def a
      by (auto simp: good_json_string simp del: good_json.simps json_depth.simps(1,2) intro!: good_object
        split: if_splits)
  next
    case (Some u)
    then obtain b where b: "F u = Some b" using assms(2) a by (auto simp: entry_form_def split: option.splits)
    show ?thesis
      using assms(2) F [OF a] F [OF b] unfolding entry_form_def a
      by (auto simp: good_json_string Some b simp del: good_json.simps json_depth.simps(1,2) intro!: good_object
        split: if_splits)
  qed
  then show ?thesis by simp
qed

lemma revocations_good:
  assumes F: "prints_times F" and "revocations_json F es = Some v"
  shows "good_form v"
proof -
  obtain a where v: "v = json_object [(''revocations'', a)]"
    and a: "a = JNull \<or> (\<exists>xs ys. es = Some xs \<and> all_some (map (entry_form F) xs) = Some ys \<and> a = JArr ys)"
    using assms(2) by (auto simp: revocations_json_def split: option.splits)
  have "good_value 2 a"
  proof (cases "a = JNull")
    case False
    then obtain xs ys where y: "all_some (map (entry_form F) xs) = Some ys" "a = JArr ys" using a by blast
    have "\<forall>y \<in> set ys. good_value 1 y"
    proof
      fix y assume "y \<in> set ys"
      then obtain e where "entry_form F e = Some y" using all_some_in [OF y(1)] by fastforce
      then show "good_value 1 y" using entry_form_good [OF F] by blast
    qed
    then show ?thesis unfolding y(2) numeral_2_eq_2 by (intro good_array) simp
  qed simp
  then have "good_value (Suc 2) v" unfolding v by (intro good_object) simp
  then show ?thesis by (simp add: v json_object_def good_form_def)
qed

lemma response_form_good:
  assumes F: "prints_times (dp_time D)" and "Some v \<in> response_forms D"
  shows "good_form v"
proof -
  have obj: "good_form (json_object ms)" if "\<forall>m \<in> set ms. good_value 2 (snd m)" for ms
    using good_object [OF that] by (simp add: good_form_def json_object_def)
  have p: "good_value 2 (json_object ms)" if "\<forall>m \<in> set ms. good_value 0 (snd m)" for ms
    using good_object [OF that] by simp
  show ?thesis
    using assms(2) unfolding response_forms_def
  proof (elim UnE)
    assume "Some v \<in> range (revocations_json (dp_time D))"
    then obtain es where "revocations_json (dp_time D) es = Some v" by (metis rangeE)
    from revocations_good [OF F this] show ?thesis .
  next
    assume "Some v \<in> range (\<lambda>res. Some (issue_response_json res))"
    then obtain res where v: "v = issue_response_json res" by auto
    show ?thesis
      unfolding v issue_response_json_def
      by (rule obj) (use p in \<open>simp add: good_json_string\<close>)
  qed (auto simp: consume_response_json_def status_json_def good_json_string intro!: obj split: if_splits)
qed

lemma typed_contract:
  fixes D :: "('p1, 'p2, 's, 'ml, 'e, 'n, 'r, 'l) deps"
  assumes F: "prints_times (dp_time D)"
  shows "reply_contract D typed_reply"
proof
  show "typed_reply (respondErr w err)" if w: "unwritten w" for w err
  proof -
    let ?st = "HTTPStatus (CodeOf err)"
    have st: "?st \<in> {400, 401, 403, 404, 409, 429, 500, 503}" by (cases "CodeOf err") simp_all
    obtain msg where "bw_body (base_of (respondErr w err)) = error_body ?st msg"
      using respondErr_body [OF w, of err] by (simp add: Let_def)
    then show ?thesis
      using respondErr_sent [OF w, of err] st error_body_read [OF st, of msg]
      by (auto simp: typed_reply_def error_sent_def)
  qed
  show "typed_reply (respondJSON w code data)"
    if w: "unwritten w" and d: "data \<in> response_forms D" and c: "code \<in> {200, 409}" for w code data
  proof (cases data)
    case None
    then show ?thesis
      using respondJSON_sent(2) [OF w, of code] respondJSON_body [OF w, of code data]
      by (auto simp: typed_reply_def plain_sent_def)
  next
    case (Some v)
    obtain ms where v: "v = JObj ms" "good_json v" "json_depth v \<le> max_nesting"
      using response_form_good [OF F d [unfolded Some]] by (auto simp: good_form_def max_nesting_def)
    have "json_first (Marshal v @ []) = Some (v, [])"
      by (rule Marshal_first) (use v in simp_all)
    then have "json_whole (Marshal v) = Some (JObj ms)" by (simp add: json_whole_def v(1))
    then show ?thesis
      using respondJSON_sent(1) [OF w, of code v] respondJSON_body [OF w, of code data] c
      by (auto simp: typed_reply_def data_sent_def Some)
  qed
  show "typed_reply (http_Error msg code w)" if "unwritten w"
    "(msg, code) \<in> {(''Method Not Allowed'', 405), (''404 page not found'', 404)}" for w msg code
    using that http_Error_sent [OF that(1), of msg code] http_Error_body [OF that(1), of msg code]
    by (auto simp: typed_reply_def plain_sent_def)
qed (simp add: typed_reply_def)

end
