(* ===== verification/ApiProperties.thy ===== *)
theory ApiProperties
  imports ApiSamples Replies
begin

section \<open>What clients of the HTTP interface can rely on\<close>

text \<open>
  The properties of the whole server, from the bytes of a request to the bytes of its answer:
  access control, opaque server errors, an answer to every request, at most one granted
  redemption per nullifier, and revocations that are respected. Each is applied to the server
  of \<open>ApiSamples\<close>.
\<close>

text \<open>
  C7: access control of the issuing and administrative routes. A request to one of them
  without a token that is signed with the server's secret, not expired and carries the
  route's role changes nothing but metrics and the rate limiter, and is answered 401, 403,
  429 or, when no request id can be made, 500.
\<close>

theorem protected_needs_role:
  assumes "jwt_laws (dp_jwt D) family genuine"
    and "required_role (rq_Method r) (rq_Path r) = Some role"
    and "\<not> entitled family genuine (jv_secret (srv_jwtValidator s)) (io_now io 4) role r"
    and "ServeHTTP D io r fresh_writer s = (out, w', s')"
  shows "out = Returned \<and> sent_status w' \<in> {Some 401, Some 403, Some 429, Some 500} \<and>
    srv_credentialService s' = (srv_credentialService s)\<lparr>cs_metrics := cs_metrics (srv_credentialService s')\<rparr> \<and>
    srv_jwtValidator s' = srv_jwtValidator s \<and> srv_demoStore s' = srv_demoStore s"
proof -
  obtain h where S: "limited D (RequireRole D role h) io r fresh_writer s = (out, w', s')"
    using ServeHTTP_protected [OF assms(2), of D io fresh_writer s] assms(4) by auto
  have iw: "wrapped (inner_writer rid fresh_writer)" "sent_status (inner_writer rid fresh_writer) = None" for rid
    using inner_writer_ok [where w = fresh_writer] by (simp_all add: sent_status_def)
  show ?thesis
  proof (cases rule: limited_cases [of io r D "RequireRole D role h" fresh_writer s])
    case no_id
    then show ?thesis using S by (auto simp: respond_status sent_status_def [of fresh_writer])
  next
    case (denied ctx reqID s1)
    then show ?thesis using S rate_limited_frame [OF denied(2)] iw [of reqID]
      by (auto simp: respond_status)
  next
    case (served ctx reqID s1 o2 rw s2)
    note fr = rate_limited_frame [OF served(2)]
    have a: "authenticate D io (inner_request ctx r) s1 = authenticate D io r s"
      using authenticate_server [of s1 s] fr authenticate_cong by metis
    have "o2 = Returned \<and> s2 = s1 \<and> sent_status rw \<in> {Some 401, Some 403}"
    proof (cases "authenticate D io r s")
      case (Inl err)
      then show ?thesis
        using served(3) a authenticate_codes [OF Inl] iw [of reqID]
        by (auto simp: RequireRole_def respond_status)
    next
      case (Inr cl)
      then have "\<not> HasRole cl role" using authenticate_entitled [OF assms(1) Inr] assms(3) by blast
      then show ?thesis
        using served(3) a Inr iw [of reqID] by (auto simp: RequireRole_def respond_status)
    qed
    then show ?thesis using served(4) S fr by auto
  qed
qed

theorem protected_needs_role_witness:
  "let r = (sample_request ''GET'' ''/v1/admin/revocations'' [])\<lparr>rq_Header := Map.empty\<rparr>;
       (out, w, s) = ServeHTTP sample_deps sample_io r fresh_writer sample_server
   in out = Returned \<and> sent_status w \<in> {Some 401, Some 403, Some 429, Some 500} \<and>
     cs_revocationStore (srv_credentialService s) = Some NewInMemoryRevocationStore"
proof -
  let ?r = "(sample_request ''GET'' ''/v1/admin/revocations'' [])\<lparr>rq_Header := Map.empty\<rparr>"
  obtain out w s where S: "ServeHTTP sample_deps sample_io ?r fresh_writer sample_server = (out, w, s)"
    by (cases "ServeHTTP sample_deps sample_io ?r fresh_writer sample_server")
  have "required_role (rq_Method ?r) (rq_Path ?r) = Some ''admin''"
    by (simp add: required_role_def sample_request_def)
  moreover have "\<not> entitled (\<lambda>_. HMAC) (\<lambda>alg k tok c. alg = ''HS256'' \<and> k = ''key'' \<and> tok = ''tok'' \<and> c = sample_claims)
      (jv_secret (srv_jwtValidator sample_server)) (io_now sample_io 4) ''admin'' ?r"
    by (simp add: entitled_def bearer_def Header_Get_def)
  ultimately have r: "out = Returned" "sent_status w \<in> {Some 401, Some 403, Some 429, Some 500}"
      "srv_credentialService s = (srv_credentialService sample_server)\<lparr>cs_metrics := cs_metrics (srv_credentialService s)\<rparr>"
    using protected_needs_role [OF _ _ _ S] table_jwt_laws by (metis sample_deps_simps(6))+
  then show ?thesis
    using S only_metrics_store [OF r(3)] by (simp add: Let_def sample_service_def NewCredentialService_def)
qed

text \<open>
  C36: server errors are opaque. Whatever goes wrong inside, a response with a status of 500
  or more carries one of three fixed texts, which say nothing of the cause; only the metrics
  page, which the metrics library writes, is left out.
\<close>

theorem server_errors_opaque:
  assumes "ServeHTTP D io r fresh_writer s = (out, w', s')" and "out \<noteq> Hung"
    and "rq_Path r \<noteq> ''/metrics''" and "sent_status w' = Some st" and "500 \<le> st"
  shows "bw_body (base_of w') \<in> {error_body 500 ''Internal Server Error'',
    error_body 503 ''Service Unavailable'', ''internal server error'' @ [CHR 0x0A]}"
  using opaque_contract.ServeHTTP_replies [OF assms(1-3)] assms(4,5) by (simp add: opaque_reply_def)

theorem server_errors_opaque_witness:
  "let (out, w, s) = ServeHTTP sample_deps (sample_io\<lparr>io_uuid := None\<rparr>)
     (sample_request ''POST'' ''/v1/credential/consume'' []) fresh_writer sample_server
   in sent_status w = Some 500 \<and> bw_body (base_of w) \<in> {error_body 500 ''Internal Server Error'',
     error_body 503 ''Service Unavailable'', ''internal server error'' @ [CHR 0x0A]}"
proof -
  let ?r = "sample_request ''POST'' ''/v1/credential/consume'' []" and ?io = "sample_io\<lparr>io_uuid := None\<rparr>"
  have m: "rq_Method ?r = ''POST''" "rq_Path ?r = ''/v1/credential/consume''" by (simp_all add: sample_request_def)
  have id: "WithRequestID ?io (rq_ctx ?r) = None"
    by (simp add: WithRequestID_def sample_request_def background_def)
  have S: "ServeHTTP sample_deps ?io ?r fresh_writer sample_server = (Returned, respondErr fresh_writer recovered, sample_server)"
    by (cases rule: limited_cases [of ?io ?r sample_deps "handleConsume sample_deps" fresh_writer sample_server])
      (use id in \<open>simp_all add: ServeHTTP_consume [OF m]\<close>)
  have st: "sent_status (respondErr fresh_writer recovered) = Some 500"
    by (simp add: respond_status sent_status_def [of fresh_writer])
  have "rq_Path ?r \<noteq> ''/metrics''" by (simp add: m)
  from server_errors_opaque [OF S _ this st] show ?thesis using S st by simp
qed

text \<open>When listing ends, every request is answered.\<close>

lemma ServeHTTP_answers:
  assumes "\<And>order now st. rs_ListRevocations (dp_revocations D) order now st \<noteq> None"
    and "rq_Path r \<noteq> ''/metrics''" and S: "ServeHTTP D io r fresh_writer s = (out, w', s')"
  shows "out = Returned \<and> sent_status w' \<noteq> None"
proof -
  have role_ends: "fst (RequireRole D role h io' r' w s) \<noteq> Hung"
    if "\<And>io r w s. fst (h io r w s) \<noteq> Hung" for role h io' r' w s
    using that by (simp add: RequireRole_def split: sum.splits)
  have fw: "wrapped fresh_writer" "sent_status fresh_writer = None" by (simp_all add: sent_status_def)
  show ?thesis
  proof (cases rule: ServeHTTP_cases [of r D io fresh_writer s])
    case consume
    then show ?thesis
      using limited_ends [of "handleConsume D" D io r fresh_writer s] handlers_end [OF assms(1), of "handleConsume D"]
        limited_answers [OF answers_handlers(2) fw] S by (metis fst_conv insertI1 insertI2)
  next
    case (protected role h)
    then have "answers (RequireRole D role h)" using answers_handlers answers_RequireRole by blast
    moreover have "fst (RequireRole D role h io r w s) \<noteq> Hung" for io r w s
      by (rule role_ends) (use protected(3) handlers_end [OF assms(1), of h] in blast)
    ultimately show ?thesis
      using limited_ends limited_answers [OF _ fw] protected(2) S by (metis fst_conv)
  next
    case health
    then show ?thesis
      using S by (auto simp: handleHealth_def respond_status fw split: option.splits)
  next
    case metrics
    then show ?thesis using assms(2) by simp
  next
    case (demo h)
    then have "answers h" using answers_handlers by blast
    moreover have "fst (h io' r' w' s') \<noteq> Hung" for io' r' w' s' using demo(2) handlers_end [OF assms(1), of h] by blast
    then have "out \<noteq> Hung"
      using S demo(1)
      by (auto simp: RecoveryMiddleware_def LoggerMiddleware_def Let_def split_beta
          split: option.splits outcome.splits if_splits prod.splits)
    ultimately show ?thesis using plain_answers [OF _ fw] demo(1) S by metis
  next
    case (unmatched msg code)
    then show ?thesis using S by (auto simp: http_Error_status fw)
  qed
qed

text \<open>
  C13: the types of responses. Every request that ends and is not for the metrics page gets one
  of three kinds of response: data, which is one JSON object under the status 200 or 409; an
  error, which is a JSON object of a message and the very status that was sent; or one of three
  fixed plain texts. Each has its status, content type and body in agreement. Times are printed by
  a parameter, which has to print the inside of a JSON string.
\<close>

theorem responses_typed:
  assumes "prints_times (dp_time D)" and "ServeHTTP D io r fresh_writer s = (out, w', s')" and "out \<noteq> Hung"
    and "rq_Path r \<noteq> ''/metrics''"
  shows "\<exists>st h. bw_sent (base_of w') = Some (st, h) \<and> (data_sent st h (bw_body (base_of w')) \<or>
    error_sent st h (bw_body (base_of w')) \<or> plain_sent st h (bw_body (base_of w')))"
  using reply_contract.ServeHTTP_replies [OF typed_contract [OF assms(1)] assms(2-4)] by (simp add: typed_reply_def)

theorem responses_typed_witness:
  "let w = fst (snd (ServeHTTP sample_deps sample_io (sample_request ''POST'' ''/v1/admin/revoke'' revoke_body)
     fresh_writer sample_server))
   in \<exists>h. bw_sent (base_of w) = Some (200, h) \<and> data_sent 200 h (bw_body (base_of w))"
proof -
  let ?r = "sample_request ''POST'' ''/v1/admin/revoke'' revoke_body"
  obtain out w s where S: "ServeHTTP sample_deps sample_io ?r fresh_writer sample_server = (out, w, s)"
    by (cases "ServeHTTP sample_deps sample_io ?r fresh_writer sample_server")
  have st: "map_option fst (bw_sent (base_of w)) = Some 200" using sample_revoke_200 S by (simp add: sent_status_def)
  have t: "prints_times (dp_time sample_deps)" by (simp add: prints_times_def sample_deps_def)
  have "out \<noteq> Hung"
    using ServeHTTP_answers [OF _ _ S]
    by (simp add: sample_request_def InMemoryRevocationStore_def mem_ListRevocations_def)
  from responses_typed [OF t S this] st S show ?thesis
    by (auto simp: error_sent_def plain_sent_def sample_request_def)
qed

text \<open>
  C12: every request is answered. When the listing of revocations ends, each request to a
  path other than the metrics page returns with a status on the wire, panics of a handler
  included.
\<close>

theorem every_request_answered:
  assumes "\<And>order now st. rs_ListRevocations (dp_revocations D) order now st \<noteq> None"
    and "rq_Path r \<noteq> ''/metrics''" and S: "ServeHTTP D io r fresh_writer s = (out, w', s')"
  shows "out = Returned \<and> sent_status w' \<noteq> None"
  by (rule ServeHTTP_answers [OF assms])

theorem every_request_answered_witness:
  "\<forall>m ms. let (out, w, s) = ServeHTTP sample_deps sample_io (sample_request m ''/v1/admin/revocations'' ms) fresh_writer sample_server
     in out = Returned \<and> sent_status w \<noteq> None"
proof (intro allI)
  fix m ms
  let ?r = "sample_request m ''/v1/admin/revocations'' ms"
  obtain out w s where S: "ServeHTTP sample_deps sample_io ?r fresh_writer sample_server = (out, w, s)"
    by (cases "ServeHTTP sample_deps sample_io ?r fresh_writer sample_server")
  show "let (out, w, s) = ServeHTTP sample_deps sample_io ?r fresh_writer sample_server
     in out = Returned \<and> sent_status w \<noteq> None"
    using every_request_answered [OF _ _ S] S
    by (simp add: InMemoryRevocationStore_def mem_ListRevocations_def sample_request_def)
qed

text \<open>
  C6: replay protection as clients see it. With the in-memory store, in any sequence of HTTP
  requests of any kind, from any state of the server, the redemptions answered 200 that
  present one nullifier are at most one.
\<close>

theorem http_accepts_once:
  assumes "dp_nullifiers D = InMemoryNullifierStore"
  shows "success_count (presented_nullifier D) k reqs (fst (http_run D reqs s)) \<le> 1"
  unfolding http_run_def
  by (rule mem.run_at_most_once [OF http_uses_store [of D, unfolded assms InMemory_simps]]) simp_all

theorem http_accepts_once_witness:
  "let reqs = replicate 3 (sample_io, sample_request ''POST'' ''/v1/credential/consume'' consume_body)
   in \<forall>k. success_count (presented_nullifier sample_deps) k reqs (fst (http_run sample_deps reqs sample_server)) \<le> 1"
  unfolding Let_def by (intro allI http_accepts_once) simp

text \<open>
  C20: revocation as clients see it, with the in-memory revocation store. After an
  administrator's revocation of a class and an epoch is answered 200, no redemption of that
  class and epoch is granted before the revocation's end, whatever other requests come in
  between, administrative ones included, as long as none of them asks to revoke that class and
  epoch anew or to lift its revocation.
\<close>

theorem revoked_then_refused:
  fixes D :: "('p1, 'p2, 's, 'ml, 'e, 'n, revocation_mem, 'l) deps"
  assumes "dp_revocations D = InMemoryRevocationStore"
    and "rq_Method r = ''POST''" "rq_Path r = ''/v1/admin/revoke''"
    and "ServeHTTP D io r fresh_writer s = (out, w', s1)" "sent_status w' = Some 200"
    and "revoke_of D io (MaxBytesReader (2 ^ 20) r) = Some rv"
    and "\<forall>(io', r') \<in> set reqs. \<not> concerns D io' r' (aq_CredentialClass rv) (aq_KeyEpoch rv)"
    and "consume_of D io2 (MaxBytesReader (2 ^ 20) r2) = Some q"
    and "cq_CredentialClass q = aq_CredentialClass rv" and "cq_KeyEpoch q = aq_KeyEpoch rv"
    and "\<forall>u. aq_RevokedUntil rv = Some u \<longrightarrow> io_now io2 6 \<le> u"
  shows "\<not> fst (http_step D (io2, r2) (snd (http_run D reqs s1)))"
proof
  let ?s = "snd (http_run D reqs s1)"
  assume g: "fst (http_step D (io2, r2) ?s)"
  obtain cl :: claims and store where st: "cs_revocationStore (srv_credentialService s1) = Some (snd (mem_RevokeClass (io_now io 6)
      (aq_CredentialClass rv) (aq_KeyEpoch rv) (aq_Reason rv) (cl_Subject cl) (aq_RevokedUntil rv) store))"
    using revoke_answered_200 [OF assms(2-5)] assms(1,6) by (auto simp: Let_def InMemoryRevocationStore_def)
  have "not_revoked InMemoryRevocationStore (io_now io2 6) (aq_CredentialClass rv) (aq_KeyEpoch rv)
      (srv_credentialService ?s)"
    using granted_not_revoked [OF g] assms(1,8-10) by auto
  moreover have "entry_under (mem_revocationKey (aq_CredentialClass rv) (aq_KeyEpoch rv)) ?s =
      entry_under (mem_revocationKey (aq_CredentialClass rv) (aq_KeyEpoch rv)) s1"
    by (rule http_run_keeps_entry [OF assms(1,7)])
  moreover have "\<not> entry_expired (io_now io2 6) (new_entry (io_now io 6) (aq_CredentialClass rv) (aq_KeyEpoch rv)
      (aq_Reason rv) (cl_Subject cl) (aq_RevokedUntil rv))"
    using assms(11) by (auto simp: entry_expired_def new_entry_def split: option.splits)
  ultimately show False
    using st by (auto simp: not_revoked_def InMemoryRevocationStore_def mem_IsRevoked_def mem_RevokeClass_def
        entry_under_def bind_eq_Some_conv)
qed

theorem revoked_then_refused_witness:
  "let s1 = snd (snd (ServeHTTP sample_deps sample_io
        (sample_request ''POST'' ''/v1/admin/revoke'' revoke_body) fresh_writer sample_server));
     q = (sample_io, sample_request ''POST'' ''/v1/credential/consume'' consume_body)
   in \<not> fst (http_step sample_deps q (snd (http_run sample_deps [q, q] s1)))"
proof -
  let ?r = "sample_request ''POST'' ''/v1/admin/revoke'' revoke_body"
  obtain out w s1 where S: "ServeHTTP sample_deps sample_io ?r fresh_writer sample_server = (out, w, s1)"
    by (cases "ServeHTTP sample_deps sample_io ?r fresh_writer sample_server")
  have st: "sent_status w = Some 200" using sample_revoke_200 S by simp
  have m: "rq_Method ?r = ''POST''" "rq_Path ?r = ''/v1/admin/revoke''" by (simp_all add: sample_request_def)
  let ?q = "(sample_io, sample_request ''POST'' ''/v1/credential/consume'' consume_body)"
  have "\<not> fst (http_step sample_deps ?q (snd (http_run sample_deps [?q, ?q] s1)))"
    by (rule revoked_then_refused [OF _ m S st sample_revoke_of _ sample_consume_of])
      (simp_all add: concerns_def sample_request_def)
  then show ?thesis by (simp add: S)
qed

end
