(* ===== verification/ClientState.thy ===== *)
theory ClientState
  imports JsonRoundTrip Curve "HOL-Library.AList" "HOL-Library.List_Lexorder" "HOL-Library.Char_ord"
begin

section \<open>The client's pending requests (pkg/client: state.go)\<close>

text \<open>
  The map of pending requests a client keeps in \<open>state.json\<close>: loading it when a client is
  made, writing it whole on every change, and its three operations. The files of the machine
  are a map from paths to bytes; what can go wrong in a call on them, and the randomness and
  the clock of an id, are the record \<open>os_io\<close>. The map is kept as an association list without
  duplicates, or \<open>None\<close> where the code has a nil map.
\<close>

subsection \<open>Files\<close>

type_synonym files = "string \<rightharpoonup> bytes"

text \<open>
  \<open>os.WriteFile\<close> truncates the file before it writes, so a failure may leave a prefix; it
  may also fail before, when the file does not open.
\<close>

datatype write_outcome =
    Written
  | NotOpened goerr
  | CutAt nat goerr

record os_io =
  os_HOME :: string
  os_mkdir :: "goerr option"
  os_read :: "goerr option"
  os_write :: write_outcome
  os_rand4 :: "bytes option"
  os_now :: int
  os_json_error :: "bytes \<Rightarrow> string"

definition ErrNotExist :: goerr where
  "ErrNotExist = Sentinel ''no such file or directory''"

definition IsNotExist :: "goerr \<Rightarrow> bool" where
  "IsNotExist err \<longleftrightarrow> err = ErrNotExist \<or> (case err of Wrapf _ e \<Rightarrow> e = ErrNotExist | _ \<Rightarrow> False)"

definition ReadFile :: "os_io \<Rightarrow> string \<Rightarrow> files \<Rightarrow> bytes result" where
  "ReadFile x path fs = (case os_read x of
       Some err \<Rightarrow> Inl err
     | None \<Rightarrow> (case fs path of
         None \<Rightarrow> Inl (Wrapf (''open '' @ path) ErrNotExist)
       | Some data \<Rightarrow> Inr data))"

definition WriteFile :: "os_io \<Rightarrow> string \<Rightarrow> bytes \<Rightarrow> files \<Rightarrow> goerr option \<times> files" where
  "WriteFile x path data fs = (case os_write x of
       Written \<Rightarrow> (None, fs(path \<mapsto> data))
     | NotOpened err \<Rightarrow> (Some err, fs)
     | CutAt n err \<Rightarrow> (Some err, fs(path \<mapsto> take n data)))"

text \<open>\<open>filepath.Join\<close> of a directory and a name, with the lexical cleaning of \<open>filepath.Clean\<close>.\<close>

fun clean_parts :: "bool \<Rightarrow> string list \<Rightarrow> string list \<Rightarrow> string list" where
  "clean_parts rooted out [] = List.rev out"
| "clean_parts rooted out (p # ps) =
     (if p = '''' \<or> p = ''.'' then clean_parts rooted out ps
      else if p = ''..'' then
        (case out of
           x # xs \<Rightarrow> if x \<noteq> ''..'' then clean_parts rooted xs ps else clean_parts rooted (p # out) ps
         | [] \<Rightarrow> clean_parts rooted (if rooted then [] else [p]) ps)
      else clean_parts rooted (p # out) ps)"

fun join_parts :: "string list \<Rightarrow> string" where
  "join_parts [] = ''''"
| "join_parts [p] = p"
| "join_parts (p # ps) = p @ ''/'' @ join_parts ps"

definition Clean :: "string \<Rightarrow> string" where
  "Clean path =
     (let rooted = take 1 path = ''/'';
          s = (if rooted then ''/'' else '''') @ join_parts (clean_parts rooted [] (Split (CHR ''/'') path))
      in if s = '''' then ''.'' else s)"

definition Join :: "string \<Rightarrow> string \<Rightarrow> string" where
  "Join dir name = (if dir = '''' then Clean name else Clean (dir @ ''/'' @ name))"

subsection \<open>Requests and their JSON form\<close>

text \<open>A nil slice is \<open>None\<close>, as is a nil \<open>*PendingRequest\<close>.\<close>

record pending_request =
  pr_BlindingFactor :: "bytes option"
  pr_Message :: "bytes option"
  pr_Witness :: "bytes option"

type_synonym requests = "(string \<times> pending_request option) list"

record client_state =
  st_filePath :: string
  st_Requests :: "requests option"

definition json_slice :: "bytes option \<Rightarrow> json" where
  "json_slice b = (case b of None \<Rightarrow> JNull | Some bs \<Rightarrow> JStr (b64_encode bs))"

definition pending_json :: "pending_request option \<Rightarrow> json" where
  "pending_json p = (case p of None \<Rightarrow> JNull | Some p \<Rightarrow> json_object
     [(''blinding_factor'', json_slice (pr_BlindingFactor p)), (''message'', json_slice (pr_Message p)),
      (''witness'', json_slice (pr_Witness p))])"

text \<open>A map is printed with its keys in the order of their bytes.\<close>

definition requests_json :: "requests option \<Rightarrow> json" where
  "requests_json reqs = (case reqs of None \<Rightarrow> JNull | Some reqs \<Rightarrow>
     json_object (map (\<lambda>(k, p). (k, pending_json p)) (sort_key fst reqs)))"

text \<open>
  Into a \<open>[]byte\<close> go base64 strings and also arrays of small numbers, where null keeps the
  element that was there.
\<close>

fun dec_elements :: "bytes \<Rightarrow> json list \<Rightarrow> bytes option" where
  "dec_elements old [] = Some []"
| "dec_elements old (v # vs) =
     (case (case v of
          JNull \<Rightarrow> Some (case old of [] \<Rightarrow> NUL | b # _ \<Rightarrow> b)
        | JNum raw \<Rightarrow> map_option char_of (uint_in 0 255 raw)
        | _ \<Rightarrow> None) of
        None \<Rightarrow> None
      | Some b \<Rightarrow> map_option (\<lambda>bs. b # bs) (dec_elements (tl old) vs))"

fun dec_slice :: "bytes option \<Rightarrow> json \<Rightarrow> bytes option option" where
  "dec_slice x (JStr raw) = map_option Some (b64_decode (unquote raw))"
| "dec_slice x JNull = Some None"
| "dec_slice x (JArr vs) = map_option Some (dec_elements (case x of None \<Rightarrow> [] | Some bs \<Rightarrow> bs) vs)"
| "dec_slice x _ = None"

definition pending_names :: "string list" where
  "pending_names = [''blinding_factor'', ''message'', ''witness'']"

definition decode_pending :: "json \<Rightarrow> pending_request option option" where
  "decode_pending v = (case v of
       JNull \<Rightarrow> Some None
     | JObj ms \<Rightarrow> (let ms = struct_members pending_names ms
         in (case (get_field dec_slice ''blinding_factor'' ms None, get_field dec_slice ''message'' ms None,
                   get_field dec_slice ''witness'' ms None) of
              (Some b, Some m, Some w) \<Rightarrow> Some (Some
                \<lparr> pr_BlindingFactor = b, pr_Message = m, pr_Witness = w \<rparr>)
            | _ \<Rightarrow> None))
     | _ \<Rightarrow> None)"

fun decode_entries :: "(string \<times> json) list \<Rightarrow> requests \<Rightarrow> requests option" where
  "decode_entries [] reqs = Some reqs"
| "decode_entries ((k, v) # ms) reqs = (case decode_pending v of
       None \<Rightarrow> None
     | Some p \<Rightarrow> decode_entries ms (AList.update (unquote k) p reqs))"

text \<open>\<open>json.Unmarshal\<close> into the map; null makes it nil.\<close>

definition decode_requests :: "json \<Rightarrow> requests option \<Rightarrow> requests option option" where
  "decode_requests v reqs = (case v of
       JNull \<Rightarrow> Some None
     | JObj ms \<Rightarrow> map_option Some (decode_entries ms (case reqs of None \<Rightarrow> [] | Some r \<Rightarrow> r))
     | _ \<Rightarrow> None)"

subsection \<open>Loading and saving\<close>

definition state_load :: "os_io \<Rightarrow> files \<Rightarrow> client_state \<Rightarrow> goerr option \<times> client_state" where
  "state_load x fs s = (case ReadFile x (st_filePath s) fs of
       Inl err \<Rightarrow> (Some err, s)
     | Inr data \<Rightarrow>
       (case Option.bind (json_whole data) (\<lambda>v. decode_requests v (st_Requests s)) of
          None \<Rightarrow> (Some (Errorf (os_json_error x data)), s)
        | Some reqs \<Rightarrow> (None, s\<lparr>st_Requests := reqs\<rparr>)))"

definition state_save :: "os_io \<Rightarrow> client_state \<Rightarrow> files \<Rightarrow> goerr option \<times> files" where
  "state_save x s fs = WriteFile x (st_filePath s) (MarshalIndent (requests_json (st_Requests s))) fs"

definition NewStateWithDir :: "os_io \<Rightarrow> string \<Rightarrow> files \<Rightarrow> client_state result" where
  "NewStateWithDir x dir fs =
     (let stateDir = Join dir ''.blindvault''
      in case os_mkdir x of
           Some err \<Rightarrow> Inl err
         | None \<Rightarrow>
           let path = Join stateDir ''state.json'';
               s = \<lparr> st_filePath = path, st_Requests = Some [] \<rparr>;
               (err, s) = state_load x fs s
           in (case err of
                 Some err \<Rightarrow> if \<not> IsNotExist err then Inl err else Inr s
               | None \<Rightarrow> Inr s))"

definition NewState :: "os_io \<Rightarrow> string \<Rightarrow> files \<Rightarrow> client_state result" where
  "NewState x HomeDir fs =
     (if HomeDir = '''' then
        (if os_HOME x = '''' then Inl (Errorf ''$HOME is not defined'') else NewStateWithDir x (os_HOME x) fs)
      else NewStateWithDir x HomeDir fs)"

subsection \<open>Operations\<close>

text \<open>A Go call that panics gives no value.\<close>

datatype 'a go_call = Panics | Gives 'a

definition ErrRequestNotFound :: goerr where
  "ErrRequestNotFound = Sentinel ''request not found''"

definition generateID :: "os_io \<Rightarrow> string" where
  "generateID x = (case os_rand4 x of None \<Rightarrow> int_str (os_now x) | Some b \<Rightarrow> hex_encode b)"

text \<open>An assignment into a nil map panics.\<close>

definition state_Store ::
    "('p1, 'p2, 's, 'ml) blst \<Rightarrow> os_io \<Rightarrow> 's \<Rightarrow> bytes option \<Rightarrow> 'p1 \<Rightarrow> client_state \<Rightarrow> files \<Rightarrow>
     (string result \<times> client_state \<times> files) go_call" where
  "state_Store B x scalar msg witness s fs = (case st_Requests s of
       None \<Rightarrow> Panics
     | Some reqs \<Rightarrow>
       let i = generateID x;
           p = \<lparr> pr_BlindingFactor = Some (Scalar_Bytes B scalar), pr_Message = msg,
                 pr_Witness = G1_Compress B witness \<rparr>;
           s = s\<lparr>st_Requests := Some (AList.update i (Some p) reqs)\<rparr>;
           (err, fs) = state_save x s fs
       in Gives (case err of Some err \<Rightarrow> (Inl err, s, fs) | None \<Rightarrow> (Inr i, s, fs)))"

definition state_Get :: "string \<Rightarrow> client_state \<Rightarrow> pending_request option result" where
  "state_Get i s = (case Option.bind (st_Requests s) (\<lambda>reqs. map_of reqs i) of
       None \<Rightarrow> Inl ErrRequestNotFound
     | Some req \<Rightarrow> Inr req)"

definition state_Delete ::
    "os_io \<Rightarrow> string \<Rightarrow> client_state \<Rightarrow> files \<Rightarrow> goerr option \<times> client_state \<times> files" where
  "state_Delete x i s fs =
     (let s = s\<lparr>st_Requests := map_option (AList.delete i) (st_Requests s)\<rparr>;
          (err, fs) = state_save x s fs
      in (err, s, fs))"

end
