(* ===== verification/Client.thy ===== *)
theory Client
  imports ClientState Engine Validation
begin

section \<open>The client library (pkg/client: client.go)\<close>

text \<open>
  A client: its configuration, its engine and its state of pending requests. \<open>Blind\<close> and
  \<open>Unblind\<close> work on the state and its file, \<open>VerifyProof\<close> on points alone, and \<open>Redeem\<close>
  posts a request and reads the answer. The transport is an argument: a function from URL,
  content type and body to a status and the body that could be read, over a state of its own.
\<close>

record 'p1 client =
  ct_serverURL :: string
  ct_dst :: "bytes option"
  ct_engine :: "'p1 engine"
  ct_state :: client_state

record client_config =
  cc_ServerURL :: string
  cc_DST :: "bytes option"
  cc_HomeDir :: string

definition NewClient ::
    "('p1, 'p2, 's, 'ml) blst \<Rightarrow> os_io \<Rightarrow> client_config \<Rightarrow> files \<Rightarrow> 'p1 client result" where
  "NewClient B x cfg fs = (case NewState x (cc_HomeDir cfg) fs of
       Inl err \<Rightarrow> Inl err
     | Inr st \<Rightarrow> Inr \<lparr> ct_serverURL = cc_ServerURL cfg, ct_dst = cc_DST cfg,
         ct_engine = NewBLS12Engine B, ct_state = st \<rparr>)"

record 'p1 blind_result =
  br_Blinded :: 'p1
  br_Witness :: 'p1
  br_RequestID :: string

text \<open>\<open>rnd\<close> is the randomness of the blinding scalar.\<close>

definition Blind ::
    "('p1, 'p2, 's, 'ml) blst \<Rightarrow> os_io \<Rightarrow> bytes result \<Rightarrow> bytes option \<Rightarrow> 'p1 client \<Rightarrow> files \<Rightarrow>
     ('p1 blind_result result \<times> 'p1 client \<times> files) go_call" where
  "Blind B x rnd msg c fs =
     (case HashToCurve (ct_engine c) (case msg of None \<Rightarrow> '''' | Some m \<Rightarrow> m) (ct_dst c) of
        Inl err \<Rightarrow> Gives (Inl err, c, fs)
      | Inr point \<Rightarrow> (case NewRandomScalar B rnd of
        Inl err \<Rightarrow> Gives (Inl err, c, fs)
      | Inr r \<Rightarrow> (case BlindMessage B point r of
        Inl err \<Rightarrow> Gives (Inl err, c, fs)
      | Inr blinded \<Rightarrow> (case state_Store B x r msg point (ct_state c) fs of
        Panics \<Rightarrow> Panics
      | Gives (Inl err, st, fs) \<Rightarrow> Gives (Inl err, c\<lparr>ct_state := st\<rparr>, fs)
      | Gives (Inr i, st, fs) \<Rightarrow> Gives (Inr \<lparr> br_Blinded = blinded, br_Witness = point, br_RequestID = i \<rparr>,
          c\<lparr>ct_state := st\<rparr>, fs)))))"

definition VerifyProof ::
    "('p1, 'p2, 's, 'ml) blst \<Rightarrow> ('p1, 'p2, 's) dleq_proof \<Rightarrow> 'p1 \<Rightarrow> 'p1 \<Rightarrow> 'p2 \<Rightarrow> 'p1 client \<Rightarrow> bool" where
  "VerifyProof B proof blinded sig pk c = DLEQVerify B proof blinded sig pk"

text \<open>A nil request in the map is dereferenced; the error of the deletion is dropped.\<close>

definition Unblind ::
    "('p1, 'p2, 's, 'ml) blst \<Rightarrow> os_io \<Rightarrow> string \<Rightarrow> 'p1 \<Rightarrow> 'p1 client \<Rightarrow> files \<Rightarrow>
     ('p1 result \<times> 'p1 client \<times> files) go_call" where
  "Unblind B x requestID blindSig c fs =
     (case state_Get requestID (ct_state c) of
        Inl err \<Rightarrow> Gives (Inl err, c, fs)
      | Inr None \<Rightarrow> Panics
      | Inr (Some req) \<Rightarrow>
        (case NewBlstScalarFromBytes B (case pr_BlindingFactor req of None \<Rightarrow> '''' | Some b \<Rightarrow> b) of
           Inl err \<Rightarrow> Gives (Inl err, c, fs)
         | Inr r \<Rightarrow> (case UnblindSignature B blindSig r of
           Inl err \<Rightarrow> Gives (Inl err, c, fs)
         | Inr unblinded \<Rightarrow>
           let (err, st, fs) = state_Delete x requestID (ct_state c) fs
           in Gives (Inr unblinded, c\<lparr>ct_state := st\<rparr>, fs))))"

subsection \<open>Redemption\<close>

definition consume_request_json :: "consume_request \<Rightarrow> json" where
  "consume_request_json q = json_object
     [(''unblinded_signature'', json_string (cq_UnblindedSignature q)),
      (''witness'', json_string (cq_Witness q)),
      (''credential_class'', json_string (cq_CredentialClass q)),
      (''key_epoch'', json_string (cq_KeyEpoch q))]"

definition redeem_request :: "('p1, 'p2, 's, 'ml) blst \<Rightarrow> 'p1 \<Rightarrow> 'p1 \<Rightarrow> string \<Rightarrow> string \<Rightarrow> consume_request" where
  "redeem_request B sig wit cls epoch = \<lparr> cq_UnblindedSignature = hex_of (G1_Compress B sig),
     cq_Witness = hex_of (G1_Compress B wit), cq_CredentialClass = cls, cq_KeyEpoch = epoch \<rparr>"

text \<open>What decoding a refusal leaves in its one field, and whether it fails.\<close>

definition refusal_text :: "bytes \<Rightarrow> string \<times> bool" where
  "refusal_text body = (case json_first body of
       Some (JObj ms, _) \<Rightarrow> fold (\<lambda>(n, v) (t, failed). case dec_string t v of
           Some t' \<Rightarrow> (t', failed) | None \<Rightarrow> (t, True)) (struct_members [''error''] ms) ('''', False)
     | Some (JNull, _) \<Rightarrow> ('''', False)
     | _ \<Rightarrow> ('''', True))"

definition decode_valid :: "bytes \<Rightarrow> bool option" where
  "decode_valid body = (case json_first body of
       None \<Rightarrow> None
     | Some (v, _) \<Rightarrow> (case json_members v of
         None \<Rightarrow> None
       | Some ms \<Rightarrow> get_field dec_bool ''valid'' (struct_members [''valid''] ms) False))"

definition redeem_answer :: "(bytes \<Rightarrow> string) \<Rightarrow> nat \<Rightarrow> bytes \<Rightarrow> bool result" where
  "redeem_answer json_error code body =
     (if code = 409 then
        (let (t, failed) = refusal_text body
         in if failed then Inl (Errorf (''credential already redeemed: '' @ t))
            else Inl (Errorf ''credential already redeemed''))
      else if code \<noteq> 200 then Inl (Errorf (''unexpected status: '' @ int_str (int code)))
      else (case decode_valid body of
          None \<Rightarrow> Inl (Errorf (json_error body))
        | Some valid \<Rightarrow> Inr valid))"

definition Redeem ::
    "('p1, 'p2, 's, 'ml) blst \<Rightarrow> (string \<Rightarrow> string \<Rightarrow> bytes \<Rightarrow> 'w \<Rightarrow> (nat \<times> bytes) result \<times> 'w) \<Rightarrow>
     (bytes \<Rightarrow> string) \<Rightarrow> 'p1 \<Rightarrow> 'p1 \<Rightarrow> string \<Rightarrow> string \<Rightarrow> 'p1 client \<Rightarrow> 'w \<Rightarrow> bool result \<times> 'w" where
  "Redeem B post json_error sig wit cls epoch c w =
     (let body = Marshal (consume_request_json (redeem_request B sig wit cls epoch));
          (resp, w) = post (ct_serverURL c @ ''/v1/credential/consume'') ''application/json'' body w
      in (case resp of
            Inl err \<Rightarrow> (Inl err, w)
          | Inr (code, answer) \<Rightarrow> (redeem_answer json_error code answer, w)))"

definition GetRequest :: "string \<Rightarrow> 'p1 client \<Rightarrow> pending_request option result" where
  "GetRequest i c = state_Get i (ct_state c)"

end
