(* ===== verification/Cli.thy ===== *)
theory Cli
  imports Client
begin

section \<open>The command line client (cmd/bv)\<close>

text \<open>
  The four commands of \<open>bv\<close>: their flags, parsed as the \<open>flag\<close> package does, their calls on
  the client, what they print to the standard output and the code they exit with. What goes to
  the standard error is not modelled. Every command makes its own client, which loads the
  state file anew.
\<close>

subsection \<open>Flags\<close>

text \<open>
  All flags are strings. Parsing stops at the first argument that is no flag. Under
  \<open>ExitOnError\<close> the package itself ends the process on an error, with code 2, or 0 when help
  was asked for, so that the commands' own handling of a parse error is never reached.
\<close>

type_synonym flags = "string \<rightharpoonup> string"

fun flag_parse :: "string list \<Rightarrow> string list \<Rightarrow> flags \<Rightarrow> nat + flags" where
  "flag_parse names [] vals = Inr vals"
| "flag_parse names (s # args) vals =
     (if length s < 2 \<or> hd s \<noteq> CHR ''-'' \<or> s = ''--'' then Inr vals
      else let name = (if s ! 1 = CHR ''-'' then drop 2 s else drop 1 s)
        in if name = '''' \<or> hd name = CHR ''-'' \<or> hd name = CHR ''='' then Inl 2
        else (case SplitN2 (CHR ''='') name of
            [n, v] \<Rightarrow> if n \<notin> set names then Inl (if n \<in> {''help'', ''h''} then 0 else 2)
              else flag_parse names args (vals(n \<mapsto> v))
          | _ \<Rightarrow> if name \<notin> set names then Inl (if name \<in> {''help'', ''h''} then 0 else 2)
              else (case args of
                  [] \<Rightarrow> Inl 2
                | v # rest \<Rightarrow> flag_parse names rest (vals(name \<mapsto> v)))))"

definition flag_value :: "flags \<Rightarrow> string \<Rightarrow> string" where
  "flag_value vals n = (case vals n of
       Some v \<Rightarrow> v
     | None \<Rightarrow> if n = ''dst'' then ''BCIS-V1-MESSAGE'' else if n = ''server'' then ''http://localhost:8080'' else '''')"

subsection \<open>Commands\<close>

text \<open>A command ends with a code and what it printed, or in a panic.\<close>

datatype cli_end = CliExit nat string | CliPanic

record cli_io =
  ci_os :: os_io
  ci_rand :: "bytes result"
  ci_stdout :: bool

definition println :: "string \<Rightarrow> string" where
  "println s = s @ [CHR 0x0A]"

text \<open>\<open>must\<close>, and the other checks that end a command with code 1.\<close>

definition must :: "'a result \<Rightarrow> ('a \<Rightarrow> cli_end \<times> 'w) \<Rightarrow> 'w \<Rightarrow> cli_end \<times> 'w" where
  "must r k w = (case r of Inl err \<Rightarrow> (CliExit 1 '''', w) | Inr v \<Rightarrow> k v)"

definition client_config_of :: "flags \<Rightarrow> client_config" where
  "client_config_of v = \<lparr> cc_ServerURL = flag_value v ''server'', cc_DST = Some (flag_value v ''dst''),
     cc_HomeDir = '''' \<rparr>"

definition blind_json :: "string \<Rightarrow> string \<Rightarrow> string \<Rightarrow> json" where
  "blind_json blinded wit i = json_object
     [(''blinded'', json_string blinded), (''witness'', json_string wit), (''request_id'', json_string i)]"

definition blindCmd ::
    "('p1, 'p2, 's, 'ml) blst \<Rightarrow> cli_io \<Rightarrow> string list \<Rightarrow> files \<Rightarrow> cli_end \<times> files" where
  "blindCmd B io args fs =
     (case flag_parse [''message'', ''dst'', ''server''] (drop 2 args) Map.empty of
        Inl code \<Rightarrow> (CliExit code '''', fs)
      | Inr v \<Rightarrow>
        if flag_value v ''message'' = '''' then (CliExit 1 '''', fs)
        else must (NewClient B (ci_os io) (client_config_of v) fs) (\<lambda>cli.
          (case Blind B (ci_os io) (ci_rand io) (Some (flag_value v ''message'')) cli fs of
             Panics \<Rightarrow> (CliPanic, fs)
           | Gives (Inl err, cli, fs) \<Rightarrow> (CliExit 1 '''', fs)
           | Gives (Inr res, cli, fs) \<Rightarrow>
               if ci_stdout io
               then (CliExit 0 (println (Marshal (blind_json (hex_of (G1_Compress B (br_Blinded res)))
                      (hex_of (G1_Compress B (br_Witness res))) (br_RequestID res)))), fs)
               else (CliExit 1 '''', fs))) fs)"

definition unblindCmd ::
    "('p1, 'p2, 's, 'ml) blst \<Rightarrow> cli_io \<Rightarrow> string list \<Rightarrow> files \<Rightarrow> cli_end \<times> files" where
  "unblindCmd B io args fs =
     (case flag_parse [''signature'', ''id'', ''dst'', ''server''] (drop 2 args) Map.empty of
        Inl code \<Rightarrow> (CliExit code '''', fs)
      | Inr v \<Rightarrow>
        if flag_value v ''signature'' = '''' \<or> flag_value v ''id'' = '''' then (CliExit 1 '''', fs)
        else must (NewClient B (ci_os io) (client_config_of v) fs) (\<lambda>cli.
          must (hex_decode (flag_value v ''signature'')) (\<lambda>sigBytes.
          must (DeserializeG1 B sigBytes) (\<lambda>sigPoint.
          (case Unblind B (ci_os io) (flag_value v ''id'') sigPoint cli fs of
             Panics \<Rightarrow> (CliPanic, fs)
           | Gives (Inl err, cli, fs) \<Rightarrow> (CliExit 1 '''', fs)
           | Gives (Inr unblinded, cli, fs) \<Rightarrow>
               (CliExit 0 (println (''Unblinded signature: '' @ hex_of (G1_Compress B unblinded))), fs)))
            fs) fs) fs)"

definition redeemCmd ::
    "('p1, 'p2, 's, 'ml) blst \<Rightarrow> (string \<Rightarrow> string \<Rightarrow> bytes \<Rightarrow> 'w \<Rightarrow> (nat \<times> bytes) result \<times> 'w) \<Rightarrow>
     cli_io \<Rightarrow> string list \<Rightarrow> files \<Rightarrow> 'w \<Rightarrow> cli_end \<times> 'w" where
  "redeemCmd B post io args fs w =
     (case flag_parse [''signature'', ''witness'', ''class'', ''epoch'', ''dst'', ''server''] (drop 2 args) Map.empty of
        Inl code \<Rightarrow> (CliExit code '''', w)
      | Inr v \<Rightarrow>
        if flag_value v ''signature'' = '''' \<or> flag_value v ''witness'' = '''' \<or>
           flag_value v ''class'' = '''' \<or> flag_value v ''epoch'' = '''' then (CliExit 1 '''', w)
        else must (NewClient B (ci_os io) (client_config_of v) fs) (\<lambda>cli.
          must (hex_decode (flag_value v ''signature'')) (\<lambda>sigBytes.
          must (DeserializeG1 B sigBytes) (\<lambda>sigPoint.
          must (hex_decode (flag_value v ''witness'')) (\<lambda>witBytes.
          must (DeserializeG1 B witBytes) (\<lambda>witPoint.
          (case Redeem B post (os_json_error (ci_os io)) sigPoint witPoint (flag_value v ''class'')
                  (flag_value v ''epoch'') cli w of
             (Inl err, w) \<Rightarrow> (CliExit 1 '''', w)
           | (Inr valid, w) \<Rightarrow>
               if valid then (CliExit 0 (println ''Credential redeemed successfully''), w)
               else (CliExit 1 (println ''Credential is invalid or already consumed''), w)))
            w) w) w) w) w)"

text \<open>The error of \<open>NewClient\<close> is dropped here, and the client it left nil is used.\<close>

definition verifyCmd ::
    "('p1, 'p2, 's, 'ml) blst \<Rightarrow> cli_io \<Rightarrow> string list \<Rightarrow> files \<Rightarrow> cli_end" where
  "verifyCmd B io args fs =
     (let names = [''blinded'', ''signature'', ''public-key'', ''proof-r1'', ''proof-r2'', ''proof-s'', ''proof-c'']
      in case flag_parse (names @ [''dst'', ''server'']) (drop 2 args) Map.empty of
        Inl code \<Rightarrow> CliExit code ''''
      | Inr v \<Rightarrow>
        if \<exists>n \<in> set names. flag_value v n = '''' then CliExit 1 ''''
        else fst (must (hex_decode (flag_value v ''blinded'')) (\<lambda>b.
          must (hex_decode (flag_value v ''signature'')) (\<lambda>sigB.
          must (hex_decode (flag_value v ''public-key'')) (\<lambda>pkB.
          must (hex_decode (flag_value v ''proof-r1'')) (\<lambda>r1B.
          must (hex_decode (flag_value v ''proof-r2'')) (\<lambda>r2B.
          must (hex_decode (flag_value v ''proof-s'')) (\<lambda>sB.
          must (hex_decode (flag_value v ''proof-c'')) (\<lambda>cB.
          must (DeserializeG1 B b) (\<lambda>blindedPoint.
          must (DeserializeG1 B sigB) (\<lambda>sigPoint.
          must (DeserializeG2 B pkB) (\<lambda>pkPoint.
          must (DeserializeG2 B r1B) (\<lambda>r1Point.
          must (DeserializeG1 B r2B) (\<lambda>r2Point.
          must (NewBlstScalarFromBytes B sB) (\<lambda>sScalar.
          must (NewBlstScalarFromBytes B cB) (\<lambda>cScalar.
            let proof = \<lparr> pf_R1 = r1Point, pf_R2 = r2Point, pf_S = sScalar, pf_C = cScalar \<rparr>
            in (case NewClient B (ci_os io) (client_config_of v) fs of
                  Inl err \<Rightarrow> (CliPanic, ())
                | Inr cli \<Rightarrow>
                  if VerifyProof B proof blindedPoint sigPoint pkPoint cli
                  then (CliExit 0 (println ''DLEQ proof is valid''), ())
                  else (CliExit 1 (println ''DLEQ proof is invalid''), ())))
            ()) ()) ()) ()) ()) ()) ()) ()) ()) ()) ()) ()) ()) ()))"

text \<open>\<open>main\<close>; a panic anywhere ends the process with code 2.\<close>

definition bv_main ::
    "('p1, 'p2, 's, 'ml) blst \<Rightarrow> (string \<Rightarrow> string \<Rightarrow> bytes \<Rightarrow> 'w \<Rightarrow> (nat \<times> bytes) result \<times> 'w) \<Rightarrow>
     cli_io \<Rightarrow> string list \<Rightarrow> files \<Rightarrow> 'w \<Rightarrow> cli_end \<times> files \<times> 'w" where
  "bv_main B post io args fs w =
     (if length args < 2
      then (CliExit 1 (println ''Usage: bv <command> [options]'' @
              println ''Commands: blind, verify, unblind, redeem''), fs, w)
      else if args ! 1 = ''blind'' then (case blindCmd B io args fs of (e, fs) \<Rightarrow> (e, fs, w))
      else if args ! 1 = ''verify'' then (verifyCmd B io args fs, fs, w)
      else if args ! 1 = ''unblind'' then (case unblindCmd B io args fs of (e, fs) \<Rightarrow> (e, fs, w))
      else if args ! 1 = ''redeem'' then (case redeemCmd B post io args fs w of (e, w) \<Rightarrow> (e, fs, w))
      else (CliExit 1 (println (''Unknown command: '' @ args ! 1)), fs, w))"

end
