(* ===== verification/TestClient.thy ===== *)
theory TestClient
  imports Cli Config Auth
begin

section \<open>The end-to-end test client (cmd/testclient)\<close>

text \<open>
  A program that plays one user against a running server: it blinds a message, has the service
  issue a credential for a token it signed itself, unblinds, redeems, and redeems again, which
  has to be refused. Every step that does not go as expected panics, by \<open>panic\<close> or because an
  error that was dropped left a nil value that is used. The HTTP client and the signing of
  tokens are arguments; what is printed before a panic is kept.
\<close>

datatype test_end = TestDone string | TestPanic string

text \<open>
  The HTTP client: from URL, headers and body to a status and the body that could be read. A
  URL that does not parse is an error of this function: the request \<open>http.NewRequest\<close> then
  leaves nil is used at once, which panics as the failure of \<open>Do\<close> does.
\<close>

type_synonym 'w http_post = "string \<Rightarrow> (string \<rightharpoonup> string) \<Rightarrow> bytes \<Rightarrow> 'w \<Rightarrow> (nat \<times> bytes) result \<times> 'w"

type_synonym jwt_signer = "bytes \<Rightarrow> claims \<Rightarrow> string result"

subsection \<open>The token\<close>

text \<open>\<open>jwt.NewNumericDate\<close> keeps whole seconds; the claims not set are the zero values.\<close>

definition test_claims :: "instant \<Rightarrow> claims" where
  "test_claims now = \<lparr> cl_Subject = ''test-client'', cl_Issuer = '''', cl_Audience = [],
     cl_ExpiresAt = Some ((now + 3600 * second) div second * second), cl_Admin = False, cl_Roles = [''issuer''] \<rparr>"

definition generateJWT :: "jwt_signer \<Rightarrow> instant \<Rightarrow> string \<Rightarrow> string" where
  "generateJWT sign now secret = (case sign secret (test_claims now) of Inl err \<Rightarrow> '''' | Inr tokenString \<Rightarrow> tokenString)"

subsection \<open>Requests and responses\<close>

text \<open>A Go map is printed with its keys in order.\<close>

definition test_issue_json :: "string \<Rightarrow> json" where
  "test_issue_json blindedHex = json_object
     [(''blinded_message'', json_string blindedHex), (''credential_class'', json_string ''e2e_test'')]"

definition test_consume_json :: "string \<Rightarrow> string \<Rightarrow> string \<Rightarrow> json" where
  "test_consume_json unblindedHex wit epoch = json_object
     [(''credential_class'', json_string ''e2e_test''), (''key_epoch'', json_string epoch),
      (''unblinded_signature'', json_string unblindedHex), (''witness'', json_string wit)]"

record test_issued =
  ti_BlindSignature :: string
  ti_PublicKey :: string
  ti_KeyEpoch :: string

definition decode_test_issued :: "bytes \<Rightarrow> test_issued option" where
  "decode_test_issued body = (case Option.bind (json_whole body) json_members of
       None \<Rightarrow> None
     | Some ms \<Rightarrow>
       let ms = struct_members [''blind_signature'', ''public_key'', ''key_epoch''] ms
       in (case (get_field dec_string ''blind_signature'' ms '''', get_field dec_string ''public_key'' ms '''',
                 get_field dec_string ''key_epoch'' ms '''') of
             (Some b, Some p, Some e) \<Rightarrow> Some \<lparr> ti_BlindSignature = b, ti_PublicKey = p, ti_KeyEpoch = e \<rparr>
           | _ \<Rightarrow> None))"

text \<open>
  The errors of \<open>hex.DecodeString\<close> and \<open>DeserializeG1\<close> are dropped. The first leaves the bytes
  before the bad digit, the second a nil point, on which \<open>UnblindSignature\<close> panics.
\<close>

fun hex_prefix :: "string \<Rightarrow> bytes" where
  "hex_prefix (p # q # cs) = (case (from_hex p, from_hex q) of
       (Some a, Some b) \<Rightarrow> char_of (a * 16 + b) # hex_prefix cs
     | _ \<Rightarrow> [])"
| "hex_prefix _ = []"

subsection \<open>The run\<close>

definition or_panic ::
    "'a result \<Rightarrow> string \<Rightarrow> ('a \<Rightarrow> 'w \<Rightarrow> test_end \<times> 'w) \<Rightarrow> 'w \<Rightarrow> test_end \<times> 'w" where
  "or_panic r out k w = (case r of Inl err \<Rightarrow> (TestPanic out, w) | Inr v \<Rightarrow> k v w)"

definition test_base :: "env \<Rightarrow> string" where
  "test_base getenv = (let v = getenv ''BLINDVAULT_URL'' in if v = '''' then ''http://localhost:8080'' else v)"

definition test_secret :: "env \<Rightarrow> string" where
  "test_secret getenv = (let v = getenv ''AUTH_SECRET'' in if v = '''' then ''super-secret-token'' else v)"

definition json_headers :: "string \<rightharpoonup> string" where
  "json_headers = [''Content-Type'' \<mapsto> ''application/json'']"

definition first_line :: string where
  "first_line = println ''First consume successful''"

definition test_output :: string where
  "test_output = first_line @ println ''Replay rejected (409) - all good!'' @
     println ''End-to-end test passed against Docker container!''"

text \<open>Steps 6 to 8: redeem, and redeem again.\<close>

definition test_consume :: "'w http_post \<Rightarrow> string \<Rightarrow> bytes \<Rightarrow> 'w \<Rightarrow> test_end \<times> 'w" where
  "test_consume send baseURL consumeBody w =
     (let url = baseURL @ ''/v1/credential/consume'';
          (resp2, w) = send url json_headers consumeBody w
      in or_panic resp2 '''' (\<lambda>(code2, body2) w.
        if code2 \<noteq> 200 then (TestPanic '''', w)
        else let (resp3, w) = send url json_headers consumeBody w
        in or_panic resp3 first_line (\<lambda>(code3, body3) w.
          if code3 \<noteq> 409 then (TestPanic first_line, w) else (TestDone test_output, w)) w) w)"

definition test_main ::
    "('p1, 'p2, 's, 'ml) blst \<Rightarrow> jwt_signer \<Rightarrow> 'w http_post \<Rightarrow> env \<Rightarrow> bytes result \<Rightarrow> instant \<Rightarrow> 'w \<Rightarrow>
     test_end \<times> 'w" where
  "test_main B sign send getenv rnd now w =
     (let baseURL = test_base getenv;
          secret = test_secret getenv;
          engine = NewBLS12Engine B
      in or_panic (HashToCurve engine ''docker-e2e-test'' (Some ''BCIS-V1-MESSAGE'')) '''' (\<lambda>point.
         or_panic (NewRandomScalar B rnd) '''' (\<lambda>r.
         or_panic (BlindMessage B point r) '''' (\<lambda>blinded w.
         let issueBody = Marshal (test_issue_json (hex_of (G1_Compress B blinded)));
             headers = json_headers(''Authorization'' \<mapsto> ''Bearer '' @ generateJWT sign now secret);
             (resp, w) = send (baseURL @ ''/v1/credential/issue'') headers issueBody w
         in or_panic resp '''' (\<lambda>(code, body) w.
         if code \<noteq> 200 then (TestPanic '''', w)
         else (case decode_test_issued body of
             None \<Rightarrow> (TestPanic '''', w)
           | Some issueResp \<Rightarrow>
             or_panic (DeserializeG1 B (hex_prefix (ti_BlindSignature issueResp))) '''' (\<lambda>sig.
             or_panic (UnblindSignature B sig r) '''' (\<lambda>unblinded w.
             test_consume send baseURL (Marshal (test_consume_json (hex_of (G1_Compress B unblinded))
               (hex_of (G1_Compress B point)) (ti_KeyEpoch issueResp))) w)) w)) w))) w)"

end
