(* ===== verification/StateFile.thy ===== *)
theory StateFile
  imports ClientState
begin

section \<open>What the client's state file guarantees\<close>

text \<open>
  The file of pending requests against an abstract book: the map in memory and the map on
  disk. A saved map is loaded as it was, a torn file is refused, and every operation of the
  state, failed writes and restarts included, is a step of the book.
\<close>

subsection \<open>Keys read from a file are text\<close>

lemma valid_utf8_rune:
  assumes "\<not> is_ascii (hd r)" and "rune_len (r @ s) = length r" and "r \<noteq> []" and "valid_utf8 s"
  shows "valid_utf8 (r @ s)"
  using assms by (cases r) simp_all

lemma rune2:
  assumes "128 \<le> n" "n < 2048"
  shows "rune_len (append_rune n @ s) = 2" "\<not> is_ascii (hd (append_rune n))" "length (append_rune n) = 2"
proof -
  have "n div 64 < 32" "2 \<le> n div 64" using assms by auto
  then show "rune_len (append_rune n @ s) = 2" "\<not> is_ascii (hd (append_rune n))" "length (append_rune n) = 2"
    using assms by (simp_all add: append_rune_def in_range_def)
qed

lemma three_bytes:
  assumes "a < 16" "b < 64" "c < (64 :: nat)" "a = 0 \<longrightarrow> 32 \<le> b" "a = (13 :: nat) \<longrightarrow> b < (32 :: nat)"
  shows "rune_len (char_of (224 + a) # char_of (128 + b) # char_of (128 + (c :: nat)) # s) = 3"
    and "\<not> is_ascii (char_of (224 + a))"
proof -
  have "of_char (char_of (224 + a)) = 224 + a" "of_char (char_of (128 + b)) = 128 + b"
    "of_char (char_of (128 + c)) = 128 + c"
    using assms(1-3) by simp_all
  then show "rune_len (char_of (224 + a) # char_of (128 + b) # char_of (128 + c) # s) = 3"
    "\<not> is_ascii (char_of (224 + a))"
    using assms by (auto simp: in_range_def simp del: of_char_of)
qed

lemma four_bytes:
  assumes "a < 5" "b < 64" "c < (64 :: nat)" "d < (64 :: nat)" "a = 0 \<longrightarrow> 16 \<le> b" "a = (4 :: nat) \<longrightarrow> b < (16 :: nat)"
  shows "rune_len (char_of (240 + a) # char_of (128 + b) # char_of (128 + c) # char_of (128 + (d :: nat)) # s) = 4"
    and "\<not> is_ascii (char_of (240 + a))"
proof -
  have "of_char (char_of (240 + a)) = 240 + a" "of_char (char_of (128 + b)) = 128 + b"
    "of_char (char_of (128 + c)) = 128 + c" "of_char (char_of (128 + d)) = 128 + d"
    using assms(1-4) by simp_all
  then show "rune_len (char_of (240 + a) # char_of (128 + b) # char_of (128 + c) # char_of (128 + d) # s) = 4"
    "\<not> is_ascii (char_of (240 + a))"
    using assms by (auto simp: in_range_def simp del: of_char_of)
qed

lemma rune3:
  assumes "2048 \<le> n" "n < 65536" "\<not> (55296 \<le> n \<and> n \<le> 57343)"
  shows "rune_len (append_rune n @ s) = 3" "\<not> is_ascii (hd (append_rune n))" "length (append_rune n) = 3"
proof -
  have r: "append_rune n = [char_of (224 + n div 4096), char_of (128 + n div 64 mod 64), char_of (128 + n mod 64)]"
    using assms unfolding append_rune_def by (simp only: if_False if_True not_less [symmetric]) auto
  define m where "m = n div 64"
  have q: "n div 4096 = m div 64" by (simp add: m_def flip: div_mult2_eq)
  have m: "m = 64 * (m div 64) + m mod 64" "m mod 64 < 64" by simp_all
  have "32 \<le> m" "m < 1024" "\<not> (864 \<le> m \<and> m \<le> 895)" using assms by (auto simp: m_def)
  then have "n div 4096 < 16" "n div 4096 = 0 \<longrightarrow> 32 \<le> n div 64 mod 64" "n div 4096 = 13 \<longrightarrow> n div 64 mod 64 < 32"
    unfolding q m_def [symmetric] using m by linarith+
  then show "rune_len (append_rune n @ s) = 3" "\<not> is_ascii (hd (append_rune n))" "length (append_rune n) = 3"
    using three_bytes [of "n div 4096" "n div 64 mod 64" "n mod 64"] by (simp_all only: r append.simps list.sel) simp_all
qed

lemma rune4:
  assumes "65536 \<le> n" "n \<le> 1114111"
  shows "rune_len (append_rune n @ s) = 4" "\<not> is_ascii (hd (append_rune n))" "length (append_rune n) = 4"
proof -
  have r: "append_rune n = [char_of (240 + n div 262144), char_of (128 + n div 4096 mod 64),
      char_of (128 + n div 64 mod 64), char_of (128 + n mod 64)]"
    using assms unfolding append_rune_def by auto
  define m where "m = n div 4096"
  have q: "n div 262144 = m div 64" by (simp add: m_def flip: div_mult2_eq)
  have m: "m = 64 * (m div 64) + m mod 64" "m mod 64 < 64" by simp_all
  have "16 \<le> m" "m < 272" using assms by (auto simp: m_def)
  then have "n div 262144 < 5" "n div 262144 = 0 \<longrightarrow> 16 \<le> n div 4096 mod 64" "n div 262144 = 4 \<longrightarrow> n div 4096 mod 64 < 16"
    unfolding q m_def [symmetric] using m by linarith+
  then show "rune_len (append_rune n @ s) = 4" "\<not> is_ascii (hd (append_rune n))" "length (append_rune n) = 4"
    using four_bytes [of "n div 262144" "n div 4096 mod 64" "n div 64 mod 64" "n mod 64"]
    by (simp_all only: r append.simps list.sel) simp_all
qed

lemma valid_replacement: "valid_utf8 s \<Longrightarrow> valid_utf8 (replacement @ s)"
  by (rule valid_utf8_rune) (simp_all add: replacement_def in_range_def)

lemma valid_append_rune: "valid_utf8 s \<Longrightarrow> valid_utf8 (append_rune n @ s)"
proof -
  assume s: "valid_utf8 s"
  consider "n < 128" | "128 \<le> n" "n < 2048" | "55296 \<le> n \<and> n \<le> 57343 \<or> 1114111 < n"
    | "2048 \<le> n" "n < 65536" "\<not> (55296 \<le> n \<and> n \<le> 57343)" | "65536 \<le> n" "n \<le> 1114111"
    by linarith
  then show ?thesis
  proof cases
    case 1
    then show ?thesis using s by (simp add: append_rune_def)
  next
    case 2
    show ?thesis by (rule valid_utf8_rune [OF rune2(2) [OF 2] _ _ s]) (use rune2 [OF 2] in auto)
  next
    case 3
    then have "append_rune n = replacement" by (auto simp: append_rune_def)
    then show ?thesis using valid_replacement [OF s] by simp
  next
    case 4
    show ?thesis by (rule valid_utf8_rune [OF rune3(2) [OF 4] _ _ s]) (use rune3 [OF 4] in auto)
  next
    case 5
    show ?thesis by (rule valid_utf8_rune [OF rune4(2) [OF 5] _ _ s]) (use rune4 [OF 5] in auto)
  qed
qed

lemma valid_take_rune:
  assumes "0 < rune_len s" and "valid_utf8 t"
  shows "valid_utf8 (take (rune_len s) s @ t)"
proof (rule valid_utf8_rune [OF _ _ _ assms(2)])
  show ne: "take (rune_len s) s \<noteq> []" using assms(1) by (cases s) auto
  show "\<not> is_ascii (hd (take (rune_len s) s))" using rune_len_take(3) [OF assms(1)] hd_in_set [OF ne] by blast
  show "rune_len (take (rune_len s) s @ t) = length (take (rune_len s) s)"
    using rune_len_take(1,2) [OF assms(1)] by simp
qed

lemma ascii_simple_escape: "simple_escape c = Some x \<Longrightarrow> is_ascii x"
  by (auto simp: simple_escape_def split: if_splits)

lemma valid_utf8_unquote: "valid_utf8 (unquote s)"
proof (induction s rule: unquote.induct)
  case (2 c cs)
  consider (bs) "c = backslash" | (ascii) "c \<noteq> backslash" "is_ascii c" | (rune) "c \<noteq> backslash" "\<not> is_ascii c"
    by blast
  then show ?case
  proof cases
    case bs
    show ?thesis
    proof (cases cs)
      case (Cons e rest)
      show ?thesis
        by (cases "e = CHR ''u''")
          (use bs Cons 2(1-3) in \<open>auto simp: unquote.simps valid_append_rune valid_utf8_ascii ascii_simple_escape split: option.splits\<close>)
    qed (simp add: bs unquote.simps)
  next
    case ascii
    then show ?thesis using 2(4) by (simp add: unquote.simps)
  next
    case rune
    then show ?thesis
      using 2(5,6) by (simp add: unquote.simps Let_def valid_replacement valid_take_rune del: take_Cons')
  qed
qed (simp add: unquote.simps)

subsection \<open>What is saved is loaded\<close>

lemma b64_encode_safe: "\<forall>c \<in> set (b64_encode bs). html_safe c \<and> is_ascii c"
  by (induction bs rule: b64_encode.induct)
    (simp_all add: Let_def b64_char_plain byte_parts(1) sextets, simp_all add: html_safe_def)

lemma unquote_b64: "unquote (b64_encode bs) = b64_encode bs"
  using unquote_json_escape [of "b64_encode bs"] json_escape_safe [OF b64_encode_safe]
    valid_utf8_ascii [of "b64_encode bs"] b64_encode_safe by metis

lemma good_token_b64: "good_token (b64_encode bs)"
  using good_json_escape [of "b64_encode bs"] json_escape_safe [OF b64_encode_safe] by metis

lemma dec_slice_json [simp]: "dec_slice x (json_slice b) = Some b"
  by (cases b) (simp_all add: json_slice_def unquote_b64 b64_decode_encode)

lemma good_json_slice: "good_json (json_slice b)" "json_depth (json_slice b) = 0"
  by (cases b; simp add: json_slice_def good_token_b64)+

lemma decode_pending_json [simp]: "decode_pending (pending_json p) = Some p"
proof (cases p)
  case (Some q)
  have "struct_members pending_names (map (\<lambda>(k, v). (json_escape k, v))
      [(''blinding_factor'', json_slice (pr_BlindingFactor q)), (''message'', json_slice (pr_Message q)),
       (''witness'', json_slice (pr_Witness q))]) =
      [(''blinding_factor'', json_slice (pr_BlindingFactor q)), (''message'', json_slice (pr_Message q)),
       (''witness'', json_slice (pr_Witness q))]"
    by (rule struct_members_printed) (simp add: pending_names_def)
  then show ?thesis
    by (simp add: Some pending_json_def decode_pending_def json_object_def)
qed (simp add: pending_json_def decode_pending_def)

lemma good_pending_json: "good_json (pending_json p) \<and> json_depth (pending_json p) \<le> 1"
proof (cases p)
  case (Some q)
  have m: "\<forall>m \<in> set [(''blinding_factor'', json_slice (pr_BlindingFactor q)), (''message'', json_slice (pr_Message q)),
       (''witness'', json_slice (pr_Witness q))]. good_json (snd m) \<and> json_depth (snd m) \<le> 0"
    by (simp add: good_json_slice)
  show ?thesis using good_json_object [OF m] by (simp add: Some pending_json_def)
qed (simp add: pending_json_def)

lemma good_requests_json:
  "good_json (requests_json reqs)" "json_depth (requests_json reqs) \<le> max_nesting" "requests_json reqs \<noteq> JNum raw"
proof -
  have "good_json (requests_json reqs) \<and> json_depth (requests_json reqs) \<le> Suc 1"
  proof (cases reqs)
    case (Some r)
    have m: "\<forall>m \<in> set (map (\<lambda>(k, p). (k, pending_json p)) (sort_key fst r)).
        good_json (snd m) \<and> json_depth (snd m) \<le> 1"
      using good_pending_json by auto
    show ?thesis using good_json_object [OF m] by (simp add: Some requests_json_def)
  qed (simp add: requests_json_def)
  then show "good_json (requests_json reqs)" "json_depth (requests_json reqs) \<le> max_nesting"
    by (auto simp: max_nesting_def)
  show "requests_json reqs \<noteq> JNum raw"
    by (cases reqs) (simp_all add: requests_json_def json_object_def)
qed

lemma update_new: "k \<notin> fst ` set al \<Longrightarrow> AList.update k v al = al @ [(k, v)]"
  by (induction al) auto

lemma decode_entries_printed:
  assumes "\<forall>m \<in> set ms. valid_utf8 (fst m)" and "distinct (map fst (acc @ ms))"
  shows "decode_entries (map (\<lambda>(k, v). (json_escape k, v)) (map (\<lambda>(k, p). (k, pending_json p)) ms)) acc =
    Some (acc @ ms)"
  using assms
proof (induction ms arbitrary: acc)
  case (Cons m ms)
  obtain k p where "m = (k, p)" by (cases m)
  then show ?case
    using Cons.IH [of "acc @ [(k, p)]"] Cons.prems by (simp add: unquote_json_escape update_new)
qed simp

text \<open>A state as the code keeps it: no key twice, and keys that are text.\<close>

fun requests_wf :: "requests option \<Rightarrow> bool" where
  "requests_wf None = True"
| "requests_wf (Some reqs) \<longleftrightarrow> distinct (map fst reqs) \<and> (\<forall>k \<in> fst ` set reqs. valid_utf8 k)"

lemma decode_requests_json:
  assumes "requests_wf reqs"
  shows "decode_requests (requests_json reqs) (Some []) = Some (map_option (sort_key fst) reqs)"
proof (cases reqs)
  case (Some r)
  have "decode_entries (map (\<lambda>(k, v). (json_escape k, v)) (map (\<lambda>(k, p). (k, pending_json p)) (sort_key fst r))) [] =
      Some ([] @ sort_key fst r)"
    by (rule decode_entries_printed) (use assms Some in \<open>auto simp: distinct_map inj_on_def\<close>)
  then show ?thesis by (simp add: Some requests_json_def json_object_def decode_requests_def)
qed (simp add: requests_json_def decode_requests_def)

lemma saved_file_decodes:
  assumes "requests_wf reqs"
  shows "Option.bind (json_whole (MarshalIndent (requests_json reqs))) (\<lambda>v. decode_requests v (Some [])) =
    Some (map_option (sort_key fst) reqs)"
  using MarshalIndent_whole [OF good_requests_json] decode_requests_json [OF assms] by simp

subsection \<open>A torn file\<close>

text \<open>A proper prefix of a text is no text: a value other than a number ends where it was printed.\<close>

lemma run_top_number: "json_run cs (MNum n raw, []) = Some (v, rest) \<Longrightarrow> \<exists>r. v = JNum r"
proof (induction cs arbitrary: n raw)
  case Nil
  then show ?case by (auto simp: json_done_def split: if_splits)
next
  case (Cons c cs)
  have bad: "json_run cs (MBad, []) = Some (v, rest) \<Longrightarrow> False" for cs
    by (induction cs) (simp_all add: json_done_def)
  show ?case
    using Cons by (auto simp: json_done_def split: if_splits option.splits dest: bad)
qed

lemma done_early:
  assumes "json_run (c # cs) st = Some (v, [])" and "\<And>raw. v \<noteq> JNum raw"
  shows "json_done st None = None" and "json_done st (Some c) = None"
proof -
  show c: "json_done st (Some c) = None"
    using assms(1) by (cases "json_done st (Some c)") simp_all
  show "json_done st None = None"
  proof (rule ccontr)
    assume "json_done st None \<noteq> None"
    then consider w where "st = (MEnd w, [])" | n raw where "st = (MNum n raw, [])"
      by (auto simp: json_done_def split: prod.splits json_mode.splits list.splits if_splits)
    then show False
    proof cases
      case 1
      then show False using c by (simp add: json_done_def)
    next
      case (2 n raw)
      then show False using run_top_number assms by blast
    qed
  qed
qed

lemma run_prefix_None:
  "json_run (p @ c # q) st = Some (v, []) \<Longrightarrow> (\<And>raw. v \<noteq> JNum raw) \<Longrightarrow> json_run p st = None"
proof (induction p arbitrary: st)
  case Nil
  then show ?case using done_early(1) [of c q st v] by simp
next
  case (Cons a p)
  have "json_run (a # (p @ c # q)) st = Some (v, [])" using Cons.prems(1) by simp
  from done_early(2) [OF this Cons.prems(2)] show ?case
    using Cons.IH [OF _ Cons.prems(2)] Cons.prems(1) by simp
qed

lemma torn_unreadable:
  assumes "n < length (MarshalIndent (requests_json reqs))"
  shows "json_whole (take n (MarshalIndent (requests_json reqs))) = None"
proof -
  let ?t = "MarshalIndent (requests_json reqs)"
  have "json_first (?t @ []) = Some (requests_json reqs, [])"
    unfolding MarshalIndent_def by (rule indented.print_first [OF good_requests_json])
  then have "json_run (take n ?t @ ?t ! n # drop (Suc n) ?t) (MVal, []) = Some (requests_json reqs, [])"
    using assms by (simp add: json_first_def id_take_nth_drop [symmetric])
  from run_prefix_None [OF this good_requests_json(3)] show ?thesis
    by (simp add: json_whole_def json_first_def)
qed

subsection \<open>The book of pending requests\<close>

type_synonym book_map = "(string \<rightharpoonup> pending_request option) option"

datatype disk = Missing | Unreadable | Holds book_map

text \<open>A client process, when one runs, and the files of the machine.\<close>

type_synonym machine = "client_state option \<times> files"

datatype ('s, 'p1) state_op = Put 's "bytes option" 'p1 | Look string | Remove string | Restart

datatype state_obs =
    Stored "string result"
  | Looked "pending_request option result"
  | Removed "goerr option"
  | Opened bool
  | Crashed
  | NoProcess

fun state_step ::
    "('p1, 'p2, 's, 'ml) blst \<Rightarrow> string \<Rightarrow> os_io \<times> ('s, 'p1) state_op \<Rightarrow> machine \<Rightarrow> state_obs \<times> machine" where
  "state_step B dir (x, Restart) (s, fs) = (case NewStateWithDir x dir fs of
       Inl err \<Rightarrow> (Opened False, None, fs)
     | Inr s \<Rightarrow> (Opened True, Some s, fs))"
| "state_step B dir (x, op) (None, fs) = (NoProcess, None, fs)"
| "state_step B dir (x, Put r msg w) (Some s, fs) = (case state_Store B x r msg w s fs of
       Panics \<Rightarrow> (Crashed, None, fs)
     | Gives (res, s, fs) \<Rightarrow> (Stored res, Some s, fs))"
| "state_step B dir (x, Look i) (Some s, fs) = (Looked (state_Get i s), Some s, fs)"
| "state_step B dir (x, Remove i) (Some s, fs) =
     (let (err, s, fs) = state_Delete x i s fs in (Removed err, Some s, fs))"

fun state_run ::
    "('p1, 'p2, 's, 'ml) blst \<Rightarrow> string \<Rightarrow> (os_io \<times> ('s, 'p1) state_op) list \<Rightarrow> machine \<Rightarrow>
     state_obs list \<times> machine" where
  "state_run B dir [] st = ([], st)"
| "state_run B dir (q # qs) st =
     (let (ob, st) = state_step B dir q st; (obs, st) = state_run B dir qs st in (ob # obs, st))"

text \<open>
  The book: the map of the process, when one runs, and what the disk holds. A write that fails
  leaves the disk as it was, unreadable, or, when only its last report failed, written.
\<close>

type_synonym book = "book_map option \<times> disk"

inductive saves :: "write_outcome \<Rightarrow> book_map \<Rightarrow> disk \<Rightarrow> goerr option \<Rightarrow> disk \<Rightarrow> bool" where
  saves_all: "saves Written m d None (Holds m)"
| saves_none: "saves (NotOpened e) m d (Some e) d"
| saves_late: "saves (CutAt n e) m d (Some e) (Holds m)"
| saves_torn: "saves (CutAt n e) m d (Some e) Unreadable"

definition stored_result :: "string \<Rightarrow> goerr option \<Rightarrow> string result" where
  "stored_result i err = (case err of None \<Rightarrow> Inr i | Some e \<Rightarrow> Inl e)"

definition pending_of ::
    "('p1, 'p2, 's, 'ml) blst \<Rightarrow> 's \<Rightarrow> bytes option \<Rightarrow> 'p1 \<Rightarrow> pending_request" where
  "pending_of B r msg w = \<lparr> pr_BlindingFactor = Some (Scalar_Bytes B r), pr_Message = msg,
     pr_Witness = G1_Compress B w \<rparr>"

inductive book_step ::
    "('p1, 'p2, 's, 'ml) blst \<Rightarrow> os_io \<times> ('s, 'p1) state_op \<Rightarrow> book \<Rightarrow> state_obs \<Rightarrow> book \<Rightarrow> bool"
    for B :: "('p1, 'p2, 's, 'ml) blst" where
  book_open: "os_mkdir x = None \<Longrightarrow> os_read x = None \<Longrightarrow>
    book_step B (x, Restart) (a, Holds m) (Opened True) (Some m, Holds m)"
| book_new: "os_mkdir x = None \<Longrightarrow> os_read x = None \<and> d = Missing \<or> (\<exists>e. os_read x = Some e \<and> IsNotExist e) \<Longrightarrow>
    book_step B (x, Restart) (a, d) (Opened True) (Some (Some Map.empty), d)"
| book_refused: "os_mkdir x \<noteq> None \<or> os_read x = None \<and> d = Unreadable \<or> (\<exists>e. os_read x = Some e \<and> \<not> IsNotExist e) \<Longrightarrow>
    book_step B (x, Restart) (a, d) (Opened False) (None, d)"
| book_idle: "op \<noteq> Restart \<Longrightarrow> book_step B (x, op) (None, d) NoProcess (None, d)"
| book_crash: "book_step B (x, Put r msg w) (Some None, d) Crashed (None, d)"
| book_put: "i = generateID x \<Longrightarrow> m' = m(i \<mapsto> Some (pending_of B r msg w)) \<Longrightarrow>
    saves (os_write x) (Some m') d err d' \<Longrightarrow>
    book_step B (x, Put r msg w) (Some (Some m), d) (Stored (stored_result i err)) (Some (Some m'), d')"
| book_look: "book_step B (x, Look i) (Some m, d)
    (Looked (case Option.bind m (\<lambda>m. m i) of None \<Rightarrow> Inl ErrRequestNotFound | Some p \<Rightarrow> Inr p)) (Some m, d)"
| book_remove: "m' = map_option (\<lambda>m. m(i := None)) m \<Longrightarrow> saves (os_write x) m' d err d' \<Longrightarrow>
    book_step B (x, Remove i) (Some m, d) (Removed err) (Some m', d')"

inductive book_run ::
    "('p1, 'p2, 's, 'ml) blst \<Rightarrow> (os_io \<times> ('s, 'p1) state_op) list \<Rightarrow> book \<Rightarrow> state_obs list \<Rightarrow> book \<Rightarrow> bool"
    for B :: "('p1, 'p2, 's, 'ml) blst" where
  book_done: "book_run B [] b [] b"
| book_more: "book_step B q b ob b' \<Longrightarrow> book_run B qs b' obs b'' \<Longrightarrow> book_run B (q # qs) b (ob # obs) b''"

inductive_cases book_runE: "book_run B (q # qs) b obs b''" "book_run B [] b obs b''"
inductive_cases book_stepE:
  "book_step B (x, Restart) (a, d) ob b" "book_step B (x, Put r msg w) (a, d) ob b"
  "book_step B (x, Look i) (a, d) ob b" "book_step B (x, Remove i) (a, d) ob b"

subsection \<open>The state refines the book\<close>

definition state_path :: "string \<Rightarrow> string" where
  "state_path dir = Join (Join dir ''.blindvault'') ''state.json''"

definition disk_of :: "bytes option \<Rightarrow> disk" where
  "disk_of file = (case file of
       None \<Rightarrow> Missing
     | Some data \<Rightarrow> (case Option.bind (json_whole data) (\<lambda>v. decode_requests v (Some [])) of
         None \<Rightarrow> Unreadable
       | Some reqs \<Rightarrow> Holds (map_option map_of reqs)))"

definition book_of :: "string \<Rightarrow> machine \<Rightarrow> book" where
  "book_of dir st = (map_option (\<lambda>s. map_option map_of (st_Requests s)) (fst st), disk_of (snd st (state_path dir)))"

definition machine_ok :: "string \<Rightarrow> machine \<Rightarrow> bool" where
  "machine_ok dir st \<longleftrightarrow> (\<forall>s. fst st = Some s \<longrightarrow> st_filePath s = state_path dir \<and> requests_wf (st_Requests s))"

lemma ascii_nat_str: "\<forall>c \<in> set (nat_str n). is_ascii c"
proof (induction n rule: nat_str.induct)
  case (1 n)
  have "48 + n mod 10 < 256 \<and> 48 + n mod 10 < 128" using mod_less_divisor [of 10 n] by linarith
  then show ?case using 1 by (subst nat_str.simps) auto
qed

lemma valid_generateID: "valid_utf8 (generateID x)"
  using ascii_hex_encode ascii_nat_str
  by (intro valid_utf8_ascii) (auto simp: generateID_def int_str_def split: option.splits)

lemma wf_update: "requests_wf (Some reqs) \<Longrightarrow> valid_utf8 k \<Longrightarrow> requests_wf (Some (AList.update k p reqs))"
  by (auto simp: distinct_update dom_update)

lemma wf_delete: "requests_wf reqs \<Longrightarrow> requests_wf (map_option (AList.delete k) reqs)"
proof (cases reqs)
  case (Some r)
  assume w: "requests_wf reqs"
  then have "\<forall>i \<in> fst ` set r. valid_utf8 i" using Some by simp
  then have "\<forall>i \<in> fst ` set (AList.delete k r). valid_utf8 i" using dom_delete_subset [of k r] by blast
  then show ?thesis using w Some distinct_delete [of r k] by simp
qed simp

lemma wf_decode_entries:
  "decode_entries ms acc = Some r \<Longrightarrow> requests_wf (Some acc) \<Longrightarrow> requests_wf (Some r)"
proof (induction ms acc rule: decode_entries.induct)
  case (2 k v ms reqs)
  then show ?case using wf_update [OF 2(3) valid_utf8_unquote] by (auto split: option.splits)
qed simp

lemma wf_decode_requests: "decode_requests v (Some []) = Some r \<Longrightarrow> requests_wf r"
  using wf_decode_entries [of _ "[]"] by (auto simp: decode_requests_def split: json.splits)

lemma map_of_sorted: "distinct (map fst r) \<Longrightarrow> map_of (sort_key fst r) = map_of r"
proof -
  assume d: "distinct (map fst r)"
  then have "distinct (map fst (sort_key fst r))" by (auto simp: distinct_map)
  then show ?thesis using map_of_inject_set [OF _ d] by simp
qed

lemma disk_of_saved:
  "requests_wf reqs \<Longrightarrow> disk_of (Some (MarshalIndent (requests_json reqs))) = Holds (map_option map_of reqs)"
  using saved_file_decodes [of reqs] by (cases reqs) (auto simp: disk_of_def map_of_sorted)

lemma disk_of_torn:
  "n < length (MarshalIndent (requests_json reqs)) \<Longrightarrow>
     disk_of (Some (take n (MarshalIndent (requests_json reqs)))) = Unreadable"
  by (simp add: disk_of_def torn_unreadable)

lemma save_saves:
  assumes "state_save x s fs = (err, fs')" and "requests_wf (st_Requests s)" and "st_filePath s = p"
  shows "saves (os_write x) (map_option map_of (st_Requests s)) (disk_of (fs p)) err (disk_of (fs' p))"
proof (cases "os_write x")
  case (CutAt n e)
  show ?thesis
  proof (cases "n < length (MarshalIndent (requests_json (st_Requests s)))")
    case True
    then show ?thesis
      using assms disk_of_torn [OF True] CutAt by (auto simp: state_save_def WriteFile_def intro: saves_torn)
  next
    case False
    then show ?thesis
      using assms disk_of_saved [OF assms(2)] CutAt by (auto simp: state_save_def WriteFile_def intro: saves_late)
  qed
qed (use assms disk_of_saved [OF assms(2)] in \<open>auto simp: state_save_def WriteFile_def intro: saves.intros\<close>)

lemma open_refines:
  assumes "NewStateWithDir x dir fs = r"
  shows "book_step B (x, Restart) (a, disk_of (fs (state_path dir)))
    (Opened (ok r)) (case r of Inl e \<Rightarrow> None | Inr s \<Rightarrow> Some (map_option map_of (st_Requests s)), disk_of (fs (state_path dir)))
    \<and> (\<forall>s. r = Inr s \<longrightarrow> st_filePath s = state_path dir \<and> requests_wf (st_Requests s))"
proof (cases "os_mkdir x")
  case None
  let ?d = "disk_of (fs (state_path dir))"
  consider (err) e where "os_read x = Some e" | (new) "os_read x = None" "fs (state_path dir) = None"
    | (data) data where "os_read x = None" "fs (state_path dir) = Some data" by fastforce
  then show ?thesis
  proof cases
    case err
    then show ?thesis
      using assms None
      by (cases "IsNotExist e") (auto simp: NewStateWithDir_def state_load_def ReadFile_def state_path_def Let_def
          intro!: book_new book_refused simp flip: fun_upd_def)
  next
    case new
    then have "?d = Missing" by (simp add: disk_of_def)
    then show ?thesis
      using assms None new book_new [of x ?d B a]
      by (auto simp: NewStateWithDir_def state_load_def ReadFile_def state_path_def Let_def IsNotExist_def)
  next
    case data
    show ?thesis
    proof (cases "Option.bind (json_whole data) (\<lambda>v. decode_requests v (Some []))")
      case bad: None
      then have "?d = Unreadable" using data by (simp add: disk_of_def)
      moreover have "r = Inl (Errorf (os_json_error x data))"
        using assms None data bad
        by (simp add: NewStateWithDir_def state_load_def ReadFile_def state_path_def Let_def IsNotExist_def ErrNotExist_def)
      ultimately show ?thesis using None data book_refused [of x ?d B a] by simp
    next
      case (Some reqs)
      then have "?d = Holds (map_option map_of reqs)" using data by (simp add: disk_of_def)
      moreover have "requests_wf reqs" using Some wf_decode_requests by (auto simp: bind_eq_Some_conv)
      moreover have "r = Inr \<lparr> st_filePath = state_path dir, st_Requests = reqs \<rparr>"
        using assms None data Some
        by (simp add: NewStateWithDir_def state_load_def ReadFile_def state_path_def Let_def)
      ultimately show ?thesis using None data book_open [of x B a "map_option map_of reqs"] by simp
    qed
  qed
next
  case (Some e)
  then show ?thesis
    using assms book_refused [of x "disk_of (fs (state_path dir))" B a] by (auto simp: NewStateWithDir_def Let_def)
qed

lemma state_step_refines:
  assumes "machine_ok dir st" and "state_step B dir q st = (ob, st')"
  shows "book_step B q (book_of dir st) ob (book_of dir st') \<and> machine_ok dir st'"
proof -
  obtain x op where q: "q = (x, op)" by (cases q)
  obtain c fs where st: "st = (c, fs)" by (cases st)
  show ?thesis
  proof (cases "op = Restart")
    case True
    then show ?thesis
      using open_refines [OF refl, where x = x and dir = dir and fs = fs and B = B and a = "fst (book_of dir st)"] assms q st
      by (auto simp: book_of_def machine_ok_def split: sum.splits)
  next
    case nr: False
    show ?thesis
    proof (cases c)
      case None
      then show ?thesis using assms q st nr by (cases op) (auto simp: book_of_def machine_ok_def intro!: book_idle)
    next
      case (Some s)
      have ok: "st_filePath s = state_path dir" "requests_wf (st_Requests s)"
        using assms(1) st Some by (simp_all add: machine_ok_def)
      show ?thesis
      proof (cases op)
        case (Put r msg w)
        show ?thesis
        proof (cases "st_Requests s")
          case None
          then show ?thesis
            using assms(2) q st Some Put by (auto simp: state_Store_def book_of_def machine_ok_def intro: book_crash)
        next
          case reqs: (Some reqs)
          let ?i = "generateID x"
          let ?s = "s\<lparr>st_Requests := Some (AList.update ?i (Some (pending_of B r msg w)) reqs)\<rparr>"
          obtain err fs' where sv: "state_save x ?s fs = (err, fs')" by fastforce
          have wf: "requests_wf (st_Requests ?s)" using wf_update [OF ok(2) [unfolded reqs] valid_generateID] by simp
          have "saves (os_write x) (Some ((map_of reqs)(?i \<mapsto> Some (pending_of B r msg w))))
              (disk_of (fs (state_path dir))) err (disk_of (fs' (state_path dir)))"
            using save_saves [OF sv wf, of "state_path dir"] ok(1) by (simp add: update_conv')
          moreover have "ob = Stored (stored_result ?i err)" "st' = (Some ?s, fs')"
            using assms(2) q st Some Put reqs sv
            by (auto simp: state_Store_def Let_def pending_of_def stored_result_def split: option.splits)
          ultimately show ?thesis
            using book_put [OF refl refl] q st Some Put reqs ok wf
            by (simp add: book_of_def machine_ok_def update_conv')
        qed
      next
        case (Look i)
        then show ?thesis
          using assms q st Some book_look [of B x i "map_option map_of (st_Requests s)"]
          by (auto simp: book_of_def machine_ok_def state_Get_def Option.bind_map_option comp_def)
      next
        case (Remove i)
        let ?s = "s\<lparr>st_Requests := map_option (AList.delete i) (st_Requests s)\<rparr>"
        obtain err fs' where sv: "state_save x ?s fs = (err, fs')" by fastforce
        have wf: "requests_wf (st_Requests ?s)" using wf_delete [OF ok(2)] by simp
        have m: "map_option map_of (st_Requests ?s) = map_option (\<lambda>m. m(i := None)) (map_option map_of (st_Requests s))"
          by (simp add: option.map_comp comp_def delete_conv')
        show ?thesis
          using save_saves [OF sv wf, of "state_path dir"] book_remove [OF m, of x _ err _ B] assms(2) q st Some Remove sv ok wf
          by (auto simp: state_Delete_def book_of_def machine_ok_def)
      qed (use nr in simp)
    qed
  qed
qed

text \<open>
  C9: the state with its file refines the book. Whatever is stored, read, deleted and
  restarted, in any order and whatever fails, what the calls report and what memory and disk
  hold afterwards is a run of the abstract book.
\<close>

theorem state_refines_book:
  assumes "machine_ok dir st" and "state_run B dir qs st = (obs, st')"
  shows "book_run B qs (book_of dir st) obs (book_of dir st') \<and> machine_ok dir st'"
  using assms
proof (induction qs arbitrary: st obs)
  case Nil
  then show ?case by (auto intro: book_done)
next
  case (Cons q qs)
  obtain ob st1 where s: "state_step B dir q st = (ob, st1)" by (cases "state_step B dir q st")
  obtain obs' where r: "state_run B dir qs st1 = (obs', st')" "obs = ob # obs'"
    using Cons.prems(2) s by (auto split: prod.splits)
  show ?case
    using state_step_refines [OF Cons.prems(1) s] Cons.IH [OF _ r(1)] r(2) by (auto intro: book_more)
qed

subsection \<open>Restarts and torn writes\<close>

definition sample_os :: os_io where
  "sample_os = \<lparr> os_HOME = ''/home/u'', os_mkdir = None, os_read = None, os_write = Written,
     os_rand4 = Some ''abcd'', os_now = 0, os_json_error = (\<lambda>_. ''invalid JSON'') \<rparr>"

lemma sample_os_simps [simp]:
  "os_HOME sample_os = ''/home/u''" "os_mkdir sample_os = None" "os_read sample_os = None"
  "os_write sample_os = Written" "os_rand4 sample_os = Some ''abcd''"
  by (simp_all add: sample_os_def)

text \<open>A new client stores one request; \<open>sample_machine\<close> is what it leaves.\<close>

definition sample_book_state :: client_state where
  "sample_book_state = \<lparr> st_filePath = state_path ''/home/u'',
     st_Requests = Some [(generateID sample_os, Some (pending_of z3_blst Z2 (Some ''m'') Z1))] \<rparr>"

definition sample_files :: files where
  "sample_files = [state_path ''/home/u'' \<mapsto> MarshalIndent (requests_json (st_Requests sample_book_state))]"

lemma sample_open: "NewStateWithDir x ''/home/u'' Map.empty = Inr \<lparr> st_filePath = state_path ''/home/u'', st_Requests = Some [] \<rparr>"
  if "os_mkdir x = None" "os_read x = None"
  using that by (simp add: NewStateWithDir_def state_load_def ReadFile_def state_path_def Let_def IsNotExist_def)

lemma sample_put:
  "state_step z3_blst ''/home/u'' (sample_os, Put Z2 (Some ''m'') Z1)
     (Some \<lparr> st_filePath = state_path ''/home/u'', st_Requests = Some [] \<rparr>, Map.empty) =
   (Stored (Inr (generateID sample_os)), Some sample_book_state, sample_files)"
  by (simp add: state_Store_def Let_def state_save_def WriteFile_def sample_book_state_def sample_files_def pending_of_def)

lemma sample_ok: "machine_ok ''/home/u'' (Some \<lparr> st_filePath = state_path ''/home/u'', st_Requests = Some [] \<rparr>, Map.empty)"
  by (simp add: machine_ok_def)

theorem state_refines_book_witness:
  "\<exists>obs st. state_run z3_blst ''/home/u'' [(sample_os, Restart), (sample_os, Put Z2 (Some ''m'') Z1)] (None, Map.empty) = (obs, st) \<and>
     obs = [Opened True, Stored (Inr (generateID sample_os))] \<and>
     book_run z3_blst [(sample_os, Restart), (sample_os, Put Z2 (Some ''m'') Z1)] (None, Missing) obs (book_of ''/home/u'' st)"
proof -
  let ?qs = "[(sample_os, Restart), (sample_os, Put Z2 (Some ''m'') Z1)]"
  have r: "state_run z3_blst ''/home/u'' ?qs (None, Map.empty) =
      ([Opened True, Stored (Inr (generateID sample_os))], Some sample_book_state, sample_files)"
    using sample_put by (simp add: sample_open)
  have "machine_ok ''/home/u'' (None, Map.empty)" by (simp add: machine_ok_def)
  from state_refines_book [OF this r] show ?thesis
    using r by (simp add: book_of_def disk_of_def)
qed

text \<open>
  C21: what was saved is loaded. A state without duplicate keys whose write succeeds is the
  state a client started later finds in its directory, every byte of it, in the order of the
  keys.
\<close>

theorem saved_state_reloads:
  assumes "state_save x s fs = (None, fs')" and "requests_wf (st_Requests s)"
    and "st_filePath s = state_path dir" and "os_mkdir x' = None" and "os_read x' = None"
  shows "NewStateWithDir x' dir fs' = Inr (s\<lparr>st_Requests := map_option (sort_key fst) (st_Requests s)\<rparr>)"
proof -
  have "fs' (state_path dir) = Some (MarshalIndent (requests_json (st_Requests s)))"
    using assms(1,3) by (auto simp: state_save_def WriteFile_def split: write_outcome.splits)
  then show ?thesis
    using assms(3-5) saved_file_decodes [OF assms(2)]
    by (simp add: NewStateWithDir_def state_load_def ReadFile_def state_path_def Let_def)
qed

theorem saved_state_reloads_witness:
  "NewStateWithDir sample_os ''/home/u'' sample_files = Inr sample_book_state"
proof -
  have s: "state_save sample_os sample_book_state Map.empty = (None, sample_files)"
    by (simp add: state_save_def WriteFile_def sample_files_def sample_book_state_def)
  have w: "requests_wf (st_Requests sample_book_state)" "st_filePath sample_book_state = state_path ''/home/u''"
    by (simp_all add: sample_book_state_def valid_generateID)
  show ?thesis
    using saved_state_reloads [OF s w, of sample_os] by (simp add: sample_book_state_def)
qed

text \<open>
  C37: a torn write loses everything. When writing the file stops before its end, no client
  started afterwards opens the state: every pending blinding factor is out of reach.
\<close>

theorem torn_write_locks_out:
  assumes "state_save x s fs = (err, fs')" and "os_write x = CutAt n e"
    and "n < length (MarshalIndent (requests_json (st_Requests s)))"
    and "st_filePath s = state_path dir" and "os_read x' = None"
  shows "\<exists>e'. NewStateWithDir x' dir fs' = Inl e'"
proof -
  have f: "fs' (state_path dir) = Some (take n (MarshalIndent (requests_json (st_Requests s))))"
    using assms(1,2,4) by (auto simp: state_save_def WriteFile_def)
  show ?thesis
    using f assms(5) torn_unreadable [OF assms(3)]
    by (cases "os_mkdir x'") (simp_all add: NewStateWithDir_def state_load_def ReadFile_def state_path_def Let_def
        IsNotExist_def ErrNotExist_def)
qed

theorem torn_write_locks_out_witness:
  "\<exists>e'. NewStateWithDir sample_os ''/home/u''
     (snd (state_save (sample_os\<lparr>os_write := CutAt 1 (Errorf ''disk full'')\<rparr>) sample_book_state sample_files)) = Inl e'"
proof (rule torn_write_locks_out)
  show "state_save (sample_os\<lparr>os_write := CutAt 1 (Errorf ''disk full'')\<rparr>) sample_book_state sample_files =
    (fst (state_save (sample_os\<lparr>os_write := CutAt 1 (Errorf ''disk full'')\<rparr>) sample_book_state sample_files),
     snd (state_save (sample_os\<lparr>os_write := CutAt 1 (Errorf ''disk full'')\<rparr>) sample_book_state sample_files))"
    by simp
  show "1 < length (MarshalIndent (requests_json (st_Requests sample_book_state)))"
    by (simp add: MarshalIndent_def requests_json_def sample_book_state_def json_object_def)
qed (simp_all add: sample_book_state_def)

subsection \<open>A pending request survives\<close>

definition book_keeps :: "string \<Rightarrow> pending_request option \<Rightarrow> book \<Rightarrow> bool" where
  "book_keeps i p b \<longleftrightarrow> (fst b = None \<or> (\<exists>m. fst b = Some (Some m) \<and> m i = Some p)) \<and>
     (\<exists>m. snd b = Holds (Some m) \<and> m i = Some p)"

text \<open>A call that reads the file when it must, tears none, and neither deletes nor overwrites the id.\<close>

definition untorn :: "os_io \<Rightarrow> bool" where
  "untorn x \<longleftrightarrow> (\<forall>n e. os_write x \<noteq> CutAt n e)"

fun spares :: "string \<Rightarrow> os_io \<times> ('s, 'p1) state_op \<Rightarrow> bool" where
  "spares i (x, Put r m w) \<longleftrightarrow> untorn x \<and> generateID x \<noteq> i"
| "spares i (x, Remove j) \<longleftrightarrow> untorn x \<and> j \<noteq> i"
| "spares i (x, Look j) \<longleftrightarrow> True"
| "spares i (x, Restart) \<longleftrightarrow> os_read x = None"

lemma saves_spared:
  assumes "saves (os_write x) m' d err d'" and "untorn x"
  shows "d' = d \<or> d' = Holds m'"
  using assms by (cases rule: saves.cases) (auto simp: untorn_def)

lemma book_step_keeps:
  assumes "book_step B q b ob b'" and "book_keeps i p b" and "spares i q"
  shows "book_keeps i p b'"
  using assms
proof (cases rule: book_step.cases)
  case (book_put j x m' m r msg w d err d')
  then show ?thesis using assms saves_spared [OF book_put(7)] by (auto simp: book_keeps_def)
next
  case (book_remove m' m x d err d' j)
  then show ?thesis using assms saves_spared [OF book_remove(6)] by (auto simp: book_keeps_def)
qed (auto simp: book_keeps_def)

lemma machine_run_keeps:
  assumes "machine_ok dir st" and "book_keeps i p (book_of dir st)" and "\<forall>q \<in> set qs. spares i q"
  shows "machine_ok dir (snd (state_run B dir qs st)) \<and> book_keeps i p (book_of dir (snd (state_run B dir qs st)))"
  using assms
proof (induction qs arbitrary: st)
  case (Cons q qs)
  obtain ob st1 where s: "state_step B dir q st = (ob, st1)" by (cases "state_step B dir q st")
  have r: "book_step B q (book_of dir st) ob (book_of dir st1)" "machine_ok dir st1"
    using state_step_refines [OF Cons.prems(1) s] by simp_all
  have "book_keeps i p (book_of dir st1)"
    by (rule book_step_keeps [OF r(1) Cons.prems(2)]) (use Cons.prems(3) in simp)
  from Cons.IH [OF r(2) this] Cons.prems(3) show ?case by (simp add: s split_beta)
qed simp

text \<open>
  C38: a stored request stays. After an id was handed out, whatever the client and clients
  started after it store and delete under other ids, its request is found as it was stored,
  as long as no write is torn. That no later id equals it is a condition here: nothing in the
  code makes ids differ.
\<close>

theorem pending_survives:
  assumes "machine_ok dir (Some s, fs)"
    and "state_step B dir (x, Put r msg w) (Some s, fs) = (Stored (Inr i), st)"
    and "\<forall>q \<in> set qs. spares i q"
  shows "fst (state_step B dir (x', Look i) (snd (state_run B dir qs st))) \<in>
    {Looked (Inr (Some (pending_of B r msg w))), NoProcess}"
proof -
  let ?p = "Some (pending_of B r msg w)"
  have r: "book_step B (x, Put r msg w) (book_of dir (Some s, fs)) (Stored (Inr i)) (book_of dir st)"
    and ok: "machine_ok dir st"
    using state_step_refines [OF assms(1,2)] by simp_all
  from r have "book_keeps i ?p (book_of dir st)"
    by (cases "book_of dir (Some s, fs)"; cases "book_of dir st")
      (auto simp: book_keeps_def stored_result_def elim!: book_stepE(2) elim: saves.cases split: option.splits)
  then have k: "machine_ok dir (snd (state_run B dir qs st)) \<and> book_keeps i ?p (book_of dir (snd (state_run B dir qs st)))"
    by (rule machine_run_keeps [OF ok _ assms(3)])
  obtain c fs' where st': "snd (state_run B dir qs st) = (c, fs')" by (cases "snd (state_run B dir qs st)")
  show ?thesis
    using k by (cases c) (auto simp: st' book_keeps_def book_of_def state_Get_def)
qed

theorem pending_survives_witness:
  "fst (state_step z3_blst ''/home/u'' (sample_os, Look (generateID sample_os))
     (snd (state_run z3_blst ''/home/u'' [(sample_os, Remove ''x'')] (Some sample_book_state, sample_files)))) =
   Looked (Inr (Some (pending_of z3_blst Z2 (Some ''m'') Z1)))"
proof -
  have "\<forall>q \<in> set [(sample_os, Remove ''x'' :: (z3, z3) state_op)]. spares (generateID sample_os) q"
    by (simp add: generateID_def untorn_def)
  from pending_survives [OF sample_ok sample_put this, of sample_os] show ?thesis
    by (simp add: state_Delete_def Let_def split_beta)
qed

end
