(* ===== verification/ClientServer.thy ===== *)
theory ClientServer
  imports ApiSamples StateFile Cli
begin

section \<open>The client against the server\<close>

text \<open>
  What a client of \<open>pkg/client\<close> gets from the server of \<open>internal/api\<close> over HTTP: the bytes
  of the redemption request are decoded to the request the client made, and the client's result
  is a function of what the service answers. The transport hands a request to the server once
  and returns what the server sent.
\<close>

subsection \<open>The transport\<close>

definition posted :: "string \<Rightarrow> string \<Rightarrow> string \<Rightarrow> string \<Rightarrow> bytes \<Rightarrow> request" where
  "posted base remote url ctype body = \<lparr> rq_Method = ''POST'', rq_Path = drop (length base) url, rq_RawQuery = '''',
     rq_RemoteAddr = remote, rq_Header = [''Content-Type'' \<mapsto> ctype], rq_Body = body, rq_limit = None,
     rq_ctx = background \<rparr>"

definition transport ::
    "('p1, 'p2, 's, 'ml, 'e, 'n, 'r, 'l) deps \<Rightarrow> io \<Rightarrow> string \<Rightarrow> string \<Rightarrow> string \<Rightarrow> string \<Rightarrow> bytes \<Rightarrow>
     ('p1, 'e, 'n, 'r, 'l) server \<Rightarrow> (nat \<times> bytes) result \<times> ('p1, 'e, 'n, 'r, 'l) server" where
  "transport D io base remote url ctype body s =
     (let (out, w, s) = ServeHTTP D io (posted base remote url ctype body) fresh_writer s
      in (case (out, sent_status w) of
            (Returned, Some code) \<Rightarrow> (Inr (code, bw_body (base_of w)), s)
          | (Returned, None) \<Rightarrow> (Inr (200, bw_body (base_of w)), s)
          | _ \<Rightarrow> (Inl (Errorf ''EOF''), s)))"

subsection \<open>The request arrives as it was made\<close>

lemma consume_request_decoded:
  assumes "\<forall>x \<in> {cq_UnblindedSignature q, cq_Witness q, cq_CredentialClass q, cq_KeyEpoch q}. valid_utf8 x"
    and "rq_Body r = Marshal (consume_request_json q)" and "length (rq_Body r) \<le> 2 ^ 20"
    and "rq_limit r \<in> {None, Some (2 ^ 20)}"
  shows "Decode e decode_consume r = Inr q"
proof -
  let ?ms = "[(''unblinded_signature'', json_string (cq_UnblindedSignature q)),
    (''witness'', json_string (cq_Witness q)), (''credential_class'', json_string (cq_CredentialClass q)),
    (''key_epoch'', json_string (cq_KeyEpoch q))]"
  have g: "\<forall>m \<in> set ?ms. good_json (snd m) \<and> json_depth (snd m) \<le> 0"
    by (simp add: good_json_string)
  have s: "struct_members [''unblinded_signature'', ''witness'', ''credential_class'', ''key_epoch'']
      (map (\<lambda>(k, v). (json_escape k, v)) ?ms) = ?ms"
    by (rule struct_members_printed) simp
  have d: "decode_consume (map (\<lambda>(k, v). (json_escape k, v)) ?ms) = Some q"
    unfolding decode_consume_def s using assms(1) by (simp add: json_string_def unquote_json_escape)
  show ?thesis
    using Decode_printed [of r "map (\<lambda>(k, v). (json_escape k, v)) ?ms" e decode_consume] good_json_object [OF g]
      assms(2-4) d
    by (simp add: consume_request_json_def json_object_def max_nesting_def)
qed

lemma valid_hex_of: "valid_utf8 (hex_of b)"
  using ascii_hex_encode by (cases b) (simp_all add: hex_of_def valid_utf8_ascii)

subsection \<open>The answer is read as it was given\<close>

lemma good_consume_response:
  "good_json (consume_response_json v err) \<and> json_depth (consume_response_json v err) \<le> Suc 0"
  unfolding consume_response_json_def by (rule good_json_object) (simp add: good_json_string)

lemma consume_response_read:
  "json_first (Marshal (consume_response_json v err)) = Some (consume_response_json v err, [])"
  using Marshal_first [of "consume_response_json v err" "[]"] good_consume_response [of v err]
  by (simp add: max_nesting_def consume_response_json_def json_object_def)

lemma accepted_read: "decode_valid (Marshal (consume_response_json True '''')) = Some True"
  unfolding decode_valid_def consume_response_read
  by (simp add: consume_response_json_def json_object_def struct_members_def struct_field_def
      unquote_json_escape List.map_filter_simps)

lemma refused_read: "\<not> snd (refusal_text (Marshal (consume_response_json False err)))"
  unfolding refusal_text_def consume_response_read
  by (simp add: consume_response_json_def json_object_def struct_members_def struct_field_def
      unquote_json_escape List.map_filter_simps json_string_def fold_name.simps to_lower_def)

text \<open>What the client makes of the service's answer.\<close>

definition status_error :: "nat \<Rightarrow> bool result" where
  "status_error code = Inl (Errorf (''unexpected status: '' @ int_str (int code)))"

abbreviation already_redeemed :: "bool result" where
  "already_redeemed \<equiv> Inl (Errorf ''credential already redeemed'')"

fun redeemed :: "consume_result result \<Rightarrow> bool result" where
  "redeemed (Inl err) = (if HTTPStatus (CodeOf (Some err)) = 409
     then Inl (Errorf ''credential already redeemed'') else status_error (HTTPStatus (CodeOf (Some err))))"
| "redeemed (Inr res) = (case cr_Status res of
     ConsumeAccepted \<Rightarrow> Inr True
   | ConsumeDuplicate \<Rightarrow> already_redeemed
   | ConsumeRevoked \<Rightarrow> already_redeemed
   | ConsumeOther _ \<Rightarrow> status_error 500)"

lemma Consume_results:
  "fst (Consume B M NI RI t1 t2 ctx sigHex wHex cls epoch s) = Inl err \<Longrightarrow> HTTPStatus (CodeOf (Some err)) \<noteq> 409"
  "fst (Consume B M NI RI t1 t2 ctx sigHex wHex cls epoch s) = Inr res \<Longrightarrow>
     cr_Status res \<in> {ConsumeAccepted, ConsumeDuplicate, ConsumeRevoked}"
proof -
  show "fst (Consume B M NI RI t1 t2 ctx sigHex wHex cls epoch s) = Inl err \<Longrightarrow> HTTPStatus (CodeOf (Some err)) \<noteq> 409"
    using Consume_error_codes [of B M NI RI t1 t2 ctx sigHex wHex cls epoch s err] by auto
  show "fst (Consume B M NI RI t1 t2 ctx sigHex wHex cls epoch s) = Inr res \<Longrightarrow>
      cr_Status res \<in> {ConsumeAccepted, ConsumeDuplicate, ConsumeRevoked}"
    by (auto simp: Consume_def consume_admit_def consume_commit_def Let_def
        split: option.splits sum.splits prod.splits if_splits)
qed

text \<open>What the client makes of each response of the handler.\<close>

lemma answer_status: "code \<noteq> 200 \<Longrightarrow> code \<noteq> 409 \<Longrightarrow> redeem_answer je code body = status_error code"
  by (simp add: redeem_answer_def status_error_def)

lemma answer_accepted: "redeem_answer je 200 (Marshal (consume_response_json True '''')) = Inr True"
  by (simp add: redeem_answer_def accepted_read)

lemma answer_refused: "redeem_answer je 409 (Marshal (consume_response_json False err)) = already_redeemed"
  using refused_read [of err] by (simp add: redeem_answer_def split_beta)

definition read_answer :: "(bytes \<Rightarrow> string) \<Rightarrow> writer \<Rightarrow> bool result" where
  "read_answer je w = redeem_answer je (the (sent_status w)) (bw_body (base_of w))"

lemma respond_status_unwritten:
  assumes "unwritten w"
  shows "sent_status (respondErr w e) = Some (HTTPStatus (CodeOf e))"
    and "sent_status (respondJSON w code (Some v)) = Some code"
  using unwritten_status [OF assms] by (simp_all add: respond_status)

lemma respondErr_answer:
  assumes "unwritten w" "HTTPStatus (CodeOf e) \<noteq> 409"
  shows "read_answer je (respondErr w e) = status_error (HTTPStatus (CodeOf e))"
  using answer_status [OF HTTPStatus_not_200(1) assms(2)] by (simp add: read_answer_def respond_status_unwritten [OF assms(1)])

lemma handleConsume_answer:
  assumes h: "handleConsume D io r w s = (out, w', s')" and w: "unwritten w"
    and d: "Decode (dp_decode_error D) decode_consume r = Inr q"
  shows "out = Returned \<and> sent_status w' \<noteq> None \<and>
    read_answer je w' = (if ValidateConsumeRequest (dp_validator D) (io_now io 5) q \<noteq> None then status_error 400
      else redeemed (fst (consume_call D io (rq_ctx r) q (srv_credentialService s))))"
proof (cases "ValidateConsumeRequest (dp_validator D) (io_now io 5) q")
  case (Some e)
  then show ?thesis
    using h w d by (auto simp: handleConsume_def Let_def respond_status_unwritten respondErr_answer)
next
  case None
  obtain res svc where c: "consume_call D io (rq_ctx r) q (srv_credentialService s) = (res, svc)" by fastforce
  then have r: "fst (Consume (dp_blst D) (dp_memguard D) (dp_nullifiers D) (dp_revocations D) (io_now io 6) (io_now io 7)
      (rq_ctx r) (cq_UnblindedSignature q) (cq_Witness q) (cq_CredentialClass q) (cq_KeyEpoch q) (srv_credentialService s)) = res"
    by (simp add: consume_call_def)
  show ?thesis
  proof (cases res)
    case (Inl e)
    note n = Consume_results(1) [OF r [unfolded Inl]]
    have "w' = respondErr w (Some (consume_error e)) \<and> out = Returned"
      using h d None c Inl by (auto simp: handleConsume_def consume_call_def Let_def)
    then show ?thesis
      using None c Inl w n by (simp add: respond_status_unwritten respondErr_answer)
  next
    case (Inr x)
    have "cr_Status x \<in> {ConsumeAccepted, ConsumeDuplicate, ConsumeRevoked}"
      using Consume_results(2) [OF r [unfolded Inr]] .
    then consider "cr_Status x = ConsumeAccepted" | "cr_Status x = ConsumeDuplicate" | "cr_Status x = ConsumeRevoked"
      by blast
    then show ?thesis
      using h d None c Inr w
      by cases (auto simp: handleConsume_def consume_call_def Let_def read_answer_def respond_status_unwritten
          respondJSON_body answer_accepted answer_refused)
  qed
qed

abbreviation redeem_body :: "('p1, 'p2, 's, 'ml) blst \<Rightarrow> 'p1 \<Rightarrow> 'p1 \<Rightarrow> string \<Rightarrow> string \<Rightarrow> bytes" where
  "redeem_body B sig wit cls ep \<equiv> Marshal (consume_request_json (redeem_request B sig wit cls ep))"

text \<open>The request as the server gets it.\<close>

definition redeem_posted ::
    "('p1, 'p2, 's, 'ml) blst \<Rightarrow> string \<Rightarrow> 'p1 \<Rightarrow> 'p1 \<Rightarrow> string \<Rightarrow> string \<Rightarrow> request" where
  "redeem_posted B remote sig wit cls ep = \<lparr> rq_Method = ''POST'', rq_Path = ''/v1/credential/consume'',
     rq_RawQuery = '''', rq_RemoteAddr = remote, rq_Header = [''Content-Type'' \<mapsto> ''application/json''],
     rq_Body = redeem_body B sig wit cls ep, rq_limit = None, rq_ctx = background \<rparr>"

abbreviation with_id :: "string \<Rightarrow> go_context" where
  "with_id i \<equiv> background\<lparr>cx_request_id := Some i\<rparr>"

lemma redeem_over_http:
  fixes D :: "('p1, 'p2, 's, 'ml, 'e, 'n, 'r, 'l) deps" and sig wit :: 'p1
  assumes "ct_serverURL c = base" and "valid_utf8 cls" and "valid_utf8 ep"
    and "length (redeem_body (dp_blst D) sig wit cls ep) \<le> 2 ^ 20"
  shows "fst (Redeem (dp_blst D) (transport D io base remote) je sig wit cls ep c s) = (case io_uuid io of
      None \<Rightarrow> status_error 500
    | Some i \<Rightarrow>
      if \<not> fst (rate_limited D io (redeem_posted (dp_blst D) remote sig wit cls ep) s) then status_error 429
      else if ValidateConsumeRequest (dp_validator D) (io_now io 5) (redeem_request (dp_blst D) sig wit cls ep) \<noteq> None
      then status_error 400
      else redeemed (fst (Consume (dp_blst D) (dp_memguard D) (dp_nullifiers D) (dp_revocations D) (io_now io 6)
        (io_now io 7) (with_id i) (hex_of (G1_Compress (dp_blst D) sig)) (hex_of (G1_Compress (dp_blst D) wit))
        cls ep (srv_credentialService s))))"
proof -
  let ?q = "redeem_request (dp_blst D) sig wit cls ep" and ?r = "redeem_posted (dp_blst D) remote sig wit cls ep"
  have p: "posted base remote (base @ ''/v1/credential/consume'') ''application/json'' (redeem_body (dp_blst D) sig wit cls ep) = ?r"
    by (simp add: posted_def redeem_posted_def)
  have S: "ServeHTTP D io ?r fresh_writer s = limited D (handleConsume D) io ?r fresh_writer s"
    by (rule ServeHTTP_consume) (simp_all add: redeem_posted_def)
  have answer: "fst (Redeem (dp_blst D) (transport D io base remote) je sig wit cls ep c s) = read_answer je w"
    if "limited D (handleConsume D) io ?r fresh_writer s = (Returned, w, s')" "sent_status w \<noteq> None" for w s'
    using that assms(1) S p by (auto simp: Redeem_def transport_def read_answer_def Let_def)
  have id: "WithRequestID io (rq_ctx ?r) = map_option (\<lambda>i. (with_id i, i)) (io_uuid io)"
    by (simp add: WithRequestID_def redeem_posted_def background_def)
  show ?thesis
  proof (cases rule: limited_cases [of io ?r D "handleConsume D" fresh_writer s])
    case no_id
    then show ?thesis
      using answer [OF no_id(2)] id by (simp add: respond_status_unwritten respondErr_answer)
  next
    case (denied ctx reqID s1)
    have e: "sent_status (embedded (respondErr (inner_writer reqID fresh_writer) too_many)) \<noteq> None"
      by (simp add: respond_status_unwritten)
    have "read_answer je (embedded (respondErr (inner_writer reqID fresh_writer) too_many)) = status_error 429"
      using respondErr_answer [of "inner_writer reqID fresh_writer" too_many je] by (simp add: read_answer_def)
    then show ?thesis
      using answer [OF denied(3) e] denied(1,2) id by (auto split: option.splits)
  next
    case (served ctx reqID s1 out rw s2)
    have ctx: "io_uuid io = Some reqID" "ctx = with_id reqID" using served(1) id by auto
    have b: "rq_Body (inner_request ctx ?r) = redeem_body (dp_blst D) sig wit cls ep"
      "rq_limit (inner_request ctx ?r) = Some (2 ^ 20)" "rq_ctx (inner_request ctx ?r) = ctx"
      by (simp_all add: inner_request_def MaxBytesReader_def redeem_posted_def)
    have d: "Decode e decode_consume (inner_request ctx ?r) = Inr ?q" for e
      by (rule consume_request_decoded) (use assms(2-4) b in \<open>simp_all add: valid_hex_of redeem_request_def\<close>)
    note a = handleConsume_answer [OF served(3) _ d, of je]
    have l: "limited D (handleConsume D) io ?r fresh_writer s = (Returned, embedded rw, recorded io ?r (Status rw) s2)"
      and st: "sent_status (embedded rw) \<noteq> None" using served(4) a by simp_all
    have svc: "srv_credentialService s1 = srv_credentialService s" using rate_limited_frame [OF served(2)] by simp
    have "read_answer je (embedded rw) = read_answer je rw" by (simp add: read_answer_def)
    then show ?thesis
      using answer [OF l st] a ctx b(3) served(2) svc
      by (simp add: consume_call_def redeem_request_def)
  qed
qed

subsection \<open>Blinding, a restart, and unblinding\<close>

lemma stored_then_reopened:
  assumes "st_filePath s = state_path dir" and "requests_wf (st_Requests s)"
    and "state_Store B x r msg w s fs = Gives (Inr i, s1, fs1)"
    and "NewStateWithDir x' dir fs1 = Inr s2" and "os_read x' = None"
  shows "state_Get i s2 = Inr (Some (pending_of B r msg w))"
proof -
  have ok: "machine_ok dir (Some s, fs)" using assms(1,2) by (simp add: machine_ok_def)
  have "state_step B dir (x, Put r msg w) (Some s, fs) = (Stored (Inr i), Some s1, fs1)"
    using assms(3) by simp
  from state_step_refines [OF ok this]
  have b: "book_step B (x, Put r msg w) (book_of dir (Some s, fs)) (Stored (Inr i)) (book_of dir (Some s1, fs1))"
    and ok1: "machine_ok dir (Some s1, fs1)" by simp_all
  have keeps: "book_keeps i (Some (pending_of B r msg w)) (book_of dir (Some s1, fs1))"
    using b by (cases "book_of dir (Some s, fs)"; cases "book_of dir (Some s1, fs1)")
      (auto simp: book_keeps_def stored_result_def elim!: book_stepE(2) elim: saves.cases split: option.splits)
  have step: "state_step B dir (x', Restart :: ('c, 'a) state_op) (Some s1, fs1) = (Opened True, Some s2, fs1)"
    using assms(4) by simp
  have "book_keeps i (Some (pending_of B r msg w)) (book_of dir (Some s2, fs1))"
    by (rule book_step_keeps [OF conjunct1 [OF state_step_refines [OF ok1 step]] keeps]) (use assms(5) in simp)
  then show ?thesis by (auto simp: book_keeps_def book_of_def state_Get_def)
qed

lemma Blind_ok:
  assumes "Blind B x rnd msg c fs = Gives (Inr res, c1, fs1)" and "ct_engine c = NewBLS12Engine B"
  obtains r dst s1 where "ct_dst c = Some dst" "br_Witness res = hash_to_g1 B (case msg of None \<Rightarrow> '''' | Some m \<Rightarrow> m) dst"
    "NewRandomScalar B rnd = Inr r" "br_Blinded res = p1_mult B (br_Witness res) r"
    "state_Store B x r msg (br_Witness res) (ct_state c) fs = Gives (Inr (br_RequestID res), s1, fs1)"
    "c1 = c\<lparr>ct_state := s1\<rparr>"
  using assms
  by (auto simp: Blind_def HashToCurve_def NewBLS12Engine_def defaultHashToCurve_def BlindMessage_def
      split: option.splits sum.splits go_call.splits prod.splits)

definition home_of :: "os_io \<Rightarrow> client_config \<Rightarrow> string" where
  "home_of x cfg = (if cc_HomeDir cfg = '''' then os_HOME x else cc_HomeDir cfg)"

lemma NewClient_ok:
  assumes "NewClient B x cfg fs = Inr c"
  shows "NewStateWithDir x (home_of x cfg) fs = Inr (ct_state c)" "ct_serverURL c = cc_ServerURL cfg"
    "ct_engine c = NewBLS12Engine B"
  using assms by (auto simp: NewClient_def NewState_def home_of_def split: sum.splits if_splits)

lemma Get_after_Delete: "state_Get i (fst (snd (state_Delete x i s fs))) = Inl ErrRequestNotFound"
  by (cases "st_Requests s") (auto simp: state_Delete_def state_Get_def Let_def delete_conv' split: prod.splits)

lemma blind_restart_unblind:
  assumes L: "blst_laws B D" and st: "st_filePath (ct_state c) = state_path (home_of x' cfg)" "requests_wf (st_Requests (ct_state c))"
    and eng: "ct_engine c = NewBLS12Engine B"
    and blind: "Blind B x rnd msg c fs = Gives (Inr res, c1, fs1)"
    and restart: "NewClient B x' cfg fs1 = Inr c2" "os_read x' = None"
    and sign: "SignBlinded B (br_Blinded res) sk = Inr bsig"
  shows "p1_in_g1 B (br_Witness res) \<and> (\<exists>c3 fs3. Unblind B x'' (br_RequestID res) bsig c2 fs1 =
      Gives (Inr (p1_mult B (br_Witness res) sk), c3, fs3) \<and> GetRequest (br_RequestID res) c3 = Inl ErrRequestNotFound \<and>
      ct_serverURL c3 = ct_serverURL c2)"
proof -
  obtain r dst s1 where b: "br_Witness res = hash_to_g1 B (case msg of None \<Rightarrow> '''' | Some m \<Rightarrow> m) dst"
    "NewRandomScalar B rnd = Inr r" "br_Blinded res = p1_mult B (br_Witness res) r"
    "state_Store B x r msg (br_Witness res) (ct_state c) fs = Gives (Inr (br_RequestID res), s1, fs1)"
    using Blind_ok [OF blind eng] by metis
  have w: "p1_in_g1 B (br_Witness res)" using L by (simp add: b(1) hash_in_g1)
  have r0: "sv D r \<noteq> 0" by (rule NewRandomScalar_nonzero [OF L b(2)])
  have g: "state_Get (br_RequestID res) (ct_state c2) = Inr (Some (pending_of B r msg (br_Witness res)))"
    by (rule stored_then_reopened [OF st b(4) NewClient_ok(1) [OF restart(1)] restart(2)])
  have "NewBlstScalarFromBytes B (Scalar_Bytes B r) = Inr r" by (rule scalar_bytes_roundtrip [OF L])
  moreover have "UnblindSignature B bsig r = Inr (p1_mult B (br_Witness res) sk)"
    using sign b(3) mult_inverse_cancel [OF L w r0] by (auto simp: SignBlinded_def UnblindSignature_def)
  ultimately show ?thesis
    using w g Get_after_Delete [of "br_RequestID res" x'' "ct_state c2" fs1]
    by (auto simp: Unblind_def pending_of_def GetRequest_def Let_def split: prod.splits)
qed

end
