(* ===== verification/ClientProperties.thy ===== *)
theory ClientProperties
  imports ClientServer
begin

section \<open>Properties of the client\<close>

text \<open>
  What a client that talks to the server is told and gets: the answers of \<open>Redeem\<close>, a
  credential from blinding over a restart of the client to its redemption, and the check of a
  proof on the command line. The sample client at its side is the one of the witnesses.
\<close>

subsection \<open>Redemption\<close>

definition redemption_served ::
    "('p1, 'p2, 's, 'ml, 'e, 'n, 'r, 'l) deps \<Rightarrow> io \<Rightarrow> string \<Rightarrow> 'p1 \<Rightarrow> 'p1 \<Rightarrow> string \<Rightarrow> string \<Rightarrow>
     ('p1, 'e, 'n, 'r, 'l) server \<Rightarrow> string \<Rightarrow> bool" where
  "redemption_served D io remote sig wit cls ep s i \<longleftrightarrow> io_uuid io = Some i \<and>
     fst (rate_limited D io (redeem_posted (dp_blst D) remote sig wit cls ep) s) \<and>
     ValidateConsumeRequest (dp_validator D) (io_now io 5) (redeem_request (dp_blst D) sig wit cls ep) = None"

definition redemption_result ::
    "('p1, 'p2, 's, 'ml, 'e, 'n, 'r, 'l) deps \<Rightarrow> io \<Rightarrow> 'p1 \<Rightarrow> 'p1 \<Rightarrow> string \<Rightarrow> string \<Rightarrow>
     ('p1, 'e, 'n, 'r, 'l) server \<Rightarrow> string \<Rightarrow> consume_result result" where
  "redemption_result D io sig wit cls ep s i =
     fst (Consume (dp_blst D) (dp_memguard D) (dp_nullifiers D) (dp_revocations D) (io_now io 6) (io_now io 7)
       (with_id i) (hex_point (dp_blst D) sig) (hex_point (dp_blst D) wit) cls ep (srv_credentialService s))"

lemma status_error_not [simp]:
  "status_error code \<noteq> Inr v" "status_error code \<noteq> already_redeemed"
  by (simp_all add: status_error_def)

lemma redeemed_cases:
  assumes "redemption_result D io sig wit cls ep s i = r"
  shows "redeemed r \<noteq> Inr False" "redeemed r = Inr True \<longleftrightarrow> accepted r"
    "redeemed r = already_redeemed \<longleftrightarrow> (\<exists>x. r = Inr x \<and> cr_Status x \<in> {ConsumeDuplicate, ConsumeRevoked})"
proof -
  have "redeemed r \<noteq> Inr False \<and> (redeemed r = Inr True \<longleftrightarrow> accepted r) \<and>
    (redeemed r = already_redeemed \<longleftrightarrow> (\<exists>x. r = Inr x \<and> cr_Status x \<in> {ConsumeDuplicate, ConsumeRevoked}))"
  proof (cases r)
    case (Inl err)
    then show ?thesis using Consume_results(1) assms unfolding redemption_result_def by fastforce
  next
    case (Inr x)
    then have "cr_Status x \<in> {ConsumeAccepted, ConsumeDuplicate, ConsumeRevoked}"
      using Consume_results(2) assms unfolding redemption_result_def by blast
    then show ?thesis using Inr by auto
  qed
  then show "redeemed r \<noteq> Inr False" "redeemed r = Inr True \<longleftrightarrow> accepted r"
    "redeemed r = already_redeemed \<longleftrightarrow> (\<exists>x. r = Inr x \<and> cr_Status x \<in> {ConsumeDuplicate, ConsumeRevoked})"
    by blast+
qed

lemma Redeem_served:
  fixes D :: "('p1, 'p2, 's, 'ml, 'e, 'n, 'r, 'l) deps" and sig wit :: 'p1
  assumes "ct_serverURL c = base" and "valid_utf8 cls" and "valid_utf8 ep"
    and "length (redeem_body (dp_blst D) sig wit cls ep) \<le> 2 ^ 20"
  shows "redemption_served D io remote sig wit cls ep s i \<Longrightarrow>
      fst (Redeem (dp_blst D) (transport D io base remote) je sig wit cls ep c s) =
        redeemed (redemption_result D io sig wit cls ep s i)"
    and "\<nexists>i. redemption_served D io remote sig wit cls ep s i \<Longrightarrow>
      \<exists>code. fst (Redeem (dp_blst D) (transport D io base remote) je sig wit cls ep c s) = status_error code"
  using redeem_over_http [OF assms, of io remote je s]
  by (auto simp: redemption_served_def redemption_result_def hex_point_def split: option.splits)

lemma Redeem_result:
  fixes D :: "('p1, 'p2, 's, 'ml, 'e, 'n, 'r, 'l) deps" and sig wit :: 'p1
  assumes "ct_serverURL c = base" and "valid_utf8 cls" and "valid_utf8 ep"
    and "length (redeem_body (dp_blst D) sig wit cls ep) \<le> 2 ^ 20"
    and "fst (Redeem (dp_blst D) (transport D io base remote) je sig wit cls ep c s) = res"
  shows "(res = Inr True \<longleftrightarrow> (\<exists>i. redemption_served D io remote sig wit cls ep s i \<and>
      accepted (redemption_result D io sig wit cls ep s i))) \<and>
    (res = already_redeemed \<longleftrightarrow> (\<exists>i x. redemption_served D io remote sig wit cls ep s i \<and>
      redemption_result D io sig wit cls ep s i = Inr x \<and> cr_Status x \<in> {ConsumeDuplicate, ConsumeRevoked})) \<and>
    res \<noteq> Inr False"
proof (cases "\<exists>i. redemption_served D io remote sig wit cls ep s i")
  case True
  then obtain i where i: "redemption_served D io remote sig wit cls ep s i" ..
  have u: "i' = i" if "redemption_served D io remote sig wit cls ep s i'" for i'
    using i that by (simp add: redemption_served_def)
  have e: "(\<exists>j. redemption_served D io remote sig wit cls ep s j \<and> P j) \<longleftrightarrow> P i" for P
    using i u by blast
  have "res = redeemed (redemption_result D io sig wit cls ep s i)"
    using Redeem_served(1) [OF assms(1-4) i] assms(5) by simp
  then show ?thesis
    using redeemed_cases [OF refl, of D io sig wit cls ep s i] by (simp add: e)
next
  case False
  then obtain code where "res = status_error code" using Redeem_served(2) [OF assms(1-4) False] assms(5) by metis
  then show ?thesis using False by simp
qed

lemma Redeem_true:
  fixes D :: "('p1, 'p2, 's, 'ml, 'e, 'n, 'r, 'l) deps" and sig wit :: 'p1
  assumes "ct_serverURL c = base" and "valid_utf8 cls" and "valid_utf8 ep"
    and "length (redeem_body (dp_blst D) sig wit cls ep) \<le> 2 ^ 20"
  shows "fst (Redeem (dp_blst D) (transport D io base remote) je sig wit cls ep c s) = Inr True \<longleftrightarrow>
    (\<exists>i. redemption_served D io remote sig wit cls ep s i \<and> accepted (redemption_result D io sig wit cls ep s i))"
  using Redeem_result [OF assms refl, of io remote je s] by (rule conjunct1)

text \<open>
  C14: what \<open>Redeem\<close> tells its caller when it talks to the server. It returns true exactly
  when the request gets an id, passes the limiter and the validation, and the service accepts
  the redemption; it reports a redeemed credential exactly when the service answers with a
  duplicate or a revocation, which the caller cannot tell apart; it never returns false
  without an error.
\<close>

theorem redeem_reports:
  fixes D :: "('p1, 'p2, 's, 'ml, 'e, 'n, 'r, 'l) deps" and sig wit :: 'p1
  assumes "ct_serverURL c = base" and "valid_utf8 cls" and "valid_utf8 ep"
    and "length (redeem_body (dp_blst D) sig wit cls ep) \<le> 2 ^ 20"
    and "fst (Redeem (dp_blst D) (transport D io base remote) je sig wit cls ep c s) = res"
  shows "(res = Inr True \<longleftrightarrow> (\<exists>i. redemption_served D io remote sig wit cls ep s i \<and>
      accepted (redemption_result D io sig wit cls ep s i))) \<and>
    (res = already_redeemed \<longleftrightarrow> (\<exists>i x. redemption_served D io remote sig wit cls ep s i \<and>
      redemption_result D io sig wit cls ep s i = Inr x \<and> cr_Status x \<in> {ConsumeDuplicate, ConsumeRevoked})) \<and>
    res \<noteq> Inr False"
  by (rule Redeem_result [OF assms])

subsection \<open>A credential end to end\<close>

text \<open>Redeeming a signature of the key the server derives for the epoch and the class.\<close>

lemma signed_redemption:
  fixes D :: "('p1, 'p2, 's, 'ml, 'e, 'n, 'r, 'l) deps"
  assumes L: "blst_laws (dp_blst D) V"
    and k: "service_key (dp_blst D) (dp_memguard D) ep cls (cs_config (srv_credentialService s)) = Inr sk"
    and w: "p1_in_g1 (dp_blst D) wit" and sig: "sig = p1_mult (dp_blst D) wit sk" and cls: "cls \<noteq> ''''"
  shows "accepted (redemption_result D io sig wit cls ep s i) \<longleftrightarrow>
    ep \<noteq> '''' \<and> ep \<in> set (cf_SupportedEpochs (cs_config (srv_credentialService s))) \<and>
    not_revoked (dp_revocations D) (io_now io 6) cls ep (srv_credentialService s) \<and>
    fst (ns_CheckAndStore (dp_nullifiers D) (io_now io 7) None (ComputeNullifier (dp_blst D) ep cls sig)
      (cs_store (srv_credentialService s))) = Inr True"
proof -
  have s: "p1_in_g1 (dp_blst D) sig" using L w by (simp add: sig blst_simps)
  have d: "decoded (dp_blst D) (hex_point (dp_blst D) sig) x \<longleftrightarrow> x = sig"
    "decoded (dp_blst D) (hex_point (dp_blst D) wit) x \<longleftrightarrow> x = wit" for x
    by (metis decoded_hex_point [OF L s] decoded_unique, metis decoded_hex_point [OF L w] decoded_unique)
  show ?thesis
    unfolding redemption_result_def Consume_accepted_store_iff [OF L] d
    using k cls sig by (auto simp: background_def)
qed

text \<open>
  C1: a credential from end to end. The client blinds a message, the server signs what it was
  sent, the client process is started again from its state file and unblinds the answer: it
  gets the signature of its message point under the key of epoch and class, the stored request
  is gone, and redeeming the signature over HTTP with a server that derives the same key, in a body
  within the limit and with class and epoch in UTF-8, returns true exactly when the server serves
  the request, supports the epoch, has no revocation in force and its nullifier store, whichever it
  is, answers that the nullifier is new.
\<close>

theorem client_end_to_end:
  fixes D :: "('p1, 'p2, 's, 'ml, 'e, 'n, 'r, 'l) deps"
  assumes L: "blst_laws (dp_blst D) V"
    and st: "st_filePath (ct_state c) = state_path (home_of x' cfg)" "requests_wf (st_Requests (ct_state c))"
    and eng: "ct_engine c = NewBLS12Engine (dp_blst D)"
    and blind: "Blind (dp_blst D) x rnd msg c fs = Gives (Inr res, c1, fs1)"
    and issue: "fst (Issue (dp_blst D) (dp_memguard D) rnd' ctx (hex_point (dp_blst D) (br_Blinded res)) cls
      (srv_credentialService s0)) = Inr ires"
    and received: "decoded (dp_blst D) (ir_BlindSignature ires) bsig" "ep = ir_KeyEpoch ires"
    and restart: "NewClient (dp_blst D) x' cfg fs1 = Inr c2" "os_read x' = None"
    and key: "service_key (dp_blst D) (dp_memguard D) ep cls (cs_config (srv_credentialService s)) =
      service_key (dp_blst D) (dp_memguard D) ep cls (cs_config (srv_credentialService s0))"
    and utf: "valid_utf8 cls" "valid_utf8 ep"
  shows "\<exists>sk sig c3 fs3. service_key (dp_blst D) (dp_memguard D) ep cls (cs_config (srv_credentialService s)) = Inr sk \<and>
    SignBlinded (dp_blst D) (br_Witness res) sk = Inr sig \<and>
    Unblind (dp_blst D) x'' (br_RequestID res) bsig c2 fs1 = Gives (Inr sig, c3, fs3) \<and>
    GetRequest (br_RequestID res) c3 = Inl ErrRequestNotFound \<and>
    (length (redeem_body (dp_blst D) sig (br_Witness res) cls ep) \<le> 2 ^ 20 \<longrightarrow>
      (fst (Redeem (dp_blst D) (transport D io (cc_ServerURL cfg) remote) je sig (br_Witness res) cls ep c3 s) = Inr True \<longleftrightarrow>
      (\<exists>i. redemption_served D io remote sig (br_Witness res) cls ep s i) \<and>
      ep \<noteq> '''' \<and> ep \<in> set (cf_SupportedEpochs (cs_config (srv_credentialService s))) \<and>
      not_revoked (dp_revocations D) (io_now io 6) cls ep (srv_credentialService s) \<and>
      fst (ns_CheckAndStore (dp_nullifiers D) (io_now io 7) None (ComputeNullifier (dp_blst D) ep cls sig)
        (cs_store (srv_credentialService s))) = Inr True))"
proof -
  let ?B = "dp_blst D" and ?w = "br_Witness res"
  obtain r where b: "br_Blinded res = p1_mult ?B ?w r" using Blind_ok [OF blind eng] by metis
  obtain sk bl where cl: "cls \<noteq> ''''" and bl: "decoded ?B (hex_point ?B (br_Blinded res)) bl"
    and k: "service_key ?B (dp_memguard D) ep cls (cs_config (srv_credentialService s)) = Inr sk"
    and bs: "bsig = p1_mult ?B bl sk"
    using Issue_signed [OF L issue received(1)] key unfolding received(2) by metis
  obtain dst where "br_Witness res = hash_to_g1 ?B (case msg of None \<Rightarrow> '''' | Some m \<Rightarrow> m) dst"
    using Blind_ok [OF blind eng] by metis
  then have w: "p1_in_g1 ?B ?w" using L by (simp add: hash_in_g1)
  then have "p1_in_g1 ?B (br_Blinded res)" using L b by (simp add: blst_simps)
  then have "bl = br_Blinded res" using decoded_unique [OF bl decoded_hex_point [OF L]] by blast
  then have sign: "SignBlinded ?B (br_Blinded res) sk = Inr bsig" using bs by (simp add: SignBlinded_def)
  let ?sig = "p1_mult ?B ?w sk"
  obtain c3 fs3 where u: "Unblind ?B x'' (br_RequestID res) bsig c2 fs1 = Gives (Inr ?sig, c3, fs3)"
    "GetRequest (br_RequestID res) c3 = Inl ErrRequestNotFound" "ct_serverURL c3 = cc_ServerURL cfg"
    using blind_restart_unblind [OF L st eng blind restart sign, of x''] NewClient_ok(2) [OF restart(1)] by auto
  have served: "fst (Redeem ?B (transport D io (cc_ServerURL cfg) remote) je ?sig ?w cls ep c3 s) = Inr True \<longleftrightarrow>
      (\<exists>i. redemption_served D io remote ?sig ?w cls ep s i) \<and>
      ep \<noteq> '''' \<and> ep \<in> set (cf_SupportedEpochs (cs_config (srv_credentialService s))) \<and>
      not_revoked (dp_revocations D) (io_now io 6) cls ep (srv_credentialService s) \<and>
      fst (ns_CheckAndStore (dp_nullifiers D) (io_now io 7) None (ComputeNullifier ?B ep cls ?sig)
        (cs_store (srv_credentialService s))) = Inr True"
    if "length (redeem_body ?B ?sig ?w cls ep) \<le> 2 ^ 20"
    using Redeem_true [OF u(3) utf that] signed_redemption [OF L k w refl cl] by blast
  then show ?thesis using u k by (auto simp: SignBlinded_def)
qed

subsection \<open>The sample client\<close>

definition sample_home :: client_config where
  "sample_home = \<lparr> cc_ServerURL = ''http://vault'', cc_DST = Some ''D'', cc_HomeDir = '''' \<rparr>"

definition sample_client :: "z3 client" where
  "sample_client = \<lparr> ct_serverURL = ''http://vault'', ct_dst = Some ''D'', ct_engine = NewBLS12Engine z3_blst,
     ct_state = \<lparr> st_filePath = state_path ''/home/u'', st_Requests = Some [] \<rparr> \<rparr>"

lemma sample_client_simps [simp]:
  "ct_serverURL sample_client = ''http://vault''" "ct_engine sample_client = NewBLS12Engine z3_blst"
  "ct_state sample_client = \<lparr> st_filePath = state_path ''/home/u'', st_Requests = Some [] \<rparr>"
  "ct_dst sample_client = Some ''D''"
  by (simp_all add: sample_client_def)

lemma sample_posted_body:
  "length (redeem_body z3_blst Z2 Z2 ''gold'' ''2026-01'') \<le> 2 ^ 20"
proof -
  have "length (json_escape (hex_encode (z3_enc 48 Z2))) = 96"
    by (simp only: json_escape_safe [OF hex_safe] length_z3_hex)
  then show ?thesis
    by (simp add: Marshal_def consume_request_json_def redeem_request_def json_object_def json_string_def
        json_escape_safe html_safe_def hex_of_def G1_Compress_def z3_ops)
qed

lemma sample_served: "redemption_served sample_deps sample_io a Z2 Z2 ''gold'' ''2026-01'' sample_server ''id''"
proof -
  have "redeem_request z3_blst Z2 Z2 ''gold'' ''2026-01'' = sample_consume"
    by (simp add: redeem_request_def hex_of_def G1_Compress_def z3_ops)
  then show ?thesis
    by (simp add: redemption_served_def sample_io_def rate_limited_def NewRateLimiter_def Allow_def sample_consume_valid)
qed

lemma sample_utf8: "valid_utf8 ''gold''" "valid_utf8 ''2026-01''"
  by (rule valid_utf8_ascii; simp)+

lemma sample_redemption: "accepted (redemption_result sample_deps sample_io Z2 Z2 ''gold'' ''2026-01'' sample_server i)"
  using signed_redemption [of sample_deps z3_dlog "''2026-01''" "''gold''" sample_server Z1 Z2 Z2] z3_blst_laws
    sample_key sample_admit [of 0]
  by (simp add: z3_ops consume_admit_None_iff NewInMemoryNullifierStore_def sample_io_def mem_check_iff)

theorem redeem_reports_witness:
  "fst (Redeem z3_blst (transport sample_deps sample_io ''http://vault'' ''8.8.8.8'') (os_json_error sample_os) Z2 Z2 ''gold'' ''2026-01''
     sample_client sample_server) = Inr True"
  using redeem_reports [of sample_client _ "''gold''" "''2026-01''" sample_deps Z2 Z2] sample_posted_body sample_served
    sample_redemption sample_utf8 by fastforce

lemma sample_blind:
  obtains res c1 fs1 c2 where "Blind z3_blst sample_os (Inr ''noise'') (Some ''ms'') sample_client Map.empty =
      Gives (Inr res, c1, fs1)"
    "br_Blinded res = Z2" "br_Witness res = Z2" "NewClient z3_blst sample_os sample_home fs1 = Inr c2"
proof -
  let ?reqs = "Some [(generateID sample_os, Some (pending_of z3_blst Z1 (Some ''ms'') Z2))]"
  let ?fs = "[state_path ''/home/u'' \<mapsto> MarshalIndent (requests_json ?reqs)] :: files"
  have r: "NewRandomScalar z3_blst (Inr ''noise'') = Inr Z1"
    by (simp add: NewRandomScalar_def z3_blst_def z3_hash_def randomScalarDST_def)
  have h: "HashToCurve (NewBLS12Engine z3_blst) ''ms'' (Some ''D'') = Inr Z2"
    by (simp add: HashToCurve_def NewBLS12Engine_def defaultHashToCurve_def z3_blst_def z3_hash_def)
  have "\<exists>c1. Blind z3_blst sample_os (Inr ''noise'') (Some ''ms'') sample_client Map.empty =
      Gives (Inr \<lparr> br_Blinded = Z2, br_Witness = Z2, br_RequestID = generateID sample_os \<rparr>, c1, ?fs)"
    by (simp add: Blind_def r h BlindMessage_def z3_ops state_Store_def state_save_def WriteFile_def Let_def pending_of_def)
  moreover have "\<exists>c2. NewClient z3_blst sample_os sample_home ?fs = Inr c2"
    using saved_file_decodes [of ?reqs]
    by (simp add: NewClient_def sample_home_def NewState_def NewStateWithDir_def state_load_def ReadFile_def state_path_def
        Let_def valid_generateID)
  ultimately show thesis using that by fastforce
qed

theorem client_end_to_end_witness:
  "\<exists>res c1 fs1 ires c2 sig c3 fs3.
     Blind z3_blst sample_os (Inr ''noise'') (Some ''ms'') sample_client Map.empty = Gives (Inr res, c1, fs1) \<and>
     fst (Issue z3_blst plain_memguard (Inr ''noise'') background (hex_point z3_blst (br_Blinded res)) ''gold''
       sample_service) = Inr ires \<and>
     NewClient z3_blst sample_os sample_home fs1 = Inr c2 \<and>
     Unblind z3_blst sample_os (br_RequestID res) Z2 c2 fs1 = Gives (Inr sig, c3, fs3) \<and>
     GetRequest (br_RequestID res) c3 = Inl ErrRequestNotFound \<and>
     fst (Redeem z3_blst (transport sample_deps sample_io ''http://vault'' ''8.8.8.8'') (os_json_error sample_os) sig (br_Witness res) ''gold''
       ''2026-01'' c3 sample_server) = Inr True"
proof -
  obtain res c1 fs1 c2 where b: "Blind z3_blst sample_os (Inr ''noise'') (Some ''ms'') sample_client Map.empty =
      Gives (Inr res, c1, fs1)" "br_Blinded res = Z2" "br_Witness res = Z2"
    and n: "NewClient z3_blst sample_os sample_home fs1 = Inr c2" by (rule sample_blind)
  obtain ires where i: "fst (Issue z3_blst plain_memguard (Inr ''noise'') background (hex_point z3_blst Z2) ''gold''
      sample_service) = Inr ires" "decoded z3_blst (ir_BlindSignature ires) Z2" "ir_KeyEpoch ires = ''2026-01''"
    by (rule sample_issued)
  have st: "st_filePath (ct_state sample_client) = state_path (home_of sample_os sample_home)"
    "requests_wf (st_Requests (ct_state sample_client))" by (simp_all add: home_of_def sample_home_def)
  have r: "cc_ServerURL sample_home = ''http://vault''" by (simp add: sample_home_def)
  have a: "\<exists>i. redemption_served sample_deps sample_io ''8.8.8.8'' Z2 Z2 ''gold'' ''2026-01'' sample_server i"
    using sample_served by blast
  have t: "''2026-01'' \<noteq> ''''" "''2026-01'' \<in> set (cf_SupportedEpochs (cs_config sample_service))"
    "not_revoked InMemoryRevocationStore 0 ''gold'' ''2026-01'' sample_service" "io_now sample_io 6 = 0"
    "nm_store (cs_store sample_service) k \<noteq> Some True" for k
    using sample_admit [of 0] by (simp_all add: consume_admit_None_iff NewInMemoryNullifierStore_def sample_io_def)
  obtain sig c3 fs3 where "Unblind z3_blst sample_os (br_RequestID res) Z2 c2 fs1 = Gives (Inr sig, c3, fs3)"
      "GetRequest (br_RequestID res) c3 = Inl ErrRequestNotFound" "sig = Z2"
      "fst (Redeem z3_blst (transport sample_deps sample_io ''http://vault'' ''8.8.8.8'') (os_json_error sample_os) Z2 Z2 ''gold''
       ''2026-01'' c3 sample_server) = Inr True"
    using client_end_to_end [of sample_deps z3_dlog sample_client sample_os sample_home sample_os "Inr ''noise''"
        "Some ''ms''" Map.empty res c1 fs1 "Inr ''noise''" background "''gold''" sample_server ires Z2 "''2026-01''" c2
        sample_server sample_os sample_io "''8.8.8.8''" "os_json_error sample_os"]
      z3_blst_laws st b n i sample_utf8 sample_posted_body a t sample_key
    by (auto simp: r SignBlinded_def z3_ops mem_check_iff)
  then show ?thesis using b i n by auto
qed

subsection \<open>Checking a proof on the command line\<close>

text \<open>The points and the proof that the flags of \<open>verify\<close> stand for.\<close>

definition verify_names :: "string list" where
  "verify_names = [''blinded'', ''signature'', ''public-key'', ''proof-r1'', ''proof-r2'', ''proof-s'', ''proof-c'']"

definition verify_inputs ::
    "('p1, 'p2, 's, 'ml) blst \<Rightarrow> string list \<Rightarrow> flags \<Rightarrow> ('p1, 'p2, 's) dleq_proof \<Rightarrow> 'p1 \<Rightarrow> 'p1 \<Rightarrow> 'p2 \<Rightarrow> bool" where
  "verify_inputs B args v pf blinded sig pk \<longleftrightarrow>
     flag_parse (verify_names @ [''dst'', ''server'']) (drop 2 args) Map.empty = Inr v \<and>
     (\<forall>n \<in> set verify_names. flag_value v n \<noteq> '''') \<and>
     decoded B (flag_value v ''blinded'') blinded \<and> decoded B (flag_value v ''signature'') sig \<and>
     decoded_G2 B (flag_value v ''public-key'') pk \<and>
     decoded_proof B \<lparr> ds_R1 = flag_value v ''proof-r1'', ds_R2 = flag_value v ''proof-r2'',
       ds_S = flag_value v ''proof-s'', ds_C = flag_value v ''proof-c'' \<rparr> pf"

lemma must_Inr: "must (Inr x) k w = k x"
  by (simp add: must_def)

lemma must_quiet:
  "(\<And>x. r = Inr x \<Longrightarrow> \<exists>code. fst (k x) = CliExit code '''') \<Longrightarrow> \<exists>code. fst (must r k w) = CliExit code ''''"
  by (cases r) (simp_all add: must_def)

text \<open>What \<open>verify\<close> does with inputs it could decode, and that it fails silently on all others.\<close>

lemma verifyCmd_decoded:
  assumes "verify_inputs B args v pf blinded sig pk"
  shows "verifyCmd B io args fs = (case NewClient B (ci_os io) (client_config_of v) fs of
      Inl err \<Rightarrow> CliPanic
    | Inr cli \<Rightarrow> if DLEQVerify B pf blinded sig pk then CliExit 0 (println ''DLEQ proof is valid'')
        else CliExit 1 (println ''DLEQ proof is invalid''))"
proof -
  have f: "flag_parse (verify_names @ [''dst'', ''server'']) (drop 2 args) Map.empty = Inr v"
    "\<not> (\<exists>n \<in> set verify_names. flag_value v n = '''')" using assms by (auto simp: verify_inputs_def)
  show ?thesis
    unfolding verifyCmd_def Let_def verify_names_def [symmetric] f sum.case if_not_P [OF f(2)]
    using assms by (cases pf) (auto simp: verify_inputs_def decoded_def decoded_G2_def decoded_proof_def
      decoded_scalar_def must_Inr VerifyProof_def split: sum.split)
qed

lemma verifyCmd_undecoded:
  assumes "\<nexists>v pf blinded sig pk. verify_inputs B args v pf blinded sig pk"
  shows "\<exists>code. verifyCmd B io args fs = CliExit code ''''"
proof (cases "flag_parse (verify_names @ [''dst'', ''server'']) (drop 2 args) Map.empty")
  case (Inl code)
  then show ?thesis by (auto simp: verifyCmd_def verify_names_def Let_def)
next
  case (Inr v)
  show ?thesis
  proof (cases "\<exists>n \<in> set verify_names. flag_value v n = ''''")
    case True
    then show ?thesis using Inr by (auto simp: verifyCmd_def verify_names_def Let_def)
  next
    case False
    have n: "\<not> (decoded B (flag_value v ''blinded'') blinded \<and> decoded B (flag_value v ''signature'') sig \<and>
      decoded_G2 B (flag_value v ''public-key'') pk \<and> decoded_G2 B (flag_value v ''proof-r1'') r1 \<and>
      decoded B (flag_value v ''proof-r2'') r2 \<and> decoded_scalar B (flag_value v ''proof-s'') s \<and>
      decoded_scalar B (flag_value v ''proof-c'') c)" for blinded sig pk r1 r2 s c
    proof
      assume "decoded B (flag_value v ''blinded'') blinded \<and> decoded B (flag_value v ''signature'') sig \<and>
        decoded_G2 B (flag_value v ''public-key'') pk \<and> decoded_G2 B (flag_value v ''proof-r1'') r1 \<and>
        decoded B (flag_value v ''proof-r2'') r2 \<and> decoded_scalar B (flag_value v ''proof-s'') s \<and>
        decoded_scalar B (flag_value v ''proof-c'') c"
      then have "verify_inputs B args v \<lparr> pf_R1 = r1, pf_R2 = r2, pf_S = s, pf_C = c \<rparr> blinded sig pk"
        using Inr False by (simp add: verify_inputs_def decoded_proof_def)
      then show False using assms by blast
    qed
    then show ?thesis
    proof -
      have "\<exists>n \<in> set verify_names. flag_value v n = '''' \<Longrightarrow> False" using False by blast
      then show ?thesis
        unfolding verifyCmd_def Let_def verify_names_def [symmetric] Inr sum.case if_not_P [OF False]
        by (intro must_quiet)
          (use n in \<open>unfold decoded_def decoded_G2_def decoded_scalar_def, blast\<close>)
    qed
  qed
qed

text \<open>
  C40: the command \<open>verify\<close>. It prints that a proof is valid exactly when its flags decode to
  points of the groups and scalars for which the proof's check succeeds and the client could
  be made; when the flags decode and the client cannot be made, for a state file that does not
  read for instance, the process panics whatever the proof is.
\<close>

theorem verify_command_exact:
  "(verifyCmd B io args fs = CliExit 0 (println ''DLEQ proof is valid'') \<longleftrightarrow>
     (\<exists>v pf blinded sig pk cli. verify_inputs B args v pf blinded sig pk \<and>
        NewClient B (ci_os io) (client_config_of v) fs = Inr cli \<and> DLEQVerify B pf blinded sig pk)) \<and>
   (verifyCmd B io args fs = CliPanic \<longleftrightarrow>
     (\<exists>v pf blinded sig pk err. verify_inputs B args v pf blinded sig pk \<and>
        NewClient B (ci_os io) (client_config_of v) fs = Inl err))"
proof (cases "\<exists>v pf blinded sig pk. verify_inputs B args v pf blinded sig pk")
  case True
  then obtain v pf blinded sig pk where i: "verify_inputs B args v pf blinded sig pk" by blast
  have u: "v' = v \<and> pf' = pf \<and> blinded' = blinded \<and> sig' = sig \<and> pk' = pk"
    if "verify_inputs B args v' pf' blinded' sig' pk'" for v' pf' blinded' sig' pk'
    using i that by (cases pf; cases pf')
      (auto simp: verify_inputs_def decoded_def decoded_G2_def decoded_proof_def decoded_scalar_def)
  have e: "(\<exists>v pf blinded sig pk x. verify_inputs B args v pf blinded sig pk \<and> P x v pf blinded sig pk) \<longleftrightarrow>
      (\<exists>x. P x v pf blinded sig pk)" for P :: "'x \<Rightarrow> _"
    using i u by metis
  show ?thesis
    unfolding e verifyCmd_decoded [OF i, of io fs] by (simp add: println_def split: sum.splits)
next
  case False
  then obtain code where "verifyCmd B io args fs = CliExit code ''''" using verifyCmd_undecoded by blast
  then show ?thesis using False by (auto simp: println_def)
qed

end
