(* ===== verification/EndToEnd.thy ===== *)
theory EndToEnd
  imports TestClient ClientProperties Replies
begin

section \<open>The end-to-end test against the server\<close>

text \<open>
  The test client of \<open>cmd/testclient\<close> run against the server of \<open>internal/api\<close>: three requests,
  one after the other, each with its own clock, randomness and request id. Under the conditions
  the test is meant for, it ends without a panic and prints its three lines. The theorem joins
  the token, the routes, the role check, both validations, the JSON of requests and responses,
  the cryptography and the store.
\<close>

subsection \<open>The transport and the token\<close>

text \<open>The \<open>n\<close>-th request is served with the \<open>n\<close>-th reading of the outside world.\<close>

definition sent :: "string \<Rightarrow> string \<Rightarrow> string \<Rightarrow> (string \<rightharpoonup> string) \<Rightarrow> bytes \<Rightarrow> request" where
  "sent base remote url headers body = (posted base remote url '''' body)\<lparr>rq_Header := headers\<rparr>"

definition test_transport ::
    "('p1, 'p2, 's, 'ml, 'e, 'n, 'r, 'l) deps \<Rightarrow> (nat \<Rightarrow> io) \<Rightarrow> string \<Rightarrow> string \<Rightarrow>
     (nat \<times> ('p1, 'e, 'n, 'r, 'l) server) http_post" where
  "test_transport D ios base remote url headers body = (\<lambda>(n, s).
     let (out, w, s) = ServeHTTP D (ios n) (sent base remote url headers body) fresh_writer s
     in ((case (out, sent_status w) of
            (Returned, Some code) \<Rightarrow> Inr (code, bw_body (base_of w))
          | (Returned, None) \<Rightarrow> Inr (200, bw_body (base_of w))
          | _ \<Rightarrow> Inl (Errorf ''EOF'')), Suc n, s))"

text \<open>
  The documented behaviour of the token library: a token it signed with HS256 is parsed back
  to its claims with the same key, before it expires, when no issuer or audience is asked for.
\<close>

definition jwt_sign_law :: "jwt_signer \<Rightarrow> jwt_parser \<Rightarrow> bytes \<Rightarrow> claims \<Rightarrow> bool" where
  "jwt_sign_law sign P key cl \<longleftrightarrow> (\<exists>tok. sign key cl = Inr tok \<and> (\<forall>opts kf now e.
     ''HS256'' \<in> set (jo_methods opts) \<and> kf HMAC ''HS256'' = Inr key \<and> cl_ExpiresAt cl = Some e \<and> now < e \<and>
     jo_issuer opts = None \<and> jo_audience opts = None \<longrightarrow> P opts kf now tok = Inr (True, cl)))"

lemma table_jwt_sign_law: "jwt_sign_law (\<lambda>key cl. Inr token) (table_jwt token key cl) key cl"
  by (auto simp: jwt_sign_law_def table_jwt_def)

lemma test_token_valid:
  assumes "jwt_sign_law sign P (jv_secret v) (test_claims now)" and "jv_issuer v = ''''" "jv_audience v = ''''"
    and "now' < (now + 3600 * second) div second * second"
  shows "JWT_Validate P v now' (generateJWT sign now (jv_secret v)) = Inr (test_claims now)"
proof -
  obtain tok where t: "sign (jv_secret v) (test_claims now) = Inr tok" and p: "\<And>opts kf now' e.
      ''HS256'' \<in> set (jo_methods opts) \<and> kf HMAC ''HS256'' = Inr (jv_secret v) \<and>
      cl_ExpiresAt (test_claims now) = Some e \<and> now' < e \<and> jo_issuer opts = None \<and> jo_audience opts = None \<Longrightarrow>
      P opts kf now' tok = Inr (True, test_claims now)"
    using assms(1) unfolding jwt_sign_law_def by meson
  have "P (jwt_options_of v) (keyfunc_of v) now' tok = Inr (True, test_claims now)"
    by (rule p) (use assms(2-4) in \<open>simp add: jwt_options_of_def keyfunc_of_def test_claims_def\<close>)
  moreover have "cl_Subject (test_claims now) \<noteq> ''''" by (simp add: test_claims_def)
  ultimately show ?thesis by (simp add: JWT_Validate_def generateJWT_def t)
qed

lemma test_authenticated:
  assumes "jwt_sign_law sign (dp_jwt D) (jv_secret (srv_jwtValidator s)) (test_claims now)" and "jv_issuer (srv_jwtValidator s) = ''''" "jv_audience (srv_jwtValidator s) = ''''"
    and "io_now io 4 < (now + 3600 * second) div second * second"
    and "Header_Get r ''Authorization'' = ''Bearer '' @ generateJWT sign now (jv_secret (srv_jwtValidator s))"
  shows "authenticate D io r s = Inr (test_claims now)"
  using test_token_valid [OF assms(1-4)] assms(5)
  by (simp add: authenticate_def EqualFold_def to_lower_def Let_def)

subsection \<open>Requests as the server reads them\<close>

lemma test_issue_decoded:
  assumes "valid_utf8 b" and "rq_Body r = Marshal (test_issue_json b)" and "length (rq_Body r) \<le> 2 ^ 20"
    and "rq_limit r \<in> {None, Some (2 ^ 20)}"
  shows "Decode e decode_issue r = Inr \<lparr> iq_BlindedMessage = b, iq_CredentialClass = ''e2e_test'' \<rparr>"
proof -
  let ?ms = "[(''blinded_message'', json_string b), (''credential_class'', json_string ''e2e_test'')]"
  have g: "\<forall>m \<in> set ?ms. good_json (snd m) \<and> json_depth (snd m) \<le> 0" by (simp add: good_json_string)
  have s: "struct_members [''blinded_message'', ''credential_class''] (map (\<lambda>(k, v). (json_escape k, v)) ?ms) = ?ms"
    by (rule struct_members_printed) simp
  have "decode_issue (map (\<lambda>(k, v). (json_escape k, v)) ?ms) = Some \<lparr> iq_BlindedMessage = b, iq_CredentialClass = ''e2e_test'' \<rparr>"
    unfolding decode_issue_def s using assms(1) by (simp add: json_string_def unquote_json_escape)
  then show ?thesis
    using Decode_printed [of r "map (\<lambda>(k, v). (json_escape k, v)) ?ms" e decode_issue] good_json_object [OF g] assms(2-4)
    by (simp add: test_issue_json_def json_object_def max_nesting_def)
qed

definition test_request :: "string \<Rightarrow> string \<Rightarrow> string \<Rightarrow> consume_request" where
  "test_request u w ep = \<lparr> cq_UnblindedSignature = u, cq_Witness = w, cq_CredentialClass = ''e2e_test'', cq_KeyEpoch = ep \<rparr>"

lemma test_consume_decoded:
  assumes "valid_utf8 u" "valid_utf8 w" "valid_utf8 ep"
    and "rq_Body r = Marshal (test_consume_json u w ep)" and "length (rq_Body r) \<le> 2 ^ 20"
    and "rq_limit r \<in> {None, Some (2 ^ 20)}"
  shows "Decode e decode_consume r = Inr (test_request u w ep)"
proof -
  let ?ms = "[(''credential_class'', json_string ''e2e_test''), (''key_epoch'', json_string ep),
      (''unblinded_signature'', json_string u), (''witness'', json_string w)]"
  have g: "\<forall>m \<in> set ?ms. good_json (snd m) \<and> json_depth (snd m) \<le> 0" by (simp add: good_json_string)
  have s: "struct_members [''unblinded_signature'', ''witness'', ''credential_class'', ''key_epoch'']
      (map (\<lambda>(k, v). (json_escape k, v)) ?ms) = ?ms"
    by (rule struct_members_printed) simp
  have "decode_consume (map (\<lambda>(k, v). (json_escape k, v)) ?ms) = Some (test_request u w ep)"
    unfolding decode_consume_def s test_request_def using assms(1-3) by (simp add: json_string_def unquote_json_escape)
  then show ?thesis
    using Decode_printed [of r "map (\<lambda>(k, v). (json_escape k, v)) ?ms" e decode_consume] good_json_object [OF g] assms(4-6)
    by (simp add: test_consume_json_def json_object_def max_nesting_def)
qed

text \<open>The response to the issuance as the client reads it.\<close>

lemma issue_response_read:
  assumes "valid_utf8 (ir_BlindSignature res)" "valid_utf8 (ir_PublicKey res)" "valid_utf8 (ir_KeyEpoch res)"
  shows "decode_test_issued (Marshal (issue_response_json res)) =
    Some \<lparr> ti_BlindSignature = ir_BlindSignature res, ti_PublicKey = ir_PublicKey res, ti_KeyEpoch = ir_KeyEpoch res \<rparr>"
proof -
  let ?p = "json_object [(''r1'', json_string (ds_R1 (ir_Proof res))), (''r2'', json_string (ds_R2 (ir_Proof res))),
    (''s'', json_string (ds_S (ir_Proof res))), (''c'', json_string (ds_C (ir_Proof res)))]"
  let ?ms = "[(''blind_signature'', json_string (ir_BlindSignature res)), (''public_key'', json_string (ir_PublicKey res)),
    (''key_epoch'', json_string (ir_KeyEpoch res)), (''proof'', ?p)]"
  have p: "good_json ?p \<and> json_depth ?p \<le> Suc 0" by (rule good_json_object) (simp add: good_json_string)
  have "good_json (json_object ?ms) \<and> json_depth (json_object ?ms) \<le> Suc (Suc 0)"
    by (rule good_json_object) (use p in \<open>simp add: good_json_string\<close>)
  then have "json_whole (Marshal (json_object ?ms)) = Some (json_object ?ms)"
    using Marshal_first [of "json_object ?ms" "[]"] by (simp add: json_whole_def max_nesting_def json_object_def)
  moreover have "json_escape ''proof'' = ''proof''" "json_escape ''blind_signature'' = ''blind_signature''"
    "json_escape ''public_key'' = ''public_key''" "json_escape ''key_epoch'' = ''key_epoch''"
    by (simp_all add: json_escape_safe html_safe_def)
  moreover have "unquote ''proof'' = ''proof''" "unquote ''blind_signature'' = ''blind_signature''"
    "unquote ''public_key'' = ''public_key''" "unquote ''key_epoch'' = ''key_epoch''"
    using calculation(2-5) unquote_json_escape [of "''proof''"] unquote_json_escape [of "''blind_signature''"]
      unquote_json_escape [of "''public_key''"] unquote_json_escape [of "''key_epoch''"] by simp_all
  moreover have "struct_field [''blind_signature'', ''public_key'', ''key_epoch''] ''proof'' = None"
    by (simp add: struct_field_def fold_name.simps to_lower_def)
  ultimately show ?thesis
    using assms
    by (simp add: decode_test_issued_def issue_response_json_def json_object_def struct_members_def struct_field_def
        List.map_filter_simps json_string_def unquote_json_escape)
qed

subsection \<open>What the server answers\<close>

text \<open>
  The limiter's turn for a request of the test, and whether it lets the next requests through,
  each with its own readings of the clock.
\<close>

definition limiter_turn ::
    "('p1, 'p2, 's, 'ml, 'e, 'n, 'r, 'l) deps \<Rightarrow> io \<Rightarrow> string \<Rightarrow> 'l rate_limiter \<Rightarrow> bool \<times> 'l rate_limiter" where
  "limiter_turn D io remote = Allow (dp_rate D) (io_order io) (io_now io 1) (io_now io 2) (io_now io 3)
     (case SplitHostPort remote of Some (host, _) \<Rightarrow> host | None \<Rightarrow> remote)"

fun lets_through ::
    "('p1, 'p2, 's, 'ml, 'e, 'n, 'r, 'l) deps \<Rightarrow> (nat \<Rightarrow> io) \<Rightarrow> string \<Rightarrow> nat \<Rightarrow> nat \<Rightarrow> 'l rate_limiter \<Rightarrow> bool" where
  "lets_through D ios remote n 0 lm \<longleftrightarrow> True"
| "lets_through D ios remote n (Suc m) lm \<longleftrightarrow> fst (limiter_turn D (ios n) remote lm) \<and>
     lets_through D ios remote (Suc n) m (snd (limiter_turn D (ios n) remote lm))"

lemma lets_through_unlimited: "lm_clients lm = None \<Longrightarrow> lets_through D ios remote n m lm"
  by (induction m arbitrary: n) (simp_all add: limiter_turn_def Allow_def)

text \<open>A server whose service agrees with a given one in all but metrics, and its limiter.\<close>

definition left_with ::
    "'l rate_limiter \<Rightarrow> ('p1, 'e, 'n, 'r) service \<Rightarrow> ('p1, 'e, 'n, 'r, 'l) server \<Rightarrow> bool" where
  "left_with lm svc s \<longleftrightarrow> srv_rateLimiter s = lm \<and> same_state (srv_credentialService s) svc"

lemma served_let_through:
  assumes "rate_limited D io r s = (True, s0)" and "io_uuid io = Some i" and "rq_ctx r = background"
    and "h io (inner_request (with_id i) r) (inner_writer i fresh_writer) s0 = (Returned, rw, s2)"
  shows "limited D h io r fresh_writer s = (Returned, embedded rw, recorded io r (Status rw) s2)"
proof -
  have id: "WithRequestID io (rq_ctx r) = Some (with_id i, i)" by (simp add: WithRequestID_def assms(2,3) background_def)
  show ?thesis
    by (cases rule: limited_cases [of io r D h fresh_writer s]) (use id assms(1,4) in auto)
qed

lemma sent_simps [simp]:
  "rq_Method (sent base remote url headers body) = ''POST''" "rq_Path (sent base remote (base @ path) headers body) = path"
  "rq_ctx (sent base remote url headers body) = background" "rq_Body (sent base remote url headers body) = body" "rq_Body (inner_request c r) = rq_Body r"
  "rq_limit (inner_request c (sent base remote url headers body)) = Some 1048576" "rq_ctx (inner_request c r) = c"
  "Header_Get (inner_request c (sent base remote url headers body)) k = (case headers k of None \<Rightarrow> '''' | Some v \<Rightarrow> v)"
  by (simp_all add: sent_def posted_def inner_request_def MaxBytesReader_def Header_Get_def)

lemma rate_limited_sent:
  "headers ''X-Forwarded-For'' = None \<Longrightarrow> rate_limited D io (sent base remote url headers body) s =
     (fst (limiter_turn D io remote (srv_rateLimiter s)), s\<lparr>srv_rateLimiter := snd (limiter_turn D io remote (srv_rateLimiter s))\<rparr>)"
  by (simp add: rate_limited_def limiter_turn_def client_ip_def sent_def posted_def Header_Get_def Let_def split_beta cong: option.case_cong)

lemma with_metrics_left:
  "left_with (srv_rateLimiter s) svc (recorded io r st (with_metrics f (set_service svc s)))"
  by (simp add: left_with_def same_state_def set_service_def with_metrics_def recorded_def)

lemma authenticate_limiter: "authenticate D io r (s\<lparr>srv_rateLimiter := lm\<rparr>) = authenticate D io r s"
  by (simp add: authenticate_def Let_def)

lemma issue_answered:
  fixes D :: "('p1, 'p2, 's, 'ml, 'e, 'n, 'r, 'l) deps"
  assumes r: "r = sent base remote (base @ ''/v1/credential/issue'') headers (Marshal (test_issue_json b))"
    and un: "headers ''X-Forwarded-For'' = None" "fst (limiter_turn D io remote (srv_rateLimiter s))" "io_uuid io = Some i"
    and body: "valid_utf8 b" "length (Marshal (test_issue_json b)) \<le> 2 ^ 20"
    and auth: "authenticate D io (inner_request (with_id i) r) s = Inr cl" "HasRole cl ''issuer''"
    and val: "ValidateIssueRequest (dp_validator D) (io_now io 5) \<lparr> iq_BlindedMessage = b, iq_CredentialClass = ''e2e_test'' \<rparr> = None"
    and iss: "Issue (dp_blst D) (dp_memguard D) (io_rand io) (WithClaims (with_id i) cl) b ''e2e_test'' (srv_credentialService s) =
      (Inr res, svc)"
  obtains w s' where "ServeHTTP D io r fresh_writer s = (Returned, w, s')" "sent_status w = Some 200"
    "bw_body (base_of w) = Marshal (issue_response_json res)" "left_with (snd (limiter_turn D io remote (srv_rateLimiter s))) svc s'"
proof -
  let ?t = "s\<lparr>srv_rateLimiter := snd (limiter_turn D io remote (srv_rateLimiter s))\<rparr>"
  have rl: "rate_limited D io r s = (True, ?t)" using un(1,2) by (simp add: r rate_limited_sent)
  let ?w = "respondJSON (inner_writer i fresh_writer) 200 (Some (issue_response_json res))"
    and ?s = "with_metrics (RecordIssuance ''success'' ''e2e_test'') (set_service svc ?t)"
  have d: "Decode e decode_issue (inner_request (with_id i) r) = Inr \<lparr> iq_BlindedMessage = b, iq_CredentialClass = ''e2e_test'' \<rparr>" for e
    by (rule test_issue_decoded [OF body(1)]) (use body(2) in \<open>simp_all add: r\<close>)
  have h: "RequireRole D ''issuer'' (handleIssue D) io (inner_request (with_id i) r) (inner_writer i fresh_writer) ?t = (Returned, ?w, ?s)"
    using auth(2) by (simp add: RequireRole_def authenticate_limiter auth(1) handleIssue_def d val iss Let_def)
  have "ServeHTTP D io r fresh_writer s = limited D (RequireRole D ''issuer'' (handleIssue D)) io r fresh_writer s"
    by (simp add: ServeHTTP_def routes_def method_matches_def r)
  then have S: "ServeHTTP D io r fresh_writer s = (Returned, embedded ?w, recorded io r (Status ?w) ?s)"
    using served_let_through [where h = "RequireRole D ''issuer'' (handleIssue D)", OF rl un(3) _ h] by (simp add: r)
  show thesis
    by (rule that [OF S]) (use with_metrics_left [of ?t] in \<open>simp_all add: respond_status_unwritten respondJSON_body\<close>)
qed

lemma consume_answered:
  fixes D :: "('p1, 'p2, 's, 'ml, 'e, 'n, 'r, 'l) deps"
  assumes r: "r = sent base remote (base @ ''/v1/credential/consume'') json_headers (Marshal (test_consume_json u w ep))"
    and un: "fst (limiter_turn D io remote (srv_rateLimiter s))" "io_uuid io = Some i"
    and body: "valid_utf8 u" "valid_utf8 w" "valid_utf8 ep" "length (Marshal (test_consume_json u w ep)) \<le> 2 ^ 20"
    and val: "ValidateConsumeRequest (dp_validator D) (io_now io 5) (test_request u w ep) = None"
    and con: "Consume (dp_blst D) (dp_memguard D) (dp_nullifiers D) (dp_revocations D) (io_now io 6) (io_now io 7)
      (with_id i) u w ''e2e_test'' ep (srv_credentialService s) = (Inr x, svc)" "cr_Status x \<in> {ConsumeAccepted, ConsumeDuplicate}"
  obtains wr s' where "ServeHTTP D io r fresh_writer s = (Returned, wr, s')"
    "sent_status wr = Some (if cr_Status x = ConsumeAccepted then 200 else 409)" "left_with (snd (limiter_turn D io remote (srv_rateLimiter s))) svc s'"
proof -
  let ?t = "s\<lparr>srv_rateLimiter := snd (limiter_turn D io remote (srv_rateLimiter s))\<rparr>"
  have rl: "rate_limited D io r s = (True, ?t)"
    using un(1) by (simp add: r rate_limited_sent json_headers_def)
  have d: "Decode e decode_consume (inner_request (with_id i) r) = Inr (test_request u w ep)" for e
    by (rule test_consume_decoded [OF body(1-3)]) (use body(4) in \<open>simp_all add: r\<close>)
  have t: "cq_UnblindedSignature (test_request u w ep) = u" "cq_Witness (test_request u w ep) = w"
    "cq_CredentialClass (test_request u w ep) = ''e2e_test''" "cq_KeyEpoch (test_request u w ep) = ep"
    by (simp_all add: test_request_def)
  obtain v f code where code: "code = (if cr_Status x = ConsumeAccepted then 200 else 409)"
    and h: "handleConsume D io (inner_request (with_id i) r) (inner_writer i fresh_writer) ?t =
      (Returned, respondJSON (inner_writer i fresh_writer) code (Some v), with_metrics f (set_service svc ?t))"
    using con(2) by (auto simp: handleConsume_def d t val con(1) Let_def)
  let ?w = "respondJSON (inner_writer i fresh_writer) code (Some v)"
  have "ServeHTTP D io r fresh_writer s = limited D (handleConsume D) io r fresh_writer s"
    by (rule ServeHTTP_consume) (simp_all add: r)
  then have S: "ServeHTTP D io r fresh_writer s =
      (Returned, embedded ?w, recorded io r (Status ?w) (with_metrics f (set_service svc ?t)))"
    using served_let_through [where h = "handleConsume D", OF rl un(2) _ h] by (simp add: r)
  show thesis
    by (rule that [OF S])
      (simp_all only: code [symmetric], use with_metrics_left [of ?t] in \<open>simp_all add: respond_status_unwritten\<close>)
qed

subsection \<open>The test passes\<close>

lemma transport_answers:
  assumes "ServeHTTP D (ios n) (sent base remote url headers body) fresh_writer s = (Returned, w, s')" and "sent_status w = Some code"
  shows "test_transport D ios base remote url headers body (n, s) = (Inr (code, bw_body (base_of w)), Suc n, s')"
  using assms by (simp add: test_transport_def)

lemma hex_prefix_whole: "hex_decode s = Inr bs \<Longrightarrow> hex_prefix s = bs"
  by (induction s arbitrary: bs rule: hex_decode.induct) (auto split: option.splits sum.splits if_splits)

lemma hex_text:
  assumes "blst_laws B D" and "p1_in_g1 B p"
  shows "hex48 (hex_of (G1_Compress B p))" "length (json_escape (hex_of (G1_Compress B p))) = 96"
    "DeserializeG1 B (hex_prefix (hex_of (G1_Compress B p))) = Inr p"
proof -
  obtain c where c: "G1_Compress B p = Some c" "length c = 48" "DeserializeG1 B c = Inr p"
    by (rule deserialize_compress_G1 [OF assms])
  have "hex_prefix (hex_encode c) = c" by (rule hex_prefix_whole) simp
  then show "hex48 (hex_of (G1_Compress B p))" "length (json_escape (hex_of (G1_Compress B p))) = 96"
    "DeserializeG1 B (hex_prefix (hex_of (G1_Compress B p))) = Inr p"
    using c by (simp_all add: hex48_def json_escape_safe hex_safe)
qed

lemma Epoch_text:
  assumes "Epoch ep"
  shows "valid_utf8 ep" "length (json_escape ep) = 7"
proof -
  have d: "html_safe c \<and> is_ascii c" if "is_digit c" for c
    using that by (auto simp: is_digit_def html_safe_def Let_def)
  have "\<forall>c \<in> set ep. is_digit c \<or> c = CHR ''-''" using assms by (auto simp: Epoch_iff list_all_iff)
  moreover have "html_safe CHR ''-'' \<and> is_ascii CHR ''-''" by (simp add: html_safe_def)
  ultimately have s: "\<forall>c \<in> set ep. html_safe c \<and> is_ascii c" using d by blast
  then show "valid_utf8 ep" "length (json_escape ep) = 7"
    using Epoch_excludes(4) [OF assms] by (simp_all add: valid_utf8_ascii json_escape_safe)
qed

lemma test_bodies_short:
  assumes "length (json_escape u) = 96" "length (json_escape w) = 96" "length (json_escape ep) = 7"
  shows "length (Marshal (test_issue_json u)) \<le> 2 ^ 20" "length (Marshal (test_consume_json u w ep)) \<le> 2 ^ 20"
  by (simp_all add: Marshal_def test_issue_json_def test_consume_json_def json_object_def json_string_def assms
      json_escape_safe html_safe_def)

lemma Class_e2e: "Class ''e2e_test''"
  by (simp add: Class_iff class_char_def is_letter_def is_digit_def Let_def)

text \<open>Steps 6 to 8 of the test with a pair signed under the server's key.\<close>

lemma test_consume_passes:
  fixes D :: "('p1, 'p2, 's, 'ml, 'e, 'n, 'r, 'l) deps"
  assumes L: "blst_laws (dp_blst D) V" and val: "validator_laws (dp_validator D)"
    and w: "p1_in_g1 (dp_blst D) wit" and sig: "sig = p1_mult (dp_blst D) wit sk"
    and un: "lets_through D ios remote n 2 (srv_rateLimiter s)" "io_uuid (ios n) \<noteq> None" "io_uuid (ios (Suc n)) \<noteq> None"
    and key: "service_key (dp_blst D) (dp_memguard D) ep ''e2e_test'' (cs_config (srv_credentialService s)) = Inr sk"
    and ep: "Epoch ep" "ep \<in> set (cf_SupportedEpochs (cs_config (srv_credentialService s)))"
    and rev: "not_revoked (dp_revocations D) (io_now (ios n) 6) ''e2e_test'' ep (srv_credentialService s)"
      "not_revoked (dp_revocations D) (io_now (ios (Suc n)) 6) ''e2e_test'' ep (srv_credentialService s)"
    and store: "ns_CheckAndStore (dp_nullifiers D) (io_now (ios n) 7) None (ComputeNullifier (dp_blst D) ep ''e2e_test'' sig)
        (cs_store (srv_credentialService s)) = (Inr True, st)"
      "fst (ns_CheckAndStore (dp_nullifiers D) (io_now (ios (Suc n)) 7) None (ComputeNullifier (dp_blst D) ep ''e2e_test'' sig) st) = Inr False"
  shows "\<exists>s'. test_consume (test_transport D ios base remote) base (Marshal (test_consume_json
      (hex_of (G1_Compress (dp_blst D) sig)) (hex_of (G1_Compress (dp_blst D) wit)) ep)) (n, s) = (TestDone test_output, n + 2, s')"
proof -
  let ?B = "dp_blst D" and ?M = "dp_memguard D" and ?R = "dp_revocations D"
  let ?u = "hex_of (G1_Compress ?B sig)" and ?w = "hex_of (G1_Compress ?B wit)"
  let ?C = "\<lambda>k i st. Consume ?B ?M (dp_nullifiers D) ?R (io_now (ios k) 6) (io_now (ios k) 7) (with_id i) ?u ?w ''e2e_test'' ep st"
  let ?lm = "snd (limiter_turn D (ios n) remote (srv_rateLimiter s))"
  have lets: "fst (limiter_turn D (ios n) remote (srv_rateLimiter s))" "fst (limiter_turn D (ios (Suc n)) remote ?lm)"
    using un(1) by (simp_all add: numeral_2_eq_2)
  obtain i j where i: "io_uuid (ios n) = Some i" and j: "io_uuid (ios (Suc n)) = Some j" using un(2,3) by blast
  have live: "cx_err (with_id k) m = None" for k m by (simp add: background_def)
  have s: "p1_in_g1 ?B sig" using L w by (simp add: sig blst_simps)
  have v: "ValidateConsumeRequest (dp_validator D) t (test_request ?u ?w ep) = None" for t
    using ep(1) hex_text(1) [OF L s] hex_text(1) [OF L w] Class_e2e by (simp add: ValidateConsumeRequest_ok [OF val] test_request_def)
  note short = test_bodies_short(2) [OF hex_text(2) [OF L s] hex_text(2) [OF L w] Epoch_text(2) [OF ep(1)]]
  note body = valid_hex_of valid_hex_of Epoch_text(1) [OF ep(1)] short
  obtain r1 svc1 where c1: "?C n i (srv_credentialService s) = (r1, svc1)" by fastforce
  have adm: "''e2e_test'' \<noteq> ''''" "ep \<noteq> ''''" using Epoch_excludes(1) [OF ep(1)] by simp_all
  note twice = redeemed_then_duplicate [OF L w sig key adm ep(2) rev live live
      store(1) [folded live [of i 1]] store(2) [folded live [of j 1]] c1 [folded hex_point_def], folded hex_point_def]
  obtain x where x: "r1 = Inr x" "cr_Status x = ConsumeAccepted" using twice(1) [OF refl refl refl] by blast
  let ?r = "sent base remote (base @ ''/v1/credential/consume'') json_headers (Marshal (test_consume_json ?u ?w ep))"
  have "cr_Status x \<in> {ConsumeAccepted, ConsumeDuplicate}" by (simp add: x)
  from consume_answered [OF refl [of ?r] lets(1) i body v c1 [unfolded x(1)] this]
  obtain w1 s1 where a1: "ServeHTTP D (ios n) ?r fresh_writer s = (Returned, w1, s1)" "sent_status w1 = Some 200"
    "left_with ?lm svc1 s1" unfolding x(2) by auto
  have s1: "fst (limiter_turn D (ios (Suc n)) remote (srv_rateLimiter s1))" "cs_store (srv_credentialService s1) = cs_store svc1"
    "cs_revocationStore (srv_credentialService s1) = cs_revocationStore svc1" "cs_config (srv_credentialService s1) = cs_config svc1"
    using a1(3) lets(2) by (simp_all add: left_with_def same_state_def)
  obtain y svc2 where c2: "?C (Suc n) j (srv_credentialService s1) = (Inr y, svc2)" "cr_Status y = ConsumeDuplicate"
    using twice(2) [OF s1(2-4)] by (metis prod.collapse hex_point_def)
  have "cr_Status y \<in> {ConsumeAccepted, ConsumeDuplicate}" by (simp add: c2(2))
  from consume_answered [OF refl [of ?r] s1(1) j body v c2(1) this]
  obtain w2 s2 where a2: "ServeHTTP D (ios (Suc n)) ?r fresh_writer s1 = (Returned, w2, s2)"
    "sent_status w2 = Some (if cr_Status y = ConsumeAccepted then 200 else 409)" by blast
  have "sent_status w2 = Some 409" using a2(2) c2(2) by simp
  note a2 = a2(1) this
  show ?thesis
    by (simp add: test_consume_def or_panic_def transport_answers [where ios = ios, OF a1(1,2)]
        transport_answers [where ios = ios, OF a2])
qed

text \<open>Steps 1 to 5: the credential is issued, read and unblinded.\<close>

lemma test_issue_passes:
  fixes D :: "('p1, 'p2, 's, 'ml, 'e, 'n, 'r, 'l) deps"
  assumes L: "blst_laws (dp_blst D) V" and val: "validator_laws (dp_validator D)"
    and auth: "authenticate D (ios n) (inner_request (with_id i) (sent base remote (base @ ''/v1/credential/issue'') headers
        (Marshal (test_issue_json (hex_of (G1_Compress (dp_blst D) b)))))) s = Inr cl" "HasRole cl ''issuer''" "cx_err (WithClaims (with_id i) cl) = (\<lambda>_. None)"
    and un: "headers ''X-Forwarded-For'' = None" "fst (limiter_turn D (ios n) remote (srv_rateLimiter s))" "io_uuid (ios n) = Some i"
    and ep: "ep = cf_ActiveEpoch (cs_config (srv_credentialService s))" "Epoch ep"
    and key: "service_key (dp_blst D) (dp_memguard D) ep ''e2e_test'' (cs_config (srv_credentialService s)) = Inr sk"
    and pf: "DLEQProve (dp_blst D) (io_rand (ios n)) sk b (PubKey (dp_blst D) sk) = Inr pf" and b: "p1_in_g1 (dp_blst D) b"
  obtains body s1 pkHex where "test_transport D ios base remote (base @ ''/v1/credential/issue'') headers
      (Marshal (test_issue_json (hex_of (G1_Compress (dp_blst D) b)))) (n, s) = (Inr (200, body), Suc n, s1)"
    "decode_test_issued body = Some \<lparr> ti_BlindSignature = hex_of (G1_Compress (dp_blst D) (p1_mult (dp_blst D) b sk)),
       ti_PublicKey = pkHex, ti_KeyEpoch = ep \<rparr>"
    "srv_rateLimiter s1 = snd (limiter_turn D (ios n) remote (srv_rateLimiter s))"
    "cs_store (srv_credentialService s1) = cs_store (srv_credentialService s)"
    "cs_revocationStore (srv_credentialService s1) = cs_revocationStore (srv_credentialService s)"
    "service_key (dp_blst D) (dp_memguard D) ep ''e2e_test'' (cs_config (srv_credentialService s1)) = Inr sk"
    "cf_SupportedEpochs (cs_config (srv_credentialService s1)) = cf_SupportedEpochs (cs_config (srv_credentialService s))"
proof -
  let ?B = "dp_blst D" and ?M = "dp_memguard D" and ?svc = "srv_credentialService s" and ?ctx = "WithClaims (with_id i) cl"
  let ?hex = "hex_of (G1_Compress ?B b)" and ?res = "serialize_issue ?B ep (p1_mult ?B b sk) (PubKey ?B sk) pf"
  let ?r = "sent base remote (base @ ''/v1/credential/issue'') headers (Marshal (test_issue_json ?hex))"
  have v: "ValidateIssueRequest (dp_validator D) t \<lparr> iq_BlindedMessage = ?hex, iq_CredentialClass = ''e2e_test'' \<rparr> = None" for t
    using hex_text(1) [OF L b] Class_e2e by (simp add: ValidateIssueRequest_ok [OF val])
  have "fst (Issue ?B ?M (io_rand (ios n)) ?ctx ?hex ''e2e_test'' ?svc) = Inr ?res"
    unfolding Issue_ok_iff using decoded_hex_of [OF L b] key pf auth(3) by (auto simp: ep(1) [symmetric])
  then obtain svc1 where iss: "Issue ?B ?M (io_rand (ios n)) ?ctx ?hex ''e2e_test'' ?svc = (Inr ?res, svc1)"
    by (metis prod.collapse)
  have short: "length (Marshal (test_issue_json ?hex)) \<le> 2 ^ 20"
    by (rule test_bodies_short(1) [OF hex_text(2) [OF L b] hex_text(2) [OF L b] Epoch_text(2) [OF ep(2)]])
  from issue_answered [OF refl [of ?r] un valid_hex_of short auth(1,2) v iss]
  obtain w0 s1 where a: "ServeHTTP D (ios n) ?r fresh_writer s = (Returned, w0, s1)" "sent_status w0 = Some 200"
    "bw_body (base_of w0) = Marshal (issue_response_json ?res)" "left_with (snd (limiter_turn D (ios n) remote (srv_rateLimiter s))) svc1 s1" by blast
  have read: "decode_test_issued (bw_body (base_of w0)) = Some \<lparr> ti_BlindSignature = hex_of (G1_Compress ?B (p1_mult ?B b sk)),
      ti_PublicKey = hex_of (G2_Compress ?B (PubKey ?B sk)), ti_KeyEpoch = ep \<rparr>"
    unfolding a(3) by (subst issue_response_read) (simp_all add: serialize_issue_def valid_hex_of Epoch_text(1) [OF ep(2)])
  note frame = Issue_frame [of ?B ?M "io_rand (ios n)" ?ctx ?hex "''e2e_test''" ?svc, unfolded iss]
    Issue_keeps(1) [of ?B ?M ep "''e2e_test''" "io_rand (ios n)" ?ctx ?hex "''e2e_test''" ?svc, unfolded iss]
    Issue_keeps(2) [of ?B ?M "io_rand (ios n)" ?ctx ?hex "''e2e_test''" ?svc, unfolded iss]
  show thesis
    by (rule that [OF transport_answers [where ios = ios, OF a(1,2)] read])
      (use a(4) frame key in \<open>simp_all add: left_with_def same_state_def\<close>)
qed

text \<open>
  C2: the end-to-end test passes. The server derives keys from its seed, supports its active
  epoch and has not revoked the class, lets three requests of the client through its rate limiter,
  has a validator without issuer and
  audience, as \<open>NewServer\<close> builds it, and knows the secret the client signs its token with; the
  clock of the token check is before the token's expiry, the randomness of both sides is usable
  and request ids are drawn. Its nullifier store, whichever it is, answers the first redemption
  that the nullifier is new, and after that the second one that it was seen: the in-memory store
  does for a nullifier it does not hold, Redis only while the record
  lives. Then the test client does not panic: the issuance is answered 200, the redemption 200 and its repetition 409, and it prints its three
  lines after exactly three requests.
\<close>

theorem end_to_end_test_passes:
  fixes D :: "('p1, 'p2, 's, 'ml, 'e, 'n, 'r, 'l) deps"
  assumes L: "blst_laws (dp_blst D) V" and val: "validator_laws (dp_validator D)"
    and jwt: "jwt_sign_law sign (dp_jwt D) (test_secret getenv) (test_claims now)" "jv_secret (srv_jwtValidator s) = test_secret getenv"
      "jv_issuer (srv_jwtValidator s) = ''''" "jv_audience (srv_jwtValidator s) = ''''"
      "io_now (ios 0) 4 < (now + 3600 * second) div second * second"
    and un: "lets_through D ios remote 0 3 (srv_rateLimiter s)" "\<forall>n < 3. io_uuid (ios n) \<noteq> None"
    and svc: "svc = srv_credentialService s" "ep = cf_ActiveEpoch (cs_config svc)" "Epoch ep" "ep \<in> set (cf_SupportedEpochs (cs_config svc))"
    and key: "service_key (dp_blst D) (dp_memguard D) ep ''e2e_test'' (cs_config svc) = Inr sk"
    and point: "wit = hash_to_g1 (dp_blst D) ''docker-e2e-test'' ''BCIS-V1-MESSAGE''"
    and rnd: "NewRandomScalar (dp_blst D) rnd = Inr r"
      "DLEQProve (dp_blst D) (io_rand (ios 0)) sk (p1_mult (dp_blst D) wit r) (PubKey (dp_blst D) sk) = Inr pf"
    and rev: "not_revoked (dp_revocations D) (io_now (ios 1) 6) ''e2e_test'' ep svc"
      "not_revoked (dp_revocations D) (io_now (ios 2) 6) ''e2e_test'' ep svc"
    and store: "k = ComputeNullifier (dp_blst D) ep ''e2e_test'' (p1_mult (dp_blst D) wit sk)"
      "ns_CheckAndStore (dp_nullifiers D) (io_now (ios 1) 7) None k (cs_store svc) = (Inr True, st)"
      "fst (ns_CheckAndStore (dp_nullifiers D) (io_now (ios 2) 7) None k st) = Inr False"
  shows "\<exists>s'. test_main (dp_blst D) sign (test_transport D ios (test_base getenv) remote) getenv rnd now (0, s) =
    (TestDone test_output, 3, s')"
proof -
  let ?B = "dp_blst D" and ?base = "test_base getenv" and ?sig = "p1_mult (dp_blst D) wit sk"
  let ?headers = "json_headers(''Authorization'' \<mapsto> ''Bearer '' @ generateJWT sign now (test_secret getenv))"
  have w: "p1_in_g1 ?B wit" using L by (simp add: point hash_in_g1)
  then have b: "p1_in_g1 ?B (p1_mult ?B wit r)" "p1_in_g1 ?B (p1_mult ?B (p1_mult ?B wit r) sk)" using L by (simp_all add: blst_simps)
  have lets: "fst (limiter_turn D (ios 0) remote (srv_rateLimiter s))"
    "lets_through D ios remote 1 2 (snd (limiter_turn D (ios 0) remote (srv_rateLimiter s)))"
    using un(1) by (simp_all add: numeral_3_eq_3 numeral_2_eq_2)
  obtain i where i: "io_uuid (ios 0) = Some i" using un(2) by fastforce
  have auth: "authenticate D (ios 0) (inner_request (with_id i) (sent ?base remote url ?headers body)) s = Inr (test_claims now)" for url body
    by (rule test_authenticated [OF jwt(1) [folded jwt(2)] jwt(3-5)]) (simp add: jwt(2))
  have role: "HasRole (test_claims now) ''issuer''" "cx_err (WithClaims (with_id i) (test_claims now)) = (\<lambda>_. None)"
    by (simp_all add: HasRole_def test_claims_def background_def)
  obtain body s1 pkHex where a: "test_transport D ios ?base remote (?base @ ''/v1/credential/issue'') ?headers
      (Marshal (test_issue_json (hex_of (G1_Compress ?B (p1_mult ?B wit r))))) (0, s) = (Inr (200, body), Suc 0, s1)"
    and read: "decode_test_issued body = Some \<lparr> ti_BlindSignature = hex_of (G1_Compress ?B (p1_mult ?B (p1_mult ?B wit r) sk)),
       ti_PublicKey = pkHex, ti_KeyEpoch = ep \<rparr>"
    and s1: "srv_rateLimiter s1 = snd (limiter_turn D (ios 0) remote (srv_rateLimiter s))" "cs_store (srv_credentialService s1) = cs_store (srv_credentialService s)"
      "cs_revocationStore (srv_credentialService s1) = cs_revocationStore (srv_credentialService s)"
      "service_key ?B (dp_memguard D) ep ''e2e_test'' (cs_config (srv_credentialService s1)) = Inr sk"
      "cf_SupportedEpochs (cs_config (srv_credentialService s1)) = cf_SupportedEpochs (cs_config (srv_credentialService s))"
    by (rule test_issue_passes [where ios = ios and n = 0 and base = ?base, OF L val auth role _ lets(1) i svc(2,3) [unfolded svc(1)] key [unfolded svc(1)] rnd(2) b(1)])
      (simp_all add: json_headers_def)
  note s1 = s1 [folded svc(1)]
  have "lets_through D ios remote 1 2 (srv_rateLimiter s1)" using lets(2) by (simp add: s1(1))
  note s1 = this s1(2-)
  have unblind: "UnblindSignature ?B (p1_mult ?B (p1_mult ?B wit r) sk) r = Inr ?sig"
    using mult_inverse_cancel [OF L w NewRandomScalar_nonzero [OF L rnd(1)]] by (simp add: UnblindSignature_def)
  have "\<exists>s'. test_consume (test_transport D ios ?base remote) ?base (Marshal (test_consume_json (hex_of (G1_Compress ?B ?sig))
      (hex_of (G1_Compress ?B wit)) ep)) (1, s1) = (TestDone test_output, 1 + 2, s')"
    by (rule test_consume_passes [OF L val w refl s1(1) _ _ s1(4) svc(3)])
      (use un(2) svc(4) s1 rev store not_revoked_cong [OF s1(3)] in \<open>simp_all add: numeral_2_eq_2 [symmetric]\<close>)
  then show ?thesis
    using a by (simp add: test_main_def or_panic_def HashToCurve_def NewBLS12Engine_def defaultHashToCurve_def
        point [symmetric] rnd(1) BlindMessage_def read hex_text(3) [OF L b(2)] unblind Let_def numeral_3_eq_3)
qed

subsection \<open>A run on the sample server\<close>

definition test_deps :: "(z3, z3, z3, z3, bytes, nullifier_mem, revocation_mem, int) deps" where
  "test_deps = sample_deps\<lparr>dp_jwt := table_jwt ''tok'' ''super-secret-token'' (test_claims 0)\<rparr>"

definition test_server :: "(z3, bytes, nullifier_mem, revocation_mem, int) server" where
  "test_server = sample_server\<lparr>srv_jwtValidator :=
     NewJWTValidator \<lparr> vc_Secret = ''super-secret-token'', vc_Issuer = '''', vc_Audience = '''' \<rparr>,
     srv_rateLimiter := NewRateLimiter 60 5 100\<rparr>"

lemma test_sample_simps [simp]:
  "dp_validator test_deps = reference_validator" "dp_revocations test_deps = InMemoryRevocationStore"
  "dp_nullifiers test_deps = InMemoryNullifierStore" "dp_blst test_deps = z3_blst"
  "dp_memguard test_deps = plain_memguard" "dp_jwt test_deps = table_jwt ''tok'' ''super-secret-token'' (test_claims 0)"
  "srv_rateLimiter test_server = NewRateLimiter 60 5 100" "srv_credentialService test_server = sample_service"
  "jv_secret (srv_jwtValidator test_server) = ''super-secret-token''" "jv_issuer (srv_jwtValidator test_server) = ''''"
  "jv_audience (srv_jwtValidator test_server) = ''''" "io_now sample_io n = 0" "io_uuid sample_io = Some ''id''"
  "io_rand sample_io = Inr ''noise''"
  by (simp_all add: test_deps_def test_server_def NewJWTValidator_def sample_io_def)

lemma sample_lets_through: "lets_through test_deps (\<lambda>_. sample_io) ''8.8.8.8'' 0 3 (NewRateLimiter 60 5 100)"
proof -
  have "dp_rate test_deps = counting_buckets" by (simp add: test_deps_def sample_deps_def)
  moreover have "SplitHostPort ''8.8.8.8'' = None" "strip_port ''8.8.8.8'' = ''8.8.8.8''"
    by (simp_all add: SplitHostPort_no_colon strip_port_def)
  ultimately show ?thesis
    by (simp add: numeral_3_eq_3 limiter_turn_def Allow_def NewRateLimiter_def counting_buckets_def Let_def)
qed

theorem end_to_end_test_passes_witness:
  "\<exists>s'. test_main z3_blst (\<lambda>key cl. Inr ''tok'') (test_transport test_deps (\<lambda>_. sample_io) ''http://localhost:8080'' ''8.8.8.8'')
     (\<lambda>_. '''') (Inr ''noise'') 0 (0, test_server) = (TestDone test_output, 3, s')"
proof -
  have jwt: "jwt_sign_law (\<lambda>key cl. Inr ''tok'') (dp_jwt test_deps) (test_secret (\<lambda>_. '''')) (test_claims 0)"
    using table_jwt_sign_law by (simp add: test_secret_def)
  have key: "service_key z3_blst plain_memguard ''2026-01'' ''e2e_test'' (cs_config sample_service) = Inr Z1"
    by (rule z3_service_key) simp_all
  have h: "Z1 = hash_to_g1 z3_blst ''docker-e2e-test'' ''BCIS-V1-MESSAGE''" by (simp add: z3_blst_def z3_hash_def)
  have r: "NewRandomScalar z3_blst (Inr ''noise'') = Inr Z1"
    by (simp add: NewRandomScalar_def z3_blst_def z3_hash_def randomScalarDST_def)
  obtain pf where pf: "DLEQProve z3_blst (Inr ''noise'') Z1 Z1 (PubKey z3_blst Z1) = Inr pf"
    by (simp add: DLEQProve_def NewRandomScalar_def computeChallenge_def z3_blst_def z3_hash_def
        randomScalarDST_def dleqProofDst_def z3_mul_def z3_add_def z3_of_def z3_enc_def PubKey_def)
  have n: "not_revoked InMemoryRevocationStore 0 ''e2e_test'' ''2026-01'' sample_service"
    by (simp add: not_revoked_def InMemoryRevocationStore_def mem_IsRevoked_def NewInMemoryRevocationStore_def)
  have ep: "Epoch ''2026-01''" by (simp add: Epoch_def ReEpoch_def is_digit_def Let_def upt_rec)
  have "\<exists>s'. test_main (dp_blst test_deps) (\<lambda>key cl. Inr ''tok'') (test_transport test_deps (\<lambda>_. sample_io) (test_base (\<lambda>_. '''')) ''8.8.8.8'')
     (\<lambda>_. '''') (Inr ''noise'') 0 (0, test_server) = (TestDone test_output, 3, s')"
    by (rule end_to_end_test_passes [where V = z3_dlog and svc = sample_service and ep = "''2026-01''" and sk = Z1 and wit = Z1 and r = Z1
          and pf = pf
          and k = "ComputeNullifier z3_blst ''2026-01'' ''e2e_test'' Z1"
          and st = "NewInMemoryNullifierStore\<lparr>nm_store := (nm_store NewInMemoryNullifierStore)(ComputeNullifier z3_blst ''2026-01'' ''e2e_test'' Z1 \<mapsto> True)\<rparr>"])
      (use jwt key h r pf n ep sample_lets_through z3_blst_laws reference_validator_laws in
        \<open>simp_all add: test_secret_def z3_ops NewInMemoryNullifierStore_def mem_CheckAndStore_def\<close>)
  then show ?thesis by (simp add: test_base_def)
qed

end
