(* ===== verification/Startup.thy ===== *)
theory Startup
  imports Middleware
begin

section \<open>Starting the server (cmd/server)\<close>

text \<open>
  \<open>main\<close> from its three flags to the exit code: the optional file of environment variables,
  the YAML configuration, the overrides, the master seed, the validation, the server, and the
  wait for a signal or a failure of the listener. Reading the two files is the work of their
  libraries, as arguments; so is what happens to the server while it runs. The log lines are in
  \<open>StartLog\<close>.
\<close>

text \<open>
  The world of one start: \<open>sw_stat\<close> is \<open>os.Stat\<close>, \<open>sw_dotenv\<close> the loader of environment
  files, with its override flag, \<open>sw_yaml\<close> the YAML decoder into a configuration. Both may
  change what they work on before they fail.
\<close>

record 'e startup =
  sw_stat :: "string \<Rightarrow> goerr option"
  sw_readFile :: "string \<Rightarrow> bytes result"
  sw_env :: env
  sw_dotenv :: "bool \<Rightarrow> string \<Rightarrow> env \<Rightarrow> goerr option \<times> env"
  sw_yaml :: "bytes \<Rightarrow> 'e config \<Rightarrow> goerr option \<times> 'e config"

text \<open>\<open>&service.Config{}\<close>: the defaults its tags name are not applied.\<close>

definition zero_config :: "'e config" where
  "zero_config = \<lparr> cf_Mode = '''', cf_MasterSeedEnclave = None, cf_MasterSeedHex = '''', cf_MasterSeedSource = '''',
     cf_ListenAddr = '''', cf_ActiveEpoch = '''', cf_SupportedEpochs = [], cf_DST = '''', cf_AuthSecret = '''',
     cf_JWTIssuer = '''', cf_JWTAudience = '''', cf_RedisAddr = '''', cf_RedisPassword = '''', cf_RedisDB = 0,
     cf_RedisExpiration = 0, cf_RevocationRedisAddr = '''', cf_RevocationRedisPassword = '''',
     cf_RevocationRedisDB = 0, cf_RateLimitBurst = 0, cf_RateLimit = 0, cf_MaxClients = 0,
     cf_UseMemoryStore = False, cf_UseDemo = False \<rparr>"

definition loadEnvFile :: "'e startup \<Rightarrow> string \<Rightarrow> bool \<Rightarrow> env \<Rightarrow> goerr option \<times> env" where
  "loadEnvFile W path override getenv = (case sw_stat W path of
       Some err \<Rightarrow> (Some (Wrapf (''stat '' @ Quote path) err), getenv)
     | None \<Rightarrow> if override then sw_dotenv W True path getenv else sw_dotenv W False path getenv)"

definition loadYAMLConfig :: "'e startup \<Rightarrow> string \<Rightarrow> 'e config \<Rightarrow> goerr option \<times> 'e config" where
  "loadYAMLConfig W path cfg = (case sw_readFile W path of
       Inl err \<Rightarrow> (Some err, cfg)
     | Inr data \<Rightarrow> sw_yaml W data cfg)"

text \<open>The steps of \<open>run\<close> up to a validated configuration.\<close>

definition configure ::
    "'e memguard \<Rightarrow> 'e startup \<Rightarrow> string \<Rightarrow> string \<Rightarrow> bool \<Rightarrow> 'e config result" where
  "configure M W configPath envFile envOverride =
     (let (envErr, getenv) = (if envFile \<noteq> '''' then loadEnvFile W envFile envOverride (sw_env W)
                              else (None, sw_env W))
      in case envErr of
        Some err \<Rightarrow> Inl (Wrapf ''load env file'' err)
      | None \<Rightarrow>
        let cfg = zero_config;
            (yamlErr, cfg) = (case sw_stat W configPath of
                Some err \<Rightarrow> (None, cfg)
              | None \<Rightarrow> loadYAMLConfig W configPath cfg)
        in (case yamlErr of
          Some err \<Rightarrow> Inl (Wrapf ''load config'' err)
        | None \<Rightarrow>
          let cfg = ApplyEnvOverrides getenv cfg;
              (seedErr, cfg) = LoadMasterSeed M getenv (sw_readFile W) cfg
          in (case seedErr of
            Some err \<Rightarrow> Inl (Wrapf ''load master seed'' err)
          | None \<Rightarrow>
            let (invalid, cfg) = Validate cfg
            in (case invalid of Some err \<Rightarrow> Inl err | None \<Rightarrow> Inr cfg))))"

text \<open>
  \<open>serve\<close> is the life of the server until the select: the state it reaches, and the error of
  \<open>Start\<close>, or \<open>None\<close> when a signal came first. \<open>stop\<close> is the shutdown of the listener.
\<close>

definition run_server ::
    "('p1, 'p2, 's, 'ml, 'e, 'c any_nullifier, 'c any_revocation, 'l) deps \<Rightarrow>
     (string \<Rightarrow> string \<Rightarrow> int \<Rightarrow> 'c result) \<Rightarrow> collector \<Rightarrow> 'e startup \<Rightarrow>
     (('p1, 'e, 'c any_nullifier, 'c any_revocation, 'l) server \<Rightarrow>
        goerr option \<times> ('p1, 'e, 'c any_nullifier, 'c any_revocation, 'l) server) \<Rightarrow>
     (http_server \<Rightarrow> goerr option) \<Rightarrow> string \<Rightarrow> string \<Rightarrow> bool \<Rightarrow>
     goerr option \<times> ('p1, 'e, 'c any_nullifier, 'c any_revocation, 'l) server option" where
  "run_server D dial metricsReporter W serve stop configPath envFile envOverride =
     (case configure (dp_memguard D) W configPath envFile envOverride of
        Inl err \<Rightarrow> (Some err, None)
      | Inr cfg \<Rightarrow> (case NewServer (dp_blst D) dial metricsReporter cfg of
          Inl err \<Rightarrow> (Some (Wrapf ''build server'' err), None)
        | Inr server \<Rightarrow>
          let (failure, server) = serve server
          in (case failure of
                Some err \<Rightarrow> (Some (Wrapf ''server error'' err), Some server)
              | None \<Rightarrow> Shutdown D stop (Some server))))"

text \<open>The exit code of \<open>main\<close>.\<close>

definition server_main :: "goerr option \<times> 'a \<Rightarrow> nat" where
  "server_main r = (if fst r \<noteq> None then 1 else 0)"

subsection \<open>What a started server is\<close>

lemma LoadMasterSeed_sealed:
  assumes "memguard_laws M" and "LoadMasterSeed M getenv readFile c = (None, c')"
  shows "\<exists>e raw. cf_MasterSeedEnclave c' = Some e \<and> Enclave_Open M e = Inr raw \<and> length raw = 32"
    and "cf_MasterSeedHex c' = ''''"
proof -
  obtain hex src where s: "seal_seed M hex (c\<lparr>cf_MasterSeedSource := src\<rparr>) = (None, c')"
    using assms(2) by (fastforce simp: LoadMasterSeed_def split: if_splits sum.splits)
  show "\<exists>e raw. cf_MasterSeedEnclave c' = Some e \<and> Enclave_Open M e = Inr raw \<and> length raw = 32"
    "cf_MasterSeedHex c' = ''''"
    using seal_seed_ok [OF assms(1) s] by blast+
qed

lemma validated_seed [simp]:
  "cf_MasterSeedHex (validated c) = cf_MasterSeedHex c"
  by (simp add: validated_def epochs_of_def Let_def)

lemma configure_cases:
  assumes "configure M W configPath envFile envOverride = Inr cfg"
  obtains getenv c0 c where "LoadMasterSeed M getenv (sw_readFile W) c0 = (None, c)" "config_ok c" "cfg = validated c"
  using assms that
  by (auto simp: configure_def Let_def Validate_None_iff [symmetric] Validate_snd [symmetric]
      split: option.splits prod.splits if_splits)

text \<open>
  C17: what a start enforces. A configuration that \<open>run\<close> goes on with holds a sealed seed of
  32 bytes and no text of it, a known mode, and an active epoch that is supported; in
  production the server built from it runs without demo routes on Redis stores with a
  positive expiry and a positive cap on clients, behind a secret of at least 32 bytes.
\<close>

theorem startup_enforces_policy:
  fixes B :: "('p1, 'p2, 's, 'ml) blst" and dial :: "string \<Rightarrow> string \<Rightarrow> int \<Rightarrow> 'c result"
  assumes "memguard_laws M" and "configure M W configPath envFile envOverride = Inr cfg"
    and "NewServer B dial rep cfg = Inr s"
  shows "(\<exists>e raw. cf_MasterSeedEnclave cfg = Some e \<and> Enclave_Open M e = Inr raw \<and> length raw = 32) \<and>
    cf_MasterSeedHex cfg = '''' \<and> cf_Mode cfg \<in> {ModeDevelopment, ModeTest, ModeProduction} \<and>
    cf_ActiveEpoch cfg \<in> set (cf_SupportedEpochs cfg) \<and> distinct (cf_SupportedEpochs cfg) \<and>
    (cf_Mode cfg = ModeProduction \<longrightarrow> srv_demoStore s = None \<and> 32 \<le> length (jv_secret (srv_jwtValidator s)) \<and>
       cf_MasterSeedSource cfg \<noteq> SecretSourceInline \<and> 0 < cf_MaxClients cfg \<and>
       (\<exists>st rev. cs_store (srv_credentialService s) = Inr st \<and> 0 < rn_expiration st \<and>
          cs_revocationStore (srv_credentialService s) = Some (Inr rev)))"
proof -
  obtain getenv c0 c where c: "LoadMasterSeed M getenv (sw_readFile W) c0 = (None, c)" "config_ok c" "cfg = validated c"
    using configure_cases [OF assms(2)] .
  have ok: "config_ok cfg" using c by (simp add: config_ok_validated)
  note seed = LoadMasterSeed_sealed [OF assms(1) c(1)]
  have "cf_MasterSeedEnclave cfg = cf_MasterSeedEnclave c" "cf_MasterSeedHex cfg = ''''"
    "set (cf_SupportedEpochs cfg) = set (epochs_of cfg)" "distinct (cf_SupportedEpochs cfg) = distinct (epochs_of cfg)"
    using c seed by simp_all
  moreover have "srv_demoStore s = None \<and> jv_secret (srv_jwtValidator s) = cf_AuthSecret cfg \<and>
      (\<exists>st rev. cs_store (srv_credentialService s) = Inr st \<and> rn_expiration st = cf_RedisExpiration cfg \<and>
          cs_revocationStore (srv_credentialService s) = Some (Inr rev))" if "production_ok cfg"
    using that assms(3)
    by (auto simp: production_ok_def NewServer_def new_stores_def NewJWTValidator_def NewCredentialService_def
        NewRedisNullifierStoreWithClient_def Let_def split: sum.splits if_splits)
  ultimately show ?thesis
    using ok seed by (auto simp: config_ok_def Mode_IsValid_def production_ok_def)
qed

text \<open>A start in production, with the seed and the secrets in the environment.\<close>

definition sample_startup :: "bytes startup" where
  "sample_startup = \<lparr> sw_stat = (\<lambda>_. Some (Errorf ''no file'')), sw_readFile = (\<lambda>_. Inl (Errorf ''no file'')),
     sw_env = (\<lambda>_. '''')(''BLINDVAULT_MODE'' := ModeProduction, ''ACTIVE_EPOCH'' := ''2026-01'',
       ''AUTH_SECRET'' := replicate 32 CHR ''s'', ''JWT_ISSUER'' := ''iss'', ''JWT_AUDIENCE'' := ''aud'',
       ''REDIS_ADDR'' := ''db:6379'', ''REDIS_EXPIRATION'' := ''60'', ''MAX_CLIENTS'' := ''9'',
       ''BLINDVAULT_MASTER_SEED_HEX'' := hex_encode (replicate 32 CHR ''k'')),
     sw_dotenv = (\<lambda>_ _ g. (None, g)), sw_yaml = (\<lambda>_ c. (None, c)) \<rparr>"

definition sample_env :: env where
  "sample_env = sw_env sample_startup"

lemma sample_env_simps:
  "sample_env ''BLINDVAULT_MODE'' = ModeProduction" "sample_env ''ACTIVE_EPOCH'' = ''2026-01''"
  "sample_env ''AUTH_SECRET'' = replicate 32 CHR ''s''" "sample_env ''JWT_ISSUER'' = ''iss''"
  "sample_env ''JWT_AUDIENCE'' = ''aud''" "sample_env ''REDIS_ADDR'' = ''db:6379''"
  "sample_env ''REDIS_EXPIRATION'' = ''60''" "sample_env ''MAX_CLIENTS'' = ''9''"
  "sample_env ''BLINDVAULT_MASTER_SEED_HEX'' = hex_encode (replicate 32 CHR ''k'')"
  "sample_env ''SUPPORTED_EPOCHS'' = ''''" "sample_env ''DST'' = ''''" "sample_env ''LISTEN_ADDR'' = ''''"
  "sample_env ''REDIS_PASSWORD'' = ''''" "sample_env ''REDIS_DB'' = ''''" "sample_env ''REVOCATION_REDIS_ADDR'' = ''''"
  "sample_env ''REVOCATION_REDIS_PASSWORD'' = ''''" "sample_env ''REVOCATION_REDIS_DB'' = ''''"
  "sample_env ''RATE_LIMIT_BURST'' = ''''" "sample_env ''RATE_LIMIT_REQUESTS'' = ''''"
  "sample_env ''USE_MEMORY_STORE'' = ''''" "sample_env ''USE_DEMO'' = ''''"
  by (simp_all add: sample_env_def sample_startup_def)

lemma sample_atoi: "Atoi ''60'' = Some 60" "Atoi ''9'' = Some 9"
  by (simp_all add: Atoi_def digit_val_def)

lemma sample_seed: "seal_seed plain_memguard (hex_encode (replicate 32 CHR ''k'')) c =
    (None, c\<lparr>cf_MasterSeedEnclave := Some (replicate 32 CHR ''k''), cf_MasterSeedHex := ''''\<rparr>)"
  by (simp add: seal_seed_def NewEnclaveFromBytes_def plain_memguard_def)

lemma sample_epoch: "Epoch ''2026-01''"
  by (simp add: Epoch_def ReEpoch_def is_digit_def upt_rec)

definition sample_production :: "bytes config" where
  "sample_production = zero_config\<lparr>cf_Mode := ModeProduction, cf_ActiveEpoch := ''2026-01'',
     cf_AuthSecret := replicate 32 CHR ''s'', cf_JWTIssuer := ''iss'', cf_JWTAudience := ''aud'',
     cf_RedisAddr := ''db:6379'', cf_RedisExpiration := 60, cf_MaxClients := 9,
     cf_MasterSeedSource := SecretSourceEnv, cf_MasterSeedEnclave := Some (replicate 32 CHR ''k'')\<rparr>"

lemma sample_overrides:
  "ApplyEnvOverrides sample_env zero_config = zero_config\<lparr>cf_Mode := ModeProduction, cf_ActiveEpoch := ''2026-01'',
     cf_AuthSecret := replicate 32 CHR ''s'', cf_JWTIssuer := ''iss'', cf_JWTAudience := ''aud'',
     cf_RedisAddr := ''db:6379'', cf_RedisExpiration := 60, cf_MaxClients := 9\<rparr>"
  by (simp add: ApplyEnvOverrides_def env_string_def env_int_def env_bool_def sample_env_simps sample_atoi
      ModeProduction_def zero_config_def Let_def)

lemma sample_configure:
  "configure plain_memguard sample_startup ''c.yaml'' '''' False = Inr (validated sample_production)"
proof -
  have "LoadMasterSeed plain_memguard sample_env (sw_readFile sample_startup) (ApplyEnvOverrides sample_env zero_config) =
      (None, sample_production)"
    by (simp add: LoadMasterSeed_def sample_env_simps sample_overrides sample_seed)
      (simp add: sample_production_def zero_config_def)
  moreover have "config_ok sample_production"
    by (simp add: config_ok_def sample_production_def sample_epoch production_ok_def epochs_of_def Mode_IsValid_def
        SecretSourceEnv_def SecretSourceInline_def zero_config_def)
  then have "Validate sample_production = (None, validated sample_production)"
    using Validate_None_iff Validate_snd by (metis prod.collapse)
  ultimately show ?thesis
    by (simp add: configure_def sample_env_def [symmetric] sample_startup_def [THEN arg_cong, of sw_stat])
qed

lemma sample_server_built:
  "\<exists>s :: ('p1, 'e, 'c any_nullifier, 'c any_revocation, 'l) server.
     NewServer B (\<lambda>_ _ _. Inr c) rep cfg = Inr s"
  by (cases "cf_RevocationRedisAddr cfg = []"; cases "cf_UseMemoryStore cfg") (simp_all add: NewServer_def new_stores_def Let_def)

theorem startup_enforces_policy_witness:
  "\<exists>cfg s. configure plain_memguard sample_startup ''c.yaml'' '''' False = Inr cfg \<and>
     NewServer z3_blst (\<lambda>_ _ _. Inr (Map.empty :: db)) [] cfg = Inr (s :: (_, _, _, _, int) server) \<and>
     srv_demoStore s = None \<and> (\<exists>st. cs_store (srv_credentialService s) = Inr st \<and> 0 < rn_expiration st)"
proof -
  let ?dial = "\<lambda>(_ :: string) (_ :: string) (_ :: int). Inr (Map.empty :: db) :: db result"
  obtain s :: "(z3, bytes, db any_nullifier, db any_revocation, int) server"
    where s: "NewServer z3_blst ?dial [] (validated sample_production) = Inr s"
    by (rule exE [OF sample_server_built])
  show ?thesis
    using startup_enforces_policy [OF plain_memguard_laws sample_configure s] sample_configure s
    by (auto simp: sample_production_def)
qed

text \<open>
  C39: a lifetime read in the wrong unit. The Redis expiry of the configuration is a number of
  seconds; the server counts it in nanoseconds, so that a nullifier that was accepted is
  accepted again once that many nanoseconds have passed, and at least a millisecond.
\<close>

theorem configured_expiry_misread:
  fixes dial :: "string \<Rightarrow> string \<Rightarrow> int \<Rightarrow> 'c result"
  assumes "redis_laws R V" and "redis_available R V"
    and "\<not> cf_UseMemoryStore cfg" and "0 < cf_RedisExpiration cfg"
    and "NewServer B dial rep cfg = Inr s"
    and "ns_CheckAndStore (either_nullifier InMemoryNullifierStore (RedisNullifierStore R)) t None k
       (cs_store (srv_credentialService s)) = (Inr True, store)"
    and "t + max millisecond (cf_RedisExpiration cfg) \<le> t'"
  shows "fst (ns_CheckAndStore (either_nullifier InMemoryNullifierStore (RedisNullifierStore R)) t' None k store) =
    Inr True"
proof -
  obtain st where st: "cs_store (srv_credentialService s) = Inr st" "rn_expiration st = cf_RedisExpiration cfg"
    using assms(3,5) by (auto simp: NewServer_def new_stores_def NewCredentialService_def
        NewRedisNullifierStoreWithClient_def Let_def split: sum.splits if_splits)
  obtain st' where c: "redis_CheckAndStore R t None k st = (Inr True, st')" "store = Inr st'"
    using assms(6) st(1)
    by (cases "redis_CheckAndStore R t None k st") (auto simp: either_nullifier_def RedisNullifierStore_def)
  have "redis_ttl (cf_RedisExpiration cfg) \<le> max millisecond (cf_RedisExpiration cfg)"
    using pos_mod_sign [of millisecond "cf_RedisExpiration cfg"]
    by (simp add: redis_ttl_def minus_mod_eq_div_mult [symmetric] max_def)
  then have "\<not> before t' (redis_deadline t (rn_expiration st))"
    using assms(4,7) st(2) by (simp add: redis_deadline_def)
  from redis_nullifier_reaccepted [OF assms(1,2) _ c(1) this] st(2) assms(4) c(2)
  show ?thesis by (simp add: either_nullifier_def RedisNullifierStore_def)
qed

theorem configured_expiry_misread_witness:
  "\<exists>s store. NewServer z3_blst (\<lambda>_ _ _. Inr (Map.empty :: db)) [] (sample_production\<lparr>cf_RedisExpiration := 2592000\<rparr>) =
       Inr (s :: (_, _, _, _, int) server) \<and>
     ns_CheckAndStore (either_nullifier InMemoryNullifierStore (RedisNullifierStore mem_redis)) 0 None ''n''
       (cs_store (srv_credentialService s)) = (Inr True, store) \<and>
     fst (ns_CheckAndStore (either_nullifier InMemoryNullifierStore (RedisNullifierStore mem_redis))
       (3 * millisecond) None ''n'' store) = Inr True"
proof -
  let ?cfg = "sample_production\<lparr>cf_RedisExpiration := 2592000\<rparr>"
  let ?N = "either_nullifier InMemoryNullifierStore (RedisNullifierStore mem_redis)"
  obtain s :: "(z3, bytes, db any_nullifier, db any_revocation, int) server"
    where s: "NewServer z3_blst (\<lambda>_ _ _. Inr (Map.empty :: db)) [] ?cfg = Inr s"
    by (rule exE [OF sample_server_built])
  have m: "\<not> cf_UseMemoryStore ?cfg" by (simp add: sample_production_def zero_config_def)
  have "cs_store (srv_credentialService s) = Inr (NewRedisNullifierStoreWithClient Map.empty 2592000)"
    using s m by (auto simp: NewServer_def new_stores_def NewCredentialService_def Let_def split: sum.splits if_splits)
  then have "\<exists>store. ns_CheckAndStore ?N 0 None ''n'' (cs_store (srv_credentialService s)) = (Inr True, store)"
    by (simp add: either_nullifier_def RedisNullifierStore_def redis_CheckAndStore_def mem_redis_def live_def
        NewRedisNullifierStoreWithClient_def Let_def)
  then obtain store where c: "ns_CheckAndStore ?N 0 None ''n'' (cs_store (srv_credentialService s)) = (Inr True, store)" ..
  have "fst (ns_CheckAndStore ?N (3 * millisecond) None ''n'' store) = Inr True"
    by (rule configured_expiry_misread [OF mem_redis_laws mem_redis_available m _ s c]) simp_all
  then show ?thesis using s c by blast
qed

text \<open>
  Issuer and audience are not enforced. The configured issuer and audience, which
  production demands, make no difference to the server that is built, beyond its record of
  the configuration: it validates tokens the same with any others.
\<close>

lemma issuer_audience_unused:
  "map_sum id (\<lambda>s. JWT_Validate J (srv_jwtValidator s) now tok)
     (NewServer B dial rep (cfg\<lparr>cf_JWTIssuer := iss, cf_JWTAudience := aud\<rparr>)) =
   map_sum id (\<lambda>s. JWT_Validate J (srv_jwtValidator s) now tok) (NewServer B dial rep cfg)"
  by (simp add: NewServer_def new_stores_def Let_def split: sum.splits)

end
