(* ===== verification/Connect.thy ===== *)
theory Connect
  imports Middleware
begin

section \<open>Connecting to Redis (internal/storage: redis.go and the constructors of the Redis stores)\<close>

text \<open>
  The three functions that make a client and ping the server before anything uses it. Making a
  client of given options is the library's, an argument; it does not connect. \<open>NewServer\<close> gets
  its clients from \<open>NewRedisClient\<close>, so a server on Redis is made only when every Redis server
  it will use has answered.
\<close>

text \<open>An option that is not set has its zero value, for which the library has a default.\<close>

record redis_options =
  ro_Addr :: string
  ro_Password :: string
  ro_DB :: int
  ro_MaxRetries :: int
  ro_MinRetryBackoff :: duration
  ro_MaxRetryBackoff :: duration

definition NewRedisClient ::
    "(redis_options \<Rightarrow> 'c) \<Rightarrow> 'c redis \<Rightarrow> instant \<Rightarrow> string \<Rightarrow> string \<Rightarrow> int \<Rightarrow> 'c result" where
  "NewRedisClient newClient R now addr password db =
     (let client = newClient \<lparr> ro_Addr = addr, ro_Password = password, ro_DB = db, ro_MaxRetries = 3,
            ro_MinRetryBackoff = 100 * millisecond, ro_MaxRetryBackoff = 2 * second \<rparr>
      in (case rd_ping R now None client of
            Some err \<Rightarrow> Inl err
          | None \<Rightarrow> Inr client))"

definition NewRedisNullifierStore ::
    "(redis_options \<Rightarrow> 'c) \<Rightarrow> 'c redis \<Rightarrow> instant \<Rightarrow> string \<Rightarrow> string \<Rightarrow> int \<Rightarrow> duration \<Rightarrow> 'c redis_nullifier result" where
  "NewRedisNullifierStore newClient R now addr password db expiration =
     (let client = newClient \<lparr> ro_Addr = addr, ro_Password = password, ro_DB = db, ro_MaxRetries = 0,
            ro_MinRetryBackoff = 0, ro_MaxRetryBackoff = 0 \<rparr>
      in (case rd_ping R now None client of
            Some err \<Rightarrow> Inl err
          | None \<Rightarrow> Inr \<lparr> rn_client = client, rn_expiration = expiration \<rparr>))"

definition NewRevocationStore ::
    "(redis_options \<Rightarrow> 'c) \<Rightarrow> 'c redis \<Rightarrow> instant \<Rightarrow> string \<Rightarrow> string \<Rightarrow> int \<Rightarrow> 'c result" where
  "NewRevocationStore newClient R now addr password db =
     (let client = newClient \<lparr> ro_Addr = addr, ro_Password = password, ro_DB = db, ro_MaxRetries = 0,
            ro_MinRetryBackoff = 0, ro_MaxRetryBackoff = 0 \<rparr>
      in (case rd_ping R now None client of
            Some err \<Rightarrow> Inl err
          | None \<Rightarrow> Inr client))"

text \<open>A client that is returned is one whose server has answered.\<close>

lemma NewRedisClient_answered:
  assumes "NewRedisClient newClient R now addr password db = Inr c"
  shows "rd_ping R now None c = None"
  using assms by (auto simp: NewRedisClient_def Let_def split: option.splits)

text \<open>The server starts exactly when the Redis servers it is configured for answer.\<close>

lemma server_needs_redis:
  fixes B :: "('p1, 'p2, 's, 'ml) blst" and R :: "'c redis"
  shows "(\<exists>s :: ('p1, 'e, 'c any_nullifier, 'c any_revocation, 'l) server.
      NewServer B (NewRedisClient newClient R now) rep cfg = Inr s) \<longleftrightarrow>
    cf_UseMemoryStore cfg \<or>
    (\<exists>c. NewRedisClient newClient R now (cf_RedisAddr cfg) (cf_RedisPassword cfg) (cf_RedisDB cfg) = Inr c) \<and>
    (cf_RevocationRedisAddr cfg = '''' \<or> (\<exists>c. NewRedisClient newClient R now (cf_RevocationRedisAddr cfg)
        (cf_RevocationRedisPassword cfg) (cf_RevocationRedisDB cfg) = Inr c))"
  by (auto simp: NewServer_def new_stores_def Let_def split: sum.splits)

end
