(* ===== verification/Registry.thy ===== *)
theory Registry
  imports Metrics
begin

section \<open>Registered metrics (internal/api: metrics.go)\<close>

text \<open>
  The vectors of a collector, their registration, and the singleton behind \<open>GetMetrics\<close>. The
  registry is the Prometheus library's: registering is an argument, and \<open>registry_law\<close> says
  that a name that is not taken can be registered. \<open>WithLabelValues\<close> of the library panics when
  the number of values is not the number of labels the vector was made with, so the lemmas on
  \<open>calls_wf\<close> show that no record method panics.
\<close>

datatype metric_kind = CounterVec | HistogramVec

record metric_vec =
  mv_Kind :: metric_kind
  mv_Name :: string
  mv_Help :: string
  mv_Labels :: "string list"

definition NewCounterVec :: "string \<Rightarrow> string \<Rightarrow> string list \<Rightarrow> metric_vec" where
  "NewCounterVec name help labels =
     \<lparr> mv_Kind = CounterVec, mv_Name = name, mv_Help = help, mv_Labels = labels \<rparr>"

text \<open>The vectors of \<open>NewMetricsCollector\<close>, in the order it registers them.\<close>

definition collector_vecs :: "metric_vec list" where
  "collector_vecs =
     [NewCounterVec ''blindvault_http_requests_total'' ''Total number of HTTP requests'' [''method'', ''path'', ''status''],
      \<lparr> mv_Kind = HistogramVec, mv_Name = ''blindvault_http_request_duration_seconds'',
        mv_Help = ''HTTP request duration in seconds'', mv_Labels = [''method'', ''path''] \<rparr>,
      NewCounterVec ''blindvault_credential_issuance_total'' ''Total number of credential issuance requests''
        [''result'', ''credential_class''],
      NewCounterVec ''blindvault_credential_consumption_total'' ''Total number of credential consumption requests''
        [''result'', ''credential_class'', ''epoch''],
      NewCounterVec ''blindvault_nullifier_store_operations_total'' ''Total number of nullifier store operations''
        [''operation'', ''result''],
      NewCounterVec ''blindvault_revocation_operations_total'' ''Total number of revocation operations''
        [''result'', ''credential_class''],
      NewCounterVec ''blindvault_unrevocation_operations_total'' ''Total number of Unrevocation operations''
        [''result'', ''credential_class'']]"

subsection \<open>Registration and the singleton\<close>

text \<open>
  \<open>MustRegister\<close> of the library is documented as registering its arguments in order and panicking
  on the first that is refused; the ones before stay registered.
\<close>

fun MustRegister :: "(metric_vec \<Rightarrow> 'g \<Rightarrow> 'g option) \<Rightarrow> metric_vec list \<Rightarrow> 'g \<Rightarrow> bool \<times> 'g" where
  "MustRegister register [] g = (True, g)"
| "MustRegister register (v # vs) g = (case register v g of
       None \<Rightarrow> (False, g)
     | Some g \<Rightarrow> MustRegister register vs g)"

definition CreateMetricsCollector :: "(metric_vec \<Rightarrow> 'g \<Rightarrow> 'g option) \<Rightarrow> 'g \<Rightarrow> collector option \<times> 'g" where
  "CreateMetricsCollector register g =
     (let (ok, g) = MustRegister register collector_vecs g
      in (if ok then Some NewMetricsCollector else None, g))"

text \<open>
  \<open>metricsOnce\<close> and \<open>globalMetrics\<close>. A function that panics counts as done for \<open>sync.Once\<close>, so
  the panic is seen once and the later calls return nil.
\<close>

record global_metrics =
  gm_done :: bool
  gm_global :: "collector option"

datatype metrics_call = MetricsPanic | MetricsValue "collector option"

definition GetMetrics ::
    "(metric_vec \<Rightarrow> 'g \<Rightarrow> 'g option) \<Rightarrow> global_metrics \<Rightarrow> 'g \<Rightarrow> metrics_call \<times> global_metrics \<times> 'g" where
  "GetMetrics register s g =
     (if gm_done s then (MetricsValue (gm_global s), s, g)
      else (case CreateMetricsCollector register g of
          (None, g) \<Rightarrow> (MetricsPanic, s\<lparr>gm_done := True\<rparr>, g)
        | (Some m, g) \<Rightarrow> (MetricsValue (Some m), s\<lparr>gm_done := True, gm_global := Some m\<rparr>, g)))"

text \<open>The documented behaviour of the registry, over the set of names it has.\<close>

definition registry_law :: "(metric_vec \<Rightarrow> 'g \<Rightarrow> 'g option) \<Rightarrow> ('g \<Rightarrow> string set) \<Rightarrow> bool" where
  "registry_law register names \<longleftrightarrow> (\<forall>v g. mv_Name v \<notin> names g \<longrightarrow>
     (\<exists>g'. register v g = Some g' \<and> names g' = insert (mv_Name v) (names g)))"

lemma registry_law_instance: "registry_law (\<lambda>v g. if mv_Name v \<in> g then None else Some (insert (mv_Name v) g)) id"
  by (simp add: registry_law_def)

lemma MustRegister_ok:
  assumes "registry_law register names"
  shows "distinct (map mv_Name vs) \<Longrightarrow> \<forall>v \<in> set vs. mv_Name v \<notin> names g \<Longrightarrow>
    \<exists>g'. MustRegister register vs g = (True, g') \<and> names g' = names g \<union> mv_Name ` set vs"
proof (induction vs arbitrary: g)
  case (Cons v vs)
  then have "mv_Name v \<notin> names g" by simp
  then obtain g1 where g1: "register v g = Some g1" "names g1 = insert (mv_Name v) (names g)"
    using assms unfolding registry_law_def by blast
  have "mv_Name v \<notin> mv_Name ` set vs" using Cons.prems(1) by simp
  then have "\<forall>w \<in> set vs. mv_Name w \<notin> names g1" using Cons.prems(2) g1(2) by (metis image_eqI insert_iff list.set_intros(2))
  with Cons.IH [of g1] Cons.prems(1) obtain g' where "MustRegister register vs g1 = (True, g')"
    "names g' = names g1 \<union> mv_Name ` set vs" by auto
  then show ?case using g1 by (auto intro!: exI [of _ g'])
qed simp

lemma collector_vecs_distinct: "distinct (map mv_Name collector_vecs)"
  by (simp add: collector_vecs_def NewCounterVec_def)

text \<open>
  On a registry without the collector's names the first call registers them and returns the
  collector; every later call returns the same one and registers nothing.
\<close>

lemma GetMetrics_once:
  assumes "registry_law register names" and "\<not> gm_done s" and "\<forall>v \<in> set collector_vecs. mv_Name v \<notin> names g"
  shows "\<exists>s' g'. GetMetrics register s g = (MetricsValue (Some NewMetricsCollector), s', g') \<and>
    names g' = names g \<union> mv_Name ` set collector_vecs \<and>
    GetMetrics register s' g' = (MetricsValue (Some NewMetricsCollector), s', g')"
proof -
  obtain g' where g': "MustRegister register collector_vecs g = (True, g')" "names g' = names g \<union> mv_Name ` set collector_vecs"
    using MustRegister_ok [OF assms(1) collector_vecs_distinct assms(3)] by blast
  let ?s = "s\<lparr>gm_done := True, gm_global := Some NewMetricsCollector\<rparr>"
  have "GetMetrics register s g = (MetricsValue (Some NewMetricsCollector), ?s, g')"
    using assms(2) g'(1) by (simp add: GetMetrics_def CreateMetricsCollector_def)
  moreover have "GetMetrics register ?s g' = (MetricsValue (Some NewMetricsCollector), ?s, g')"
    by (simp add: GetMetrics_def)
  ultimately show ?thesis using g'(2) by blast
qed

subsection \<open>No record method panics\<close>

text \<open>A call names a registered vector of its kind and gives one value for each of its labels.\<close>

fun call_wf :: "prom_call \<Rightarrow> bool" where
  "call_wf (CounterInc n ls) \<longleftrightarrow>
     (\<exists>v \<in> set collector_vecs. mv_Kind v = CounterVec \<and> mv_Name v = n \<and> length (mv_Labels v) = length ls)"
| "call_wf (HistogramObserve n ls d) \<longleftrightarrow>
     (\<exists>v \<in> set collector_vecs. mv_Kind v = HistogramVec \<and> mv_Name v = n \<and> length (mv_Labels v) = length ls)"

definition calls_wf :: "collector \<Rightarrow> bool" where
  "calls_wf m \<longleftrightarrow> (\<forall>c \<in> set m. call_wf c)"

lemma record_methods_wf:
  assumes "calls_wf m"
  shows "calls_wf (RecordHTTPRequest httpMethod path status dur m)" "calls_wf (RecordIssuance r cls m)"
    "calls_wf (RecordConsumption r cls ep m)" "calls_wf (RecordNullifierStore op r m)"
    "calls_wf (RecordRevocation r cls m)" "calls_wf (RecordUnrevocation r cls m)"
  using assms
  by (simp_all add: calls_wf_def RecordHTTPRequest_def RecordIssuance_def RecordConsumption_def RecordNullifierStore_def
      RecordRevocation_def RecordUnrevocation_def collector_vecs_def NewCounterVec_def)

lemma NewMetricsCollector_wf: "calls_wf NewMetricsCollector"
  by (simp add: calls_wf_def NewMetricsCollector_def)

end
