(* ===== verification/ServerRuns.thy ===== *)
theory ServerRuns
  imports ApiSamples Registry
begin

section \<open>Invariants of a running server\<close>

text \<open>
  What stays true of a server whatever requests it serves. A predicate on the server that every
  handler, the limiter and the recording of a request keep is kept by \<open>ServeHTTP\<close> and by any
  run; the locale \<open>server_invariant\<close> is that contract. Its interpretations show that no call on
  the metrics gives the wrong number of labels, which would panic, and that the signing keys and
  the supported epochs never change, although the configuration is written when the seed is
  first sealed.
\<close>

abbreviation all_handlers ::
    "('p1, 'p2, 's, 'ml, 'e, 'n, 'r, 'l) deps \<Rightarrow> ('p1, 'e, 'n, 'r, 'l) server handler set" where
  "all_handlers D \<equiv> {handleIssue D, handleConsume D, handleAdminRevoke D, handleAdminUnrevoke D,
     handleAdminListRevocations D, handleHealth D, handleStoreCredential D, handleRetrieveCredential D}"

locale server_invariant =
  fixes D :: "('p1, 'p2, 's, 'ml, 'e, 'n, 'r, 'l) deps" and P :: "('p1, 'e, 'n, 'r, 'l) server \<Rightarrow> bool"
  assumes handlers: "h \<in> all_handlers D \<Longrightarrow> P s \<Longrightarrow> P (snd (snd (h io r w s)))"
    and limiter: "P s \<Longrightarrow> P (s\<lparr>srv_rateLimiter := x\<rparr>)"
    and recording: "P s \<Longrightarrow> P (with_metrics (RecordHTTPRequest m p st d) s)"
begin

lemma holds_limiter: "P s \<Longrightarrow> rate_limited D io r s = (a, s1) \<Longrightarrow> P s1"
  using limiter by (auto simp: rate_limited_def Let_def split: prod.splits)

lemma holds_recorded: "P s \<Longrightarrow> P (recorded io r st s)"
  unfolding recorded_def by (rule recording)

lemma holds_limited:
  assumes h: "\<And>io r w s. P s \<Longrightarrow> P (snd (snd (h io r w s)))" and s: "P s"
  shows "P (snd (snd (limited D h io r w s)))"
proof (cases rule: limited_cases [of io r D h w s])
  case (served ctx reqID s1 out rw s2)
  have "P s2" using h [OF holds_limiter [OF s served(2)], of io "inner_request ctx r" "inner_writer reqID w"] served(3) by simp
  then show ?thesis using served(4) holds_recorded by (cases out) simp_all
qed (use s holds_limiter holds_recorded in auto)

lemma holds_plain:
  assumes h: "\<And>io r w s. P s \<Longrightarrow> P (snd (snd (h io r w s)))" and s: "P s"
  shows "P (snd (snd (RecoveryMiddleware (LoggerMiddleware h) io r w s)))"
proof (cases "WithRequestID io (rq_ctx r)")
  case (Some p)
  obtain ctx reqID where p: "p = (ctx, reqID)" by (cases p)
  obtain out rw s2 where hh: "h io (r\<lparr>rq_ctx := ctx\<rparr>) (inner_writer reqID w) s = (out, rw, s2)"
    by (cases "h io (r\<lparr>rq_ctx := ctx\<rparr>) (inner_writer reqID w) s")
  have "P s2" using h [OF s, of io "r\<lparr>rq_ctx := ctx\<rparr>" "inner_writer reqID w"] hh by simp
  then show ?thesis
    using hh recording by (cases out) (auto simp: RecoveryMiddleware_def LoggerMiddleware_def Some p inner_writer_def Let_def)
qed (use s in \<open>simp add: RecoveryMiddleware_def LoggerMiddleware_def\<close>)

lemma holds_role:
  "h \<in> all_handlers D \<Longrightarrow> P s \<Longrightarrow> P (snd (snd (RequireRole D role h io r w s)))"
  using handlers [of h] by (auto simp: RequireRole_def split: sum.splits)

lemma holds_served: "P s \<Longrightarrow> P (snd (snd (ServeHTTP D io r w s)))"
proof (cases rule: ServeHTTP_cases [of r D io w s])
  case consume
  then show "P s \<Longrightarrow> ?thesis" using holds_limited [of "handleConsume D"] handlers [of "handleConsume D"] by simp
next
  case (protected role h)
  then have "h \<in> all_handlers D" by auto
  then show "P s \<Longrightarrow> ?thesis" using protected(2) holds_limited [OF holds_role] by simp
next
  case health
  then show "P s \<Longrightarrow> ?thesis" using handlers [of "handleHealth D"] by simp
next
  case metrics
  then show "P s \<Longrightarrow> ?thesis" by (simp add: metricsHandler_def)
next
  case (demo h)
  then have "h \<in> all_handlers D" by auto
  then show "P s \<Longrightarrow> ?thesis" using demo(1) holds_plain [of h] handlers [of h] by simp
next
  case (unmatched msg code)
  then show "P s \<Longrightarrow> ?thesis" by simp
qed

lemma holds_run: "P s \<Longrightarrow> P (snd (http_run D rs s))"
proof (induction rs arbitrary: s)
  case Nil
  then show ?case by (simp add: http_run_def)
next
  case (Cons q rs)
  have "P (snd (http_step D q s))"
    using holds_served [OF Cons.prems] by (auto simp: http_step_def split_beta Let_def)
  from Cons.IH [OF this] show ?case by (auto simp: http_run_def split_beta Let_def)
qed

end

subsection \<open>The metrics\<close>

definition metrics_wf :: "('p1, 'e, 'n, 'r, 'l) server \<Rightarrow> bool" where
  "metrics_wf s \<longleftrightarrow> pred_option calls_wf (cs_metrics (srv_credentialService s))"

lemma metrics_wf_with: "metrics_wf s \<Longrightarrow> (\<And>m. calls_wf m \<Longrightarrow> calls_wf (f m)) \<Longrightarrow> metrics_wf (with_metrics f s)"
  by (cases "cs_metrics (srv_credentialService s)") (auto simp: metrics_wf_def with_metrics_def)

lemma Consume_metrics_wf:
  assumes "pred_option calls_wf (cs_metrics s)"
  shows "pred_option calls_wf (cs_metrics (snd (Consume B M NI RI t1 t2 ctx sigHex wHex cls ep s)))"
proof -
  have v: "cs_metrics (snd (consume_verify B M ctx sigHex wHex cls ep s)) = cs_metrics s"
    using consume_verify_frame [of B M ctx sigHex wHex cls ep s] by (simp add: Let_def)
  have c: "pred_option calls_wf (cs_metrics (snd (consume_commit B NI t2 ctx cls ep sig s')))"
    if "cs_metrics s' = cs_metrics s" for sig s'
    using assms that
    by (cases "cs_metrics s") (auto simp: consume_commit_def nullifierstore_def record_methods_wf Let_def split_beta split: sum.splits)
  show ?thesis
    using assms v c by (auto simp: Consume_def Let_def split_beta split: option.splits sum.splits)
qed

lemma Issue_metrics_wf:
  "pred_option calls_wf (cs_metrics s) \<Longrightarrow> pred_option calls_wf (cs_metrics (snd (Issue B M rnd ctx b c s)))"
  using Issue_frame [of B M rnd ctx b c s] by simp

lemma metrics_wf_set:
  "pred_option calls_wf (cs_metrics svc) \<Longrightarrow> metrics_wf (set_service svc s)"
  "metrics_wf s \<Longrightarrow> metrics_wf (set_revocationStore st s)" "metrics_wf s \<Longrightarrow> metrics_wf (s\<lparr>srv_demoStore := x\<rparr>)"
  by (simp_all add: metrics_wf_def set_service_def set_revocationStore_def)

lemma metrics_wf_handlers:
  assumes "h \<in> all_handlers D" and "metrics_wf s"
  shows "metrics_wf (snd (snd (h io r w s)))"
proof -
  note parts = metrics_wf_with record_methods_wf metrics_wf_set Issue_metrics_wf Consume_metrics_wf assms(2)
    assms(2) [unfolded metrics_wf_def]
  from assms(1) consider "h = handleIssue D" | "h = handleConsume D" | "h = handleAdminRevoke D" | "h = handleAdminUnrevoke D"
    | "h \<in> {handleAdminListRevocations D, handleHealth D}" | "h \<in> {handleStoreCredential D, handleRetrieveCredential D}" by blast
  then show ?thesis
  proof cases
    case 1 then show ?thesis by (auto simp: handleIssue_def Let_def split_beta parts split: sum.splits option.splits)
  next
    case 2 then show ?thesis
      by (auto simp: handleConsume_def Let_def split_beta parts split: sum.splits option.splits consume_status.splits)
  next
    case 3 then show ?thesis by (auto simp: handleAdminRevoke_def Let_def split_beta parts split: sum.splits option.splits)
  next
    case 4 then show ?thesis by (auto simp: handleAdminUnrevoke_def Let_def split_beta parts split: sum.splits option.splits)
  next
    case 5 then show ?thesis
      by (auto simp: handleAdminListRevocations_def handleHealth_def parts split: sum.splits option.splits)
  next
    case 6 then show ?thesis
      by (auto simp: handleStoreCredential_def handleRetrieveCredential_def Let_def parts split: sum.splits option.splits)
  qed
qed

interpretation metrics_inv: server_invariant D metrics_wf
  for D :: "('p1, 'p2, 's, 'ml, 'e, 'n, 'r, 'l) deps"
proof
  fix s :: "('p1, 'e, 'n, 'r, 'l) server" and x m p st d
  show "metrics_wf s \<Longrightarrow> metrics_wf (s\<lparr>srv_rateLimiter := x\<rparr>)" by (simp add: metrics_wf_def)
  show "metrics_wf s \<Longrightarrow> metrics_wf (with_metrics (RecordHTTPRequest m p st d) s)"
    by (rule metrics_wf_with) (simp_all add: record_methods_wf)
qed (rule metrics_wf_handlers)

subsection \<open>Keys and epochs\<close>

text \<open>The signing key of every epoch and class, or the error of its derivation, and the epochs.\<close>

definition keys_and_epochs ::
    "('p1, 'p2, 's, 'ml, 'e, 'n, 'r, 'l) deps \<Rightarrow> ('p1, 'e, 'n, 'r) service \<Rightarrow>
     (string \<Rightarrow> string \<Rightarrow> 's result) \<times> string list" where
  "keys_and_epochs D svc = (\<lambda>ep cl. service_key (dp_blst D) (dp_memguard D) ep cl (cs_config svc), cf_SupportedEpochs (cs_config svc))"

lemma keys_kept [simp]:
  "keys_and_epochs D (srv_credentialService (with_metrics f s)) = keys_and_epochs D (srv_credentialService s)"
  "keys_and_epochs D (srv_credentialService (set_service svc s)) = keys_and_epochs D svc"
  "keys_and_epochs D (srv_credentialService (set_revocationStore st s)) = keys_and_epochs D (srv_credentialService s)"
  "keys_and_epochs D (snd (Issue (dp_blst D) (dp_memguard D) rnd ctx b c svc)) = keys_and_epochs D svc"
  "keys_and_epochs D (snd (Consume (dp_blst D) (dp_memguard D) NI RI t1 t2 ctx sigHex wHex cls ep svc)) = keys_and_epochs D svc"
  by (simp_all add: keys_and_epochs_def set_service_def set_revocationStore_def Issue_keeps Consume_keeps)

lemma keys_kept_handlers:
  assumes "h \<in> all_handlers D"
  shows "keys_and_epochs D (srv_credentialService (snd (snd (h io r w s)))) = keys_and_epochs D (srv_credentialService s)"
  using assms
  by (auto simp: handleIssue_def handleConsume_def handleAdminRevoke_def handleAdminUnrevoke_def handleHealth_def
      handleAdminListRevocations_def handleStoreCredential_def handleRetrieveCredential_def Let_def split_beta
      split: sum.splits option.splits consume_status.splits)

interpretation keys_inv: server_invariant D "\<lambda>s. keys_and_epochs D (srv_credentialService s) = k"
  for D :: "('p1, 'p2, 's, 'ml, 'e, 'n, 'r, 'l) deps" and k
  by unfold_locales (simp_all add: keys_kept_handlers)

text \<open>
  C25: what no sequence of HTTP requests changes. Starting from a server whose metrics were
  recorded with the right labels, after any requests every call that was made on the metrics
  names a registered vector and gives one value per label, so none has panicked; and every
  epoch and class has the signing key it had, and the supported epochs are the same.
\<close>

theorem requests_keep_keys_and_metrics:
  assumes "metrics_wf s"
  shows "metrics_wf (snd (http_run D rs s)) \<and>
    (\<forall>ep cl. service_key (dp_blst D) (dp_memguard D) ep cl (cs_config (srv_credentialService (snd (http_run D rs s)))) =
       service_key (dp_blst D) (dp_memguard D) ep cl (cs_config (srv_credentialService s))) \<and>
    cf_SupportedEpochs (cs_config (srv_credentialService (snd (http_run D rs s)))) =
      cf_SupportedEpochs (cs_config (srv_credentialService s))"
  using metrics_inv.holds_run [OF assms] keys_inv.holds_run [where D = D and rs = rs and s = s, OF refl]
  by (simp add: keys_and_epochs_def fun_eq_iff)

lemma sample_metrics_wf: "metrics_wf sample_server"
  by (simp add: metrics_wf_def sample_server_def sample_service_def NewCredentialService_def NewMetricsCollector_wf)

theorem requests_keep_keys_and_metrics_witness:
  "let s = snd (http_run sample_deps [(sample_io, sample_request ''POST'' ''/v1/admin/revoke'' revoke_body),
       (sample_io, sample_request ''GET'' ''/health'' [])] sample_server)
   in metrics_wf s \<and>
     service_key z3_blst plain_memguard ''2026-01'' ''gold'' (cs_config (srv_credentialService s)) =
       service_key z3_blst plain_memguard ''2026-01'' ''gold'' (cs_config sample_service) \<and>
     cf_SupportedEpochs (cs_config (srv_credentialService s)) = [''2026-01'']"
  using requests_keep_keys_and_metrics [OF sample_metrics_wf, where D = sample_deps]
  by (simp add: Let_def sample_deps_def sample_server_def)

end
