(* ===== verification/Concurrency.thy ===== *)
theory Concurrency
  imports Protocol
begin

section \<open>Concurrent redemptions\<close>

text \<open>
  The server runs every request in a goroutine of its own, and the service, its stores and its
  configuration are shared. A redemption is a task that goes through the three phases of
  \<open>Consume\<close>: the admission, which reads the revocation store under its lock, the
  verification, which shares only the sealed seed, and the one call of \<open>CheckAndStore\<close>, which
  the store makes atomic. Tasks arrive at any time and their phases are interleaved with each
  other, with issuing and with administration in any order.
\<close>

record redemption =
  dm_ctx :: go_context
  dm_sig :: string
  dm_witness :: string
  dm_class :: string
  dm_epoch :: string

datatype 'p1 task =
    Arrived redemption
  | Admitted redemption
  | Verified redemption 'p1
  | Answered redemption "consume_result result"

text \<open>One turn of a task: the next phase of its call, at the instant the phase reads.\<close>

fun task_turn ::
    "('p1, 'p2, 's, 'ml) blst \<Rightarrow> 'e memguard \<Rightarrow> 'n nullifier_iface \<Rightarrow> 'r revocation_iface \<Rightarrow> instant \<Rightarrow> 'p1 task \<Rightarrow>
     ('p1, 'e, 'n, 'r) service \<Rightarrow> 'p1 task \<times> ('p1, 'e, 'n, 'r) service" where
  "task_turn B M NI RI t (Arrived q) s =
     (case consume_admit RI t (dm_class q) (dm_epoch q) s of
        Some r \<Rightarrow> (Answered q r, s)
      | None \<Rightarrow> (Admitted q, s))"
| "task_turn B M NI RI t (Admitted q) s =
     (case consume_verify B M (dm_ctx q) (dm_sig q) (dm_witness q) (dm_class q) (dm_epoch q) s of
        (Inl err, s) \<Rightarrow> (Answered q (Inl err), s)
      | (Inr sig, s) \<Rightarrow> (Verified q sig, s))"
| "task_turn B M NI RI t (Verified q sig) s =
     (case consume_commit B NI t (dm_ctx q) (dm_class q) (dm_epoch q) sig s of
        (r, s) \<Rightarrow> (Answered q r, s))"
| "task_turn B M NI RI t (Answered q r) s = (Answered q r, s)"

text \<open>A task that runs alone is a call of \<open>Consume\<close>.\<close>

lemma task_alone:
  assumes "task_turn B M NI RI t1 (Arrived q) s = (a, s1)" and "task_turn B M NI RI t a s1 = (b, s2)"
    and "task_turn B M NI RI t2 b s2 = (c, s3)"
  shows "Consume B M NI RI t1 t2 (dm_ctx q) (dm_sig q) (dm_witness q) (dm_class q) (dm_epoch q) s = (r, s3)
    \<longleftrightarrow> c = Answered q r"
  using assms by (auto simp: Consume_def split: option.splits prod.splits sum.splits)

text \<open>What a turn does to the stores, and the runs of any number of tasks.\<close>

datatype con_event =
    Looks instant
  | Calls instant "goerr option" bytes
  | Administers admin_op

fun turn_events :: "('p1, 'p2, 's, 'ml) blst \<Rightarrow> instant \<Rightarrow> 'p1 task \<Rightarrow> con_event list" where
  "turn_events B t (Arrived q) = [Looks t]"
| "turn_events B t (Verified q sig) =
     [Calls t (cx_err (dm_ctx q) 1) (ComputeNullifier B (dm_epoch q) (dm_class q) sig)]"
| "turn_events B t _ = []"

inductive con_run ::
    "('p1, 'p2, 's, 'ml) blst \<Rightarrow> 'e memguard \<Rightarrow> 'n nullifier_iface \<Rightarrow> 'r revocation_iface \<Rightarrow>
     ('p1, 'e, 'n, 'r) service \<Rightarrow> 'p1 task list \<Rightarrow> con_event list \<Rightarrow> ('p1, 'e, 'n, 'r) service \<Rightarrow> 'p1 task list \<Rightarrow> bool"
  for B :: "('p1, 'p2, 's, 'ml) blst" and M :: "'e memguard" and NI :: "'n nullifier_iface"
    and RI :: "'r revocation_iface" and s0 :: "('p1, 'e, 'n, 'r) service" and ts0 :: "'p1 task list" where
  con_start: "con_run B M NI RI s0 ts0 [] s0 ts0"
| con_arrive: "con_run B M NI RI s0 ts0 es s ts \<Longrightarrow> con_run B M NI RI s0 ts0 es s (ts @ [Arrived q])"
| con_turn: "con_run B M NI RI s0 ts0 es s ts \<Longrightarrow> i < length ts \<Longrightarrow> task_turn B M NI RI t (ts ! i) s = (a, s') \<Longrightarrow>
    con_run B M NI RI s0 ts0 (es @ turn_events B t (ts ! i)) s' (ts[i := a])"
| con_issue: "con_run B M NI RI s0 ts0 es s ts \<Longrightarrow>
    con_run B M NI RI s0 ts0 es (snd (Issue B M rnd ctx blindedHex cls s)) ts"
| con_admin: "con_run B M NI RI s0 ts0 es s ts \<Longrightarrow>
    con_run B M NI RI s0 ts0 (es @ [Administers a])
      (s\<lparr>cs_revocationStore := map_option (admin_apply RI a) (cs_revocationStore s)\<rparr>) ts"

subsection \<open>A run is a run of the nullifier store\<close>

fun call_of :: "con_event \<Rightarrow> check_op list" where
  "call_of (Calls t c k) = [(t, c, k)]"
| "call_of _ = []"

abbreviation calls_of :: "con_event list \<Rightarrow> check_op list" where
  "calls_of es \<equiv> concat (map call_of es)"

fun granted_task :: "('p1, 'p2, 's, 'ml) blst \<Rightarrow> bytes \<Rightarrow> 'p1 task \<Rightarrow> bool" where
  "granted_task B k (Answered q r) \<longleftrightarrow> accepted r \<and>
     (\<exists>sig. decoded B (dm_sig q) sig \<and> k = ComputeNullifier B (dm_epoch q) (dm_class q) sig)"
| "granted_task B k _ \<longleftrightarrow> False"

text \<open>How many tasks have redeemed the nullifier \<open>k\<close>.\<close>

definition granted_tasks :: "('p1, 'p2, 's, 'ml) blst \<Rightarrow> bytes \<Rightarrow> 'p1 task list \<Rightarrow> nat" where
  "granted_tasks B k ts = length (filter (granted_task B k) ts)"

fun task_ok :: "('p1, 'p2, 's, 'ml) blst \<Rightarrow> 'p1 task \<Rightarrow> bool" where
  "task_ok B (Verified q sig) \<longleftrightarrow> decoded B (dm_sig q) sig"
| "task_ok B _ \<longleftrightarrow> True"

lemma length_filter_update:
  "i < length xs \<Longrightarrow> length (filter P (xs[i := y])) + (if P (xs ! i) then 1 else 0) =
     length (filter P xs) + (if P y then 1 else 0)"
proof (induction xs arbitrary: i)
  case (Cons x xs)
  show ?case
  proof (cases i)
    case (Suc j)
    then show ?thesis using Cons.IH [of j] Cons.prems by (cases "P x") simp_all
  qed (cases "P x"; cases "P y"; simp)
qed simp

lemma granted_update:
  assumes "i < length ts" and "\<not> granted_task B k (ts ! i)"
  shows "granted_tasks B k (ts[i := a]) = granted_tasks B k ts + (if granted_task B k a then 1 else 0)"
  using length_filter_update [OF assms(1), of "granted_task B k" a] assms(2) by (simp add: granted_tasks_def)

lemma check_run_append:
  "check_run check (xs @ ys) n =
     (fst (check_run check xs n) @ fst (check_run check ys (snd (check_run check xs n))),
      snd (check_run check ys (snd (check_run check xs n))))"
proof (induction xs arbitrary: n)
  case (Cons x xs)
  then show ?case by (cases x) (simp add: split_beta Let_def)
qed simp

lemma accepted_count_append:
  "length xs = length rs \<Longrightarrow> accepted_count k (xs @ ys) (rs @ rs') = accepted_count k xs rs + accepted_count k ys rs'"
  by (simp add: accepted_count_def)

lemma check_run_length: "length (fst (check_run check xs n)) = length xs"
proof (induction xs arbitrary: n)
  case (Cons x xs)
  then show ?case by (cases x) (simp add: split_beta Let_def)
qed simp

text \<open>A turn makes the calls of its events, and grants what they accept.\<close>

lemma turn_effect:
  assumes "task_turn B M NI RI t a s = (b, s')" and "task_ok B a"
  shows "task_ok B b \<and> (\<exists>rs. check_run (ns_CheckAndStore NI) (calls_of (turn_events B t a)) (cs_store s) = (rs, cs_store s') \<and>
    (if granted_task B k b then 1 else 0) =
      (if granted_task B k a then 1 else 0) + accepted_count k (calls_of (turn_events B t a)) rs)"
proof (cases a)
  case (Arrived q)
  then show ?thesis
    using assms consume_admit_not_accepted
    by (cases "consume_admit RI t (dm_class q) (dm_epoch q) s") (fastforce simp: accepted_def split: sum.splits)+
next
  case (Admitted q)
  then show ?thesis
    using assms consume_verify_keeps(1) [of B M "dm_ctx q" "dm_sig q" "dm_witness q" "dm_class q" "dm_epoch q" s]
      consume_verify_ok_iff [of B M "dm_ctx q" "dm_sig q" "dm_witness q" "dm_class q" "dm_epoch q" s]
    by (auto split: prod.splits sum.splits) blast
next
  case (Verified q sig)
  let ?k = "ComputeNullifier B (dm_epoch q) (dm_class q) sig" and ?c = "cx_err (dm_ctx q) 1"
  obtain r where r: "consume_commit B NI t (dm_ctx q) (dm_class q) (dm_epoch q) sig s = (r, s')" "b = Answered q r"
    using assms(1) Verified by (auto split: prod.splits)
  have d: "decoded B (dm_sig q) x \<longleftrightarrow> x = sig" for x
    using assms(2) Verified decoded_unique by auto
  obtain cr n where c: "ns_CheckAndStore NI t ?c ?k (cs_store s) = (cr, n)" by fastforce
  have e: "cs_store s' = n" "accepted r \<longleftrightarrow> cr = Inr True"
    using consume_commit_store [of B NI t "dm_ctx q" "dm_class q" "dm_epoch q" sig s] r(1) c by simp_all
  show ?thesis
    using assms(2) c by (auto simp: Verified r(2) e d accepted_count_Nil)
next
  case (Answered q r)
  then show ?thesis using assms by auto
qed

lemma con_run_calls:
  assumes "con_run B M NI RI s0 ts0 es s ts" and "\<forall>a \<in> set ts0. task_ok B a"
  shows "(\<forall>a \<in> set ts. task_ok B a) \<and>
    (\<exists>rs. check_run (ns_CheckAndStore NI) (calls_of es) (cs_store s0) = (rs, cs_store s) \<and>
      granted_tasks B k ts = granted_tasks B k ts0 + accepted_count k (calls_of es) rs)"
  using assms
proof (induction rule: con_run.induct)
  case (con_turn es s ts i t a s')
  then obtain rs where ok: "\<forall>a \<in> set ts. task_ok B a"
    and rs: "check_run (ns_CheckAndStore NI) (calls_of es) (cs_store s0) = (rs, cs_store s)"
    and n: "granted_tasks B k ts = granted_tasks B k ts0 + accepted_count k (calls_of es) rs" by blast
  have "task_ok B (ts ! i)" using ok con_turn.hyps(2) by simp
  from turn_effect [OF con_turn.hyps(3) this, of k] obtain rs' where a: "task_ok B a"
    and rs': "check_run (ns_CheckAndStore NI) (calls_of (turn_events B t (ts ! i))) (cs_store s) = (rs', cs_store s')"
    and n': "(if granted_task B k a then 1 else 0) = (if granted_task B k (ts ! i) then 1 else 0) +
      accepted_count k (calls_of (turn_events B t (ts ! i))) rs'" by blast
  have "granted_tasks B k (ts[i := a]) = granted_tasks B k ts + accepted_count k (calls_of (turn_events B t (ts ! i))) rs'"
    using length_filter_update [OF con_turn.hyps(2), of "granted_task B k" a] n' by (simp add: granted_tasks_def)
  moreover have "length (calls_of es) = length rs" using check_run_length rs by (metis fst_conv)
  ultimately show ?case
    using ok a rs rs' n con_turn.hyps(2)
    by (auto simp: check_run_append accepted_count_append dest!: set_update_subset_insert [THEN subsetD])
qed (auto simp: Issue_frame granted_tasks_def)


subsection \<open>Replay protection under concurrency\<close>

text \<open>The in-memory store's records are exactly the grants of a run.\<close>

lemma mem_run_balance:
  "(if nm_store n k = Some True then 1 else 0) + accepted_count k ops (fst (check_run mem_CheckAndStore ops n)) =
    (if nm_store (snd (check_run mem_CheckAndStore ops n)) k = Some True then 1 else 0)"
proof (induction ops arbitrary: n)
  case (Cons op ops)
  obtain t c k' where op: "op = (t, c, k')" by (cases op)
  have a: "fst (mem_CheckAndStore t c k' n) = Inr True \<and> k' = k \<Longrightarrow> nm_store n k \<noteq> Some True"
    using mem_check_iff(1) [of t c k' n] by blast
  show ?case
    using Cons.IH [of "snd (mem_CheckAndStore t c k' n)"] a mem_check_iff(2) [of t c k' n k]
    by (auto simp: op split_beta Let_def split: if_splits)
qed (simp add: accepted_count_Nil)

context nullifier_store
begin

lemma concurrent_at_most_once:
  assumes "ns_CheckAndStore NI = check" and "inv (cs_store s0)" and "con_run B M NI RI s0 [] es s ts"
    and "\<forall>(t, c, x) \<in> set (calls_of es). \<forall>(t', c', x') \<in> set (calls_of es). before t' (stamp t)"
  shows "granted_tasks B k ts \<le> 1"
  using con_run_calls [OF assms(3), of k] at_most_once [OF assms(2,4), of k] assms(1)
  by (auto simp: granted_tasks_def)

end

text \<open>
  C3: replay protection under concurrency, with the in-memory store. However the phases of any
  number of redemptions are interleaved with each other, with issuing and with administration,
  from any state of the service: the tasks that redeemed a nullifier are as many as the records
  of it that were added, so at most one, and none if it was recorded at the start.
\<close>

theorem concurrent_accepts_once:
  assumes "con_run B M InMemoryNullifierStore RI s0 [] es s ts"
  shows "(if nm_store (cs_store s0) k = Some True then 1 else 0) + granted_tasks B k ts =
    (if nm_store (cs_store s) k = Some True then 1 else 0)"
proof -
  obtain rs where "check_run mem_CheckAndStore (calls_of es) (cs_store s0) = (rs, cs_store s)"
    "granted_tasks B k ts = accepted_count k (calls_of es) rs"
    using con_run_calls [OF assms, of k] by (auto simp: granted_tasks_def)
  then show ?thesis using mem_run_balance [of "cs_store s0" k "calls_of es"] by simp
qed

text \<open>Two tasks with the same credential, both verified before either calls the store.\<close>

definition sample_redemption :: redemption where
  "sample_redemption = \<lparr> dm_ctx = background, dm_sig = hex_encode (z3_enc 48 Z2), dm_witness = hex_encode (z3_enc 48 Z2),
     dm_class = ''gold'', dm_epoch = ''2026-01'' \<rparr>"

abbreviation sample_turn ::
    "'n nullifier_iface \<Rightarrow> z3 task \<Rightarrow> (z3, bytes, 'n, revocation_mem) service \<Rightarrow>
     z3 task \<times> (z3, bytes, 'n, revocation_mem) service" where
  "sample_turn NI \<equiv> task_turn z3_blst plain_memguard NI InMemoryRevocationStore 0"


definition sample_ready :: "(z3, bytes, 'n, revocation_mem) service \<Rightarrow> bool" where
  "sample_ready s \<longleftrightarrow> service_key z3_blst plain_memguard ''2026-01'' ''gold'' (cs_config s) = Inr Z1 \<and>
     ''2026-01'' \<in> set (cf_SupportedEpochs (cs_config s)) \<and> cs_revocationStore s = Some NewInMemoryRevocationStore"

lemma sample_turns:
  assumes "sample_ready s"
  shows "sample_turn NI (Arrived sample_redemption) s = (Admitted sample_redemption, s)"
    and "\<exists>s'. sample_turn NI (Admitted sample_redemption) s = (Verified sample_redemption Z2, s') \<and> sample_ready s' \<and>
      cs_store s' = cs_store s"
proof -
  have "consume_admit InMemoryRevocationStore 0 ''gold'' ''2026-01'' s = None"
    using assms by (simp add: consume_admit_None_iff sample_ready_def not_revoked_def InMemoryRevocationStore_def
        mem_IsRevoked_def NewInMemoryRevocationStore_def)
  then show "sample_turn NI (Arrived sample_redemption) s = (Admitted sample_redemption, s)"
    by (simp add: sample_redemption_def)
  let ?v = "consume_verify z3_blst plain_memguard background (hex_encode (z3_enc 48 Z2)) (hex_encode (z3_enc 48 Z2))
      ''gold'' ''2026-01'' s"
  have "VerifyPoint z3_blst Z2 Z2 (PubKey z3_blst Z1)"
    using VerifyPoint_PubKey_iff [OF z3_blst_laws, of Z2 Z2 Z1] by (simp add: z3_ops)
  then have "fst ?v = Inr Z2"
    unfolding consume_verify_ok_iff using assms z3_decoded [of Z2] by (auto simp: background_def sample_ready_def)
  then have "?v = (Inr Z2, snd ?v)" by (metis surjective_pairing)
  then have "sample_turn NI (Admitted sample_redemption) s = (Verified sample_redemption Z2, snd ?v)"
    by (cases ?v) (simp add: sample_redemption_def)
  then show "\<exists>s'. sample_turn NI (Admitted sample_redemption) s = (Verified sample_redemption Z2, s') \<and> sample_ready s' \<and>
      cs_store s' = cs_store s"
    using assms by (simp add: sample_ready_def consume_verify_keeps)
qed

lemma verified_turn: "\<exists>r s'. task_turn B M NI RI t (Verified q sig) s = (Answered q r, s')"
  by (simp split: prod.split)

text \<open>Both tasks get to the store, the second one first.\<close>

lemma sample_race:
  assumes "sample_ready s0"
  obtains es s a b where "con_run z3_blst plain_memguard NI InMemoryRevocationStore s0 [] es s
      [Answered sample_redemption a, Answered sample_redemption b]"
    "calls_of es = replicate 2 (0, None, ComputeNullifier z3_blst ''2026-01'' ''gold'' Z2)"
proof -
  let ?R = "con_run z3_blst plain_memguard NI InMemoryRevocationStore s0 []" and ?q = sample_redemption
  note t = sample_turns(1) [OF assms, of NI]
  have "?R [] s0 ([] @ [Arrived ?q])" by (rule con_arrive, rule con_start)
  from con_arrive [OF this, of ?q] have "?R [] s0 [Arrived ?q, Arrived ?q]" by simp
  from con_turn [OF this, of 0 0] t have "?R [Looks 0] s0 [Admitted ?q, Arrived ?q]" by simp
  from con_turn [OF this, of 1 0] t have a: "?R [Looks 0, Looks 0] s0 [Admitted ?q, Admitted ?q]" by simp
  obtain s1 where s1: "sample_turn NI (Admitted ?q) s0 = (Verified ?q Z2, s1)" "sample_ready s1" "cs_store s1 = cs_store s0"
    using sample_turns(2) [OF assms] by blast
  obtain s2 where s2: "sample_turn NI (Admitted ?q) s1 = (Verified ?q Z2, s2)" "cs_store s2 = cs_store s1"
    using sample_turns(2) [OF s1(2)] by blast
  obtain b s3 where b: "sample_turn NI (Verified ?q Z2) s2 = (Answered ?q b, s3)"
    using verified_turn [of z3_blst plain_memguard NI InMemoryRevocationStore 0 ?q Z2 s2] by blast
  obtain a' s4 where a': "sample_turn NI (Verified ?q Z2) s3 = (Answered ?q a', s4)"
    using verified_turn [of z3_blst plain_memguard NI InMemoryRevocationStore 0 ?q Z2 s3] by blast
  let ?es = "[Looks 0, Looks 0]" and ?c = "turn_events z3_blst 0 (Verified ?q Z2)"
  from con_turn [OF a, of 1 0] s1(1) have "?R ?es s1 [Admitted ?q, Verified ?q Z2]" by simp
  from con_turn [OF this, of 0 0] s2(1) have "?R ?es s2 [Verified ?q Z2, Verified ?q Z2]" by simp
  from con_turn [OF this, of 1 0] b have "?R (?es @ ?c) s3 [Verified ?q Z2, Answered ?q b]" by simp
  from con_turn [OF this, of 0 0] a' have "?R ((?es @ ?c) @ ?c) s4 [Answered ?q a', Answered ?q b]" by simp
  then show thesis
    by (rule that) (simp add: sample_redemption_def background_def numeral_2_eq_2)
qed

lemma sample_ready_service: "sample_ready sample_service"
  using sample_key by (simp add: sample_ready_def)

theorem concurrent_accepts_once_witness:
  "\<exists>es s a b. con_run z3_blst plain_memguard InMemoryNullifierStore InMemoryRevocationStore sample_service [] es s
       [Answered sample_redemption a, Answered sample_redemption b] \<and>
     granted_tasks z3_blst (ComputeNullifier z3_blst ''2026-01'' ''gold'' Z2)
       [Answered sample_redemption a, Answered sample_redemption b] = 1"
proof -
  let ?k = "ComputeNullifier z3_blst ''2026-01'' ''gold'' Z2"
  obtain es s a b where r: "con_run z3_blst plain_memguard InMemoryNullifierStore InMemoryRevocationStore sample_service [] es s
      [Answered sample_redemption a, Answered sample_redemption b]" and c: "calls_of es = replicate 2 (0, None, ?k)"
    by (rule sample_race [OF sample_ready_service])
  obtain rs where "check_run mem_CheckAndStore (calls_of es) (cs_store sample_service) = (rs, cs_store s)"
    using con_run_calls [OF r] by auto
  then have "cs_store s = snd (check_run mem_CheckAndStore (calls_of es) (cs_store sample_service))" by simp
  then have n: "nm_store (cs_store s) ?k = Some True"
    by (simp add: c numeral_2_eq_2 mem_CheckAndStore_def split_beta Let_def split: option.split)
  have "nm_store (cs_store sample_service) ?k \<noteq> Some True" by (simp add: NewInMemoryNullifierStore_def)
  then show ?thesis using r concurrent_accepts_once [OF r, of ?k] n by auto
qed

text \<open>The same race with Redis.\<close>

definition sample_redis_service :: "(z3, bytes, db redis_nullifier, revocation_mem) service" where
  "sample_redis_service = NewCredentialService z3_blst (cs_config sample_service)
     (NewRedisNullifierStoreWithClient Map.empty second) (Some NewInMemoryRevocationStore) None"

text \<open>
  C23: replay protection under concurrency with Redis, whatever the client's failures, among
  calls that fall within one lifetime of a record.
\<close>

theorem concurrent_accepts_once_redis:
  assumes "redis_laws R V" and "0 \<le> rn_expiration (cs_store s0)"
    and "con_run B M (RedisNullifierStore R) RI s0 [] es s ts"
    and "\<forall>(t, c, x) \<in> set (calls_of es). \<forall>(t', c', x') \<in> set (calls_of es).
      before t' (redis_deadline t (rn_expiration (cs_store s0)))"
  shows "granted_tasks B k ts \<le> 1"
  by (rule nullifier_store.concurrent_at_most_once [OF redis_nullifier_store [OF assms(1,2)] RedisNullifier_simps refl assms(3,4)])

theorem concurrent_accepts_once_redis_witness:
  "\<exists>es s a b. con_run z3_blst plain_memguard (RedisNullifierStore mem_redis) InMemoryRevocationStore sample_redis_service [] es s
       [Answered sample_redemption a, Answered sample_redemption b] \<and>
     granted_tasks z3_blst (ComputeNullifier z3_blst ''2026-01'' ''gold'' Z2)
       [Answered sample_redemption a, Answered sample_redemption b] \<le> 1"
proof -
  let ?k = "ComputeNullifier z3_blst ''2026-01'' ''gold'' Z2"
  have ready: "sample_ready sample_redis_service"
    using sample_key by (simp add: sample_ready_def sample_redis_service_def NewCredentialService_def)
  obtain es s a b where r: "con_run z3_blst plain_memguard (RedisNullifierStore mem_redis) InMemoryRevocationStore
      sample_redis_service [] es s [Answered sample_redemption a, Answered sample_redemption b]"
    and c: "calls_of es = replicate 2 (0, None, ?k)"
    by (rule sample_race [OF ready])
  have e: "rn_expiration (cs_store sample_redis_service) = second"
    by (simp add: sample_redis_service_def NewCredentialService_def NewRedisNullifierStoreWithClient_def)
  have "before 0 (redis_deadline 0 second)" by (simp add: redis_deadline_def redis_ttl_def)
  then have "granted_tasks z3_blst ?k [Answered sample_redemption a, Answered sample_redemption b] \<le> 1"
    by (intro concurrent_accepts_once_redis [OF mem_redis_laws _ r]) (simp_all add: e c)
  then show ?thesis using r by blast
qed

subsection \<open>Revocation under concurrency\<close>

text \<open>A task that a revocation of class and epoch holds back: it is not past its admission.\<close>

fun held_back :: "string \<Rightarrow> string \<Rightarrow> 'p1 task \<Rightarrow> bool" where
  "held_back c e (Arrived q) \<longleftrightarrow> True"
| "held_back c e (Admitted q) \<longleftrightarrow> (dm_class q, dm_epoch q) \<noteq> (c, e)"
| "held_back c e (Verified q sig) \<longleftrightarrow> (dm_class q, dm_epoch q) \<noteq> (c, e)"
| "held_back c e (Answered q r) \<longleftrightarrow> (dm_class q, dm_epoch q) \<noteq> (c, e) \<or> \<not> accepted r"

definition entry_held :: "string \<Rightarrow> string \<Rightarrow> revocation_entry \<Rightarrow> ('p1, 'e, 'n, revocation_mem) service \<Rightarrow> bool" where
  "entry_held c e en s \<longleftrightarrow> (\<exists>r. cs_revocationStore s = Some r \<and> mem_stored r (c, e) = Some en)"

lemma held_turn:
  assumes "task_turn B M NI InMemoryRevocationStore t a s = (b, s')" and "held_back c e a" and "entry_held c e en s"
    and "mem_valid c e" and "\<forall>t'. Looks t' \<in> set (turn_events B t a) \<longrightarrow> \<not> entry_expired t' en"
  shows "held_back c e b"
proof (cases a)
  case (Arrived q)
  obtain r where r: "cs_revocationStore s = Some r" "mem_stored r (c, e) = Some en"
    using assms(3) by (auto simp: entry_held_def)
  have "rm_store r (mem_revocationKey c e) = Some en" using r(2) mem_stored_eq [OF assms(4)] by simp
  then have "mem_IsRevoked t c e r = Inr (True, Some en)"
    using assms(5) Arrived by (simp add: mem_IsRevoked_def)
  then have "\<not> not_revoked InMemoryRevocationStore t c e s"
    using r(1) by (simp add: not_revoked_def InMemoryRevocationStore_def)
  then show ?thesis
    using assms(1) Arrived consume_admit_None_iff [of InMemoryRevocationStore t c e s]
      consume_admit_not_accepted [of InMemoryRevocationStore t c e s]
    by (cases "consume_admit InMemoryRevocationStore t (dm_class q) (dm_epoch q) s")
      (auto simp: accepted_def split: sum.splits)
next
  case (Admitted q)
  then show ?thesis using assms(1,2) by (auto split: prod.splits sum.splits)
next
  case (Verified q sig)
  then show ?thesis using assms(1,2) by (auto split: prod.splits)
qed (use assms in auto)

lemma turn_keeps_revocations:
  "task_turn B M NI RI t a s = (b, s') \<Longrightarrow> cs_revocationStore s' = cs_revocationStore s"
  by (cases a) (auto simp: consume_commit_def Let_def consume_verify_keeps
    dest!: arg_cong [where f = snd] split: option.splits prod.splits sum.splits)

lemma held_admin:
  assumes "entry_held c e en s" and "case_prod mem_valid (op_target a)" and "op_target a \<noteq> (c, e)"
  shows "entry_held c e en (s\<lparr>cs_revocationStore := map_option (admin_apply InMemoryRevocationStore a) (cs_revocationStore s)\<rparr>)"
  using assms
  by (cases a) (auto simp: entry_held_def InMemoryRevocationStore_def mem_revocation.revoke_frame
    mem_revocation.unrevoke_frame)

lemma held_run:
  assumes "con_run B M NI InMemoryRevocationStore s0 ts0 es s ts" and "entry_held c e en s0" and "mem_valid c e"
    and "\<forall>a. Administers a \<in> set es \<longrightarrow> case_prod mem_valid (op_target a) \<and> op_target a \<noteq> (c, e)"
    and "\<forall>t. Looks t \<in> set es \<longrightarrow> \<not> entry_expired t en"
  shows "entry_held c e en s \<and> length ts0 \<le> length ts \<and>
    (\<forall>i < length ts. (i < length ts0 \<longrightarrow> held_back c e (ts0 ! i)) \<longrightarrow> held_back c e (ts ! i))"
  using assms
proof (induction rule: con_run.induct)
  case (con_arrive es s ts q)
  then show ?case by (auto simp: nth_append)
next
  case (con_turn es s ts i t a s')
  then have IH: "entry_held c e en s" "length ts0 \<le> length ts"
    "\<forall>i < length ts. (i < length ts0 \<longrightarrow> held_back c e (ts0 ! i)) \<longrightarrow> held_back c e (ts ! i)"
    by simp_all
  have l: "\<forall>t'. Looks t' \<in> set (turn_events B t (ts ! i)) \<longrightarrow> \<not> entry_expired t' en" using con_turn.prems by simp
  have "held_back c e (ts ! i) \<Longrightarrow> held_back c e a"
    by (rule held_turn [OF con_turn.hyps(3) _ IH(1) assms(3) l])
  then show ?case
    using IH con_turn.hyps(2) turn_keeps_revocations [OF con_turn.hyps(3)]
    by (auto simp: nth_list_update entry_held_def)
next
  case (con_issue es s ts rnd ctx blindedHex cls)
  then show ?case by (auto simp: entry_held_def Issue_frame)
next
  case (con_admin es s ts a)
  then have "case_prod mem_valid (op_target a)" "op_target a \<noteq> (c, e)" "entry_held c e en s"
    and "length ts0 \<le> length ts \<and>
      (\<forall>i < length ts. (i < length ts0 \<longrightarrow> held_back c e (ts0 ! i)) \<longrightarrow> held_back c e (ts ! i))"
    by simp_all
  then show ?case using held_admin [of c e en s a] by simp
qed auto

text \<open>What was admitted before is verified and committed all the same.\<close>

lemma admitted_not_stopped:
  assumes "fst (consume_verify B M (dm_ctx q) (dm_sig q) (dm_witness q) (dm_class q) (dm_epoch q) s) = Inr sig"
  shows "\<exists>s'. task_turn B M NI RI t (Admitted q) (s\<lparr>cs_revocationStore := rs\<rparr>) = (Verified q sig, s')"
proof -
  have "fst (consume_verify B M (dm_ctx q) (dm_sig q) (dm_witness q) (dm_class q) (dm_epoch q)
      (s\<lparr>cs_revocationStore := rs\<rparr>)) = Inr sig"
    using assms by (simp add: consume_verify_ok_iff)
  then show ?thesis by (auto split: prod.splits)
qed

text \<open>
  C5: revocation under concurrency, with the in-memory stores. Once the revocation of a class
  and an epoch is recorded, no redemption of them that had not yet passed its admission is
  granted, however the phases of the redemptions are interleaved from then on, as long as the
  revocation has not ended when a redemption looks and administration concerns other classes
  and epochs. A redemption already admitted is not stopped by it.
\<close>

theorem concurrent_revocation:
  assumes "cs_revocationStore s0 = Some (snd (mem_RevokeClass t cls ep why who until r0))" and "mem_valid cls ep"
    and "con_run B M NI InMemoryRevocationStore s0 ts0 es s ts"
    and "\<forall>a. Administers a \<in> set es \<longrightarrow> case_prod mem_valid (op_target a) \<and> op_target a \<noteq> (cls, ep)"
    and "\<forall>t'. Looks t' \<in> set es \<longrightarrow> \<not> entry_expired t' (new_entry t cls ep why who until)"
    and "i < length ts" "ts ! i = Answered q res" "dm_class q = cls" "dm_epoch q = ep"
    and "i < length ts0 \<longrightarrow> ts0 ! i = Arrived q"
  shows "\<not> accepted res"
proof -
  have "mem_stored (snd (mem_RevokeClass t cls ep why who until r0)) (cls, ep) = Some (new_entry t cls ep why who until)"
    using mem_revocation.revoke_ok [OF _ assms(2) mem_RevokeClass_None] by simp
  then have "entry_held cls ep (new_entry t cls ep why who until) s0" using assms(1) by (simp add: entry_held_def)
  from held_run [OF assms(3) this assms(2,4,5)] have "held_back cls ep (ts ! i)"
    using assms(6,10) by simp
  then show ?thesis using assms(7-9) by simp
qed

theorem concurrent_revocation_witness:
  "\<exists>es s res. con_run z3_blst plain_memguard InMemoryNullifierStore InMemoryRevocationStore
      (sample_service\<lparr>cs_revocationStore :=
        Some (snd (mem_RevokeClass 0 ''gold'' ''2026-01'' ''leak'' ''root'' None NewInMemoryRevocationStore))\<rparr>)
      [] es s [Answered sample_redemption res] \<and> \<not> accepted res"
proof -
  let ?s = "sample_service\<lparr>cs_revocationStore :=
      Some (snd (mem_RevokeClass 0 ''gold'' ''2026-01'' ''leak'' ''root'' None NewInMemoryRevocationStore))\<rparr>"
  let ?R = "con_run z3_blst plain_memguard InMemoryNullifierStore InMemoryRevocationStore ?s []"
  have "?R [] ?s ([] @ [Arrived sample_redemption])" by (rule con_arrive, rule con_start)
  then have a: "?R [] ?s [Arrived sample_redemption]" by simp
  have "\<exists>res. consume_admit InMemoryRevocationStore 0 ''gold'' ''2026-01'' ?s = Some res"
    by (simp add: consume_admit_def IsEpochSupported_def InMemoryRevocationStore_def mem_RevokeClass_def mem_IsRevoked_def
        mem_revocationKey_def entry_expired_def new_entry_def)
  then obtain res where "task_turn z3_blst plain_memguard InMemoryNullifierStore InMemoryRevocationStore 0
      (Arrived sample_redemption) ?s = (Answered sample_redemption res, ?s)"
    by (auto simp: sample_redemption_def)
  from con_turn [OF a, of 0 0] this have r: "?R [Looks 0] ?s [Answered sample_redemption res]" by simp
  have "\<not> accepted res"
    by (rule concurrent_revocation [OF _ _ r, where i = 0 and q = sample_redemption and until = None])
      (simp_all add: mem_valid_def sample_redemption_def entry_expired_def new_entry_def)
  then show ?thesis using r by blast
qed

end
