(* ===== verification/BodyLimit.thy ===== *)
theory BodyLimit
  imports ApiSamples
begin

section \<open>The limit on request bodies\<close>

text \<open>
  The limited routes read at most 2^20 bytes of a body. Stated as an equivalence: requests that
  agree but for what lies beyond the limit cannot be told apart by anything the server does.
\<close>

text \<open>Two requests of which the same can be read.\<close>

definition same_reading :: "request \<Rightarrow> request \<Rightarrow> bool" where
  "same_reading r r' \<longleftrightarrow> r' = r\<lparr>rq_Body := rq_Body r'\<rparr> \<and> readable r = readable r'"

definition reads_only :: "'s handler \<Rightarrow> bool" where
  "reads_only h \<longleftrightarrow> (\<forall>io r r' w s. same_reading r r' \<longrightarrow> h io r' w s = h io r w s)"

named_theorems reads_only_intros \<open>handlers that read bodies through the limit\<close>

lemma same_reading_parts:
  assumes "same_reading r r'"
  shows "Decode e f r' = Decode e f r" "rq_ctx r' = rq_ctx r" "Query_Get r' n = Query_Get r n"
    "Header_Get r' k = Header_Get r k"
proof -
  have r: "r' = r\<lparr>rq_Body := rq_Body r'\<rparr>" "readable r' = readable r" using assms by (simp_all add: same_reading_def)
  show "Decode e f r' = Decode e f r" by (simp add: Decode_def r(2))
  show "rq_ctx r' = rq_ctx r" "Query_Get r' n = Query_Get r n" "Header_Get r' k = Header_Get r k"
    by (subst r(1), simp add: Query_Get_def Header_Get_def)+
qed

lemma same_reading_ctx: "same_reading r r' \<Longrightarrow> same_reading (r\<lparr>rq_ctx := c\<rparr>) (r'\<lparr>rq_ctx := c\<rparr>)"
  by (cases r; cases r') (auto simp: same_reading_def readable_def split: option.splits)

lemma reads_only_handlers [reads_only_intros]:
  "reads_only (handleIssue D)" "reads_only (handleConsume D)" "reads_only (handleAdminRevoke D)"
  "reads_only (handleAdminUnrevoke D)" "reads_only (handleAdminListRevocations D)"
proof -
  have "h io r' w s = h io r w s" if "same_reading r r'"
    "h \<in> {handleIssue D, handleConsume D, handleAdminRevoke D, handleAdminUnrevoke D, handleAdminListRevocations D}"
    for h io r r' w s
    using that(2) by (elim insertE emptyE) (simp_all only: same_reading_parts [OF that(1)] handleIssue_def
      handleConsume_def handleAdminRevoke_def handleAdminUnrevoke_def handleAdminListRevocations_def)
  then show "reads_only (handleIssue D)" "reads_only (handleConsume D)" "reads_only (handleAdminRevoke D)"
    "reads_only (handleAdminUnrevoke D)" "reads_only (handleAdminListRevocations D)"
    by (simp_all add: reads_only_def)
qed

lemma reads_only_RequireRole [reads_only_intros]: "reads_only h \<Longrightarrow> reads_only (RequireRole D role h)"
proof (unfold reads_only_def, intro allI impI)
  fix io r r' w s
  assume h: "\<forall>io r r' w s. same_reading r r' \<longrightarrow> h io r' w s = h io r w s" and s: "same_reading r r'"
  show "RequireRole D role h io r' w s = RequireRole D role h io r w s"
    using h same_reading_ctx [OF s] by (simp add: RequireRole_def authenticate_def same_reading_parts [OF s] split: sum.split)
qed

definition same_limited :: "bytes \<Rightarrow> bytes \<Rightarrow> bool" where
  "same_limited a b \<longleftrightarrow> take (2 ^ 20) a = take (2 ^ 20) b \<and> (2 ^ 20 < length a \<longleftrightarrow> 2 ^ 20 < length b)"

lemma take_prefix:
  assumes "same_limited a b" and "n \<le> 2 ^ 20"
  shows "take n a = take n b" "n < length a \<longleftrightarrow> n < length b"
proof -
  have t: "take (2 ^ 20) a = take (2 ^ 20) b" using assms(1) by (simp add: same_limited_def)
  show "take n a = take n b" using arg_cong [OF t, of "take n"] assms(2) by (simp add: min_absorb1)
  have "min (length a) (2 ^ 20) = min (length b) (2 ^ 20)" using arg_cong [OF t, of length] by simp
  then show "n < length a \<longleftrightarrow> n < length b" using assms by (auto simp: same_limited_def min_def split: if_splits)
qed

lemma limited_reading:
  assumes "same_limited b (rq_Body r)"
  shows "same_reading (MaxBytesReader (2 ^ 20) r) (MaxBytesReader (2 ^ 20) (r\<lparr>rq_Body := b\<rparr>))"
  using take_prefix [OF assms] by (cases r) (auto simp: same_reading_def MaxBytesReader_def readable_def split: option.splits)

lemma logged_same:
  assumes "\<And>c w s. h io (r\<lparr>rq_Body := b, rq_ctx := c\<rparr>) w s = h io (r\<lparr>rq_ctx := c\<rparr>) w s"
  shows "RecoveryMiddleware (LoggerMiddleware h) io (r\<lparr>rq_Body := b\<rparr>) w s = RecoveryMiddleware (LoggerMiddleware h) io r w s"
  by (cases "WithRequestID io (rq_ctx r)")
    (auto simp: RecoveryMiddleware_def LoggerMiddleware_def assms Let_def split_beta)

lemma client_ip_body: "client_ip (r\<lparr>rq_Body := b\<rparr>) = client_ip r"
  by (simp add: client_ip_def Header_Get_def Let_def cong: option.case_cong)

lemma limited_same:
  assumes "reads_only h" and "same_limited b (rq_Body r)"
  shows "limited D h io (r\<lparr>rq_Body := b\<rparr>) w s = limited D h io r w s"
proof -
  have c: "r\<lparr>rq_ctx := c, rq_Body := b\<rparr> = r\<lparr>rq_Body := b, rq_ctx := c\<rparr>" for c by (cases r) simp
  have "h io (MaxBytesReader (2 ^ 20) (r\<lparr>rq_Body := b, rq_ctx := c\<rparr>)) w s =
      h io (MaxBytesReader (2 ^ 20) (r\<lparr>rq_ctx := c\<rparr>)) w s" for c w s
    using assms(1) limited_reading [of b "r\<lparr>rq_ctx := c\<rparr>", unfolded c] assms(2) unfolding reads_only_def by simp
  then show ?thesis
    unfolding limited_def
    by (intro logged_same) (simp add: RateLimitMiddleware_def BodyLimitMiddleware_def client_ip_body Let_def split_beta)
qed

text \<open>
  C19: the limit on request bodies is enforced. On every route but the demo store the response,
  the state of the server and whether there is a response do not depend on what a request body
  holds beyond its first 2^20 bytes.
\<close>

theorem body_limit_enforced:
  assumes "rq_Path r \<noteq> ''/demo/store''" and "same_limited b (rq_Body r)"
  shows "ServeHTTP D io (r\<lparr>rq_Body := b\<rparr>) w s = ServeHTTP D io r w s"
proof (cases "mux_find (routes D (srv_demoStore s \<noteq> None)) (rq_Method r) (rq_Path r)")
  case None
  then show ?thesis by (simp add: ServeHTTP_def Let_def)
next
  case (Some h)
  have "h io (r\<lparr>rq_Body := b\<rparr>) w s = h io r w s"
    using mux_find_split [OF Some] assms(1)
    by (elim disjE conjE)
      (simp_all add: limited_same [OF _ assms(2)] reads_only_intros handleHealth_def metricsHandler_def
        logged_same handleRetrieveCredential_def Query_Get_def)
  then show ?thesis using Some by (simp add: ServeHTTP_def Let_def)
qed

theorem body_limit_enforced_witness:
  "let r = sample_request ''POST'' ''/v1/credential/consume'' [];
       big = replicate (2 ^ 20) (CHR '' '') @ [CHR ''x'']
   in ServeHTTP sample_deps sample_io (r\<lparr>rq_Body := big @ [CHR ''y'']\<rparr>) fresh_writer sample_server =
     ServeHTTP sample_deps sample_io (r\<lparr>rq_Body := big\<rparr>) fresh_writer sample_server"
proof -
  let ?big = "replicate (2 ^ 20) (CHR '' '') @ [CHR ''x'']"
    and ?r = "sample_request ''POST'' ''/v1/credential/consume'' []"
  have "same_limited (?big @ [CHR ''y'']) (rq_Body (?r\<lparr>rq_Body := ?big\<rparr>))" by (simp add: same_limited_def)
  moreover have "rq_Path (?r\<lparr>rq_Body := ?big\<rparr>) \<noteq> ''/demo/store''" by (simp add: sample_request_def)
  ultimately show ?thesis
    using body_limit_enforced [of "?r\<lparr>rq_Body := ?big\<rparr>" "?big @ [CHR ''y'']" sample_deps sample_io fresh_writer sample_server]
    by (simp add: Let_def)
qed

end
