(* ===== verification/Logger.thy ===== *)
theory Logger
  imports Http
begin

section \<open>Loggers and contexts (pkg/logger, and the lines of pkg/errors)\<close>

text \<open>
  Log output decides nothing in the program, so the other theories leave the logger of a context
  and the lines it writes out. Here both are added: \<open>logger_context\<close> extends the context by the
  logger that \<open>WithLogger\<close> attaches, a logger is the list of fields every line starts with, and
  the lines written are part of the state. What a logger does with a line is zerolog's; a line is
  its level, its fields as texts and its message.
\<close>

subsection \<open>Levels and lines\<close>

datatype level = TraceLevel | DebugLevel | InfoLevel | WarnLevel | ErrorLevel | FatalLevel

fun level_rank :: "level \<Rightarrow> nat" where
  "level_rank TraceLevel = 0"
| "level_rank DebugLevel = 1"
| "level_rank InfoLevel = 2"
| "level_rank WarnLevel = 3"
| "level_rank ErrorLevel = 4"
| "level_rank FatalLevel = 5"

lemma level_rank_inject: "level_rank a = level_rank b \<longleftrightarrow> a = b"
  by (cases a; cases b) simp_all

text \<open>Levels are ordered by severity; the global level of the library drops the lines below it.\<close>

instantiation level :: linorder
begin

definition less_eq_level :: "level \<Rightarrow> level \<Rightarrow> bool" where
  "less_eq_level a b \<longleftrightarrow> level_rank a \<le> level_rank b"

definition less_level :: "level \<Rightarrow> level \<Rightarrow> bool" where
  "less_level a b \<longleftrightarrow> level_rank a < level_rank b"

instance
  by standard (auto simp: less_eq_level_def less_level_def level_rank_inject)

end

type_synonym log_fields = "(string \<times> string) list"

record log_event =
  ev_Level :: level
  ev_Fields :: log_fields

record log_line = log_event +
  ln_Message :: string

text \<open>
  What the lines depend on beside the program's data: the global level, the fields of the global
  logger, and the texts of a duration, a panic value, a failed encoding and a failed write.
\<close>

record log_env =
  le_level :: level
  le_global :: log_fields
  le_duration :: string
  le_panic :: string
  le_encode :: goerr
  le_write :: goerr

definition Msg :: "log_env \<Rightarrow> log_event \<Rightarrow> string \<Rightarrow> log_line list \<Rightarrow> log_line list" where
  "Msg E ev msg out =
     (if le_level E \<le> ev_Level ev
      then out @ [\<lparr> ev_Level = ev_Level ev, ev_Fields = ev_Fields ev, ln_Message = msg \<rparr>] else out)"

text \<open>The chained methods of an event: a field, or the error unless it is nil.\<close>

definition ev_Str :: "string \<Rightarrow> string \<Rightarrow> log_event \<Rightarrow> log_event" where
  "ev_Str k v ev = ev\<lparr>ev_Fields := ev_Fields ev @ [(k, v)]\<rparr>"

definition ev_Err :: "goerr option \<Rightarrow> log_event \<Rightarrow> log_event" where
  "ev_Err err ev = (case err of None \<Rightarrow> ev | Some e \<Rightarrow> ev_Str ''error'' (error_text e) ev)"

subsection \<open>Contexts with a logger\<close>

record logger_context = go_context +
  cx_logger :: "log_fields option"

definition plain_ctx :: "logger_context \<Rightarrow> go_context" where
  "plain_ctx ctx = go_context.truncate ctx"

definition WithLogger :: "logger_context \<Rightarrow> log_fields \<Rightarrow> logger_context" where
  "WithLogger ctx logger = ctx\<lparr>cx_logger := Some logger\<rparr>"

definition FromContext :: "log_env \<Rightarrow> logger_context \<Rightarrow> log_fields" where
  "FromContext E ctx = (case cx_logger ctx of Some l \<Rightarrow> l | None \<Rightarrow> le_global E)"

definition Logger_WithRequestID ::
    "log_env \<Rightarrow> io \<Rightarrow> logger_context \<Rightarrow> (logger_context \<times> string) option" where
  "Logger_WithRequestID E io ctx = (case cx_request_id ctx of
       Some rid \<Rightarrow> Some (WithLogger ctx (FromContext E ctx @ [(''request_id'', rid)]), rid)
     | None \<Rightarrow> (case io_uuid io of
         None \<Rightarrow> None
       | Some rid \<Rightarrow>
           let logger = FromContext E ctx @ [(''request_id'', rid)];
               ctx = ctx\<lparr>cx_request_id := Some rid\<rparr>
           in Some (WithLogger ctx logger, rid)))"

definition Logger_With :: "log_env \<Rightarrow> logger_context \<Rightarrow> log_fields \<Rightarrow> logger_context" where
  "Logger_With E ctx fs = ctx\<lparr>cx_logger := Some (FromContext E ctx @ fs)\<rparr>"

definition log_at :: "level \<Rightarrow> log_env \<Rightarrow> logger_context \<Rightarrow> log_event" where
  "log_at lv E ctx = \<lparr> ev_Level = lv, ev_Fields = FromContext E ctx \<rparr>"

definition Trace :: "log_env \<Rightarrow> logger_context \<Rightarrow> log_event" where "Trace E ctx = log_at TraceLevel E ctx"
definition Debug :: "log_env \<Rightarrow> logger_context \<Rightarrow> log_event" where "Debug E ctx = log_at DebugLevel E ctx"
definition Info :: "log_env \<Rightarrow> logger_context \<Rightarrow> log_event" where "Info E ctx = log_at InfoLevel E ctx"
definition Warn :: "log_env \<Rightarrow> logger_context \<Rightarrow> log_event" where "Warn E ctx = log_at WarnLevel E ctx"
definition Error :: "log_env \<Rightarrow> logger_context \<Rightarrow> log_event" where "Error E ctx = log_at ErrorLevel E ctx"
definition Fatal :: "log_env \<Rightarrow> logger_context \<Rightarrow> log_event" where "Fatal E ctx = log_at FatalLevel E ctx"

text \<open>Leaving the logger out gives the context of the other theories.\<close>

lemma WithRequestID_refines:
  "WithRequestID io (plain_ctx ctx) = map_option (map_prod plain_ctx id) (Logger_WithRequestID E io ctx)"
  by (cases ctx) (simp add: plain_ctx_def WithRequestID_def Logger_WithRequestID_def WithLogger_def Let_def
      go_context.truncate_def split: option.splits)

lemma plain_ctx_With [simp]: "plain_ctx (Logger_With E ctx fs) = plain_ctx ctx"
  by (cases ctx) (simp add: plain_ctx_def Logger_With_def go_context.truncate_def)

lemma logger_has_request_id:
  assumes "Logger_WithRequestID E io ctx = Some (ctx', rid)"
  shows "(''request_id'', rid) \<in> set (FromContext E (Logger_With E ctx' fs))" "cx_request_id ctx' = Some rid"
  using assms by (auto simp: Logger_WithRequestID_def WithLogger_def Logger_With_def FromContext_def Let_def
      split: option.splits)

subsection \<open>Logged errors\<close>

text \<open>\<open>New\<close> and \<open>Wrap\<close> of \<open>pkg/errors\<close> write a line and make the error.\<close>

definition errors_New_log :: "log_env \<Rightarrow> logger_context \<Rightarrow> string \<Rightarrow> log_line list \<Rightarrow> goerr \<times> log_line list" where
  "errors_New_log E ctx msg out = (errors_New msg, Msg E (Error E ctx) msg out)"

definition errors_Wrap_log ::
    "log_env \<Rightarrow> logger_context \<Rightarrow> goerr \<Rightarrow> string \<Rightarrow> log_line list \<Rightarrow> goerr \<times> log_line list" where
  "errors_Wrap_log E ctx err msg out = (errors_Wrap err msg, Msg E (ev_Err (Some err) (Error E ctx)) msg out)"

end
