(* ===== verification/RequestLog.thy ===== *)
theory RequestLog
  imports ApiSamples Logger "HOL-Library.Sublist"
begin

section \<open>The lines a request writes (internal/api: middleware.go, response.go, handlers.go)\<close>

text \<open>
  The responses, the middlewares and the handler of redemptions with the lines they log. A
  handler with lines gets the context with its logger beside the request, and the lines written
  so far beside the state. Forgetting logger and lines gives the definitions of \<open>Handlers\<close> and
  \<open>Middleware\<close>, a refinement that is shown one middleware at a time. The lines under the logging
  middleware carry the id of the request, and those of an answered redemption hold nothing of the
  credential.
\<close>

subsection \<open>Responses\<close>

definition respondJSON_log ::
    "log_env \<Rightarrow> logger_context \<Rightarrow> writer \<Rightarrow> nat \<Rightarrow> json option \<Rightarrow> log_line list \<Rightarrow> writer \<times> log_line list" where
  "respondJSON_log E ctx w status data out = (case data of
       None \<Rightarrow> (http_Error ''internal server error'' 500 w,
               Msg E (ev_Err (Some (le_encode E)) (Error E ctx)) ''failed to encode JSON response'' out)
     | Some v \<Rightarrow>
        let w = Header_Set ''Content-Type'' ''application/json'' w;
            w = WriteHeader status w;
            (ok, w) = Write (Marshal v) w
        in (w, if \<not> ok then Msg E (ev_Err (Some (le_write E)) (Error E ctx)) ''failed to write to http reply'' out else out))"

definition respondError_log ::
    "log_env \<Rightarrow> logger_context \<Rightarrow> writer \<Rightarrow> nat \<Rightarrow> string \<Rightarrow> string list \<Rightarrow> log_line list \<Rightarrow> writer \<times> log_line list" where
  "respondError_log E ctx w status msg details out =
     (let w = Header_Set ''Content-Type'' ''application/json'' w;
          w = WriteHeader status w;
          resp = \<lparr> eo_Error = msg, eo_Code = status, eo_Details = '''' \<rparr>;
          resp = (case details of
              d # _ \<Rightarrow> if d \<noteq> '''' then resp\<lparr>eo_Details := d\<rparr> else resp
            | [] \<Rightarrow> resp);
          (ok, w) = Write (Marshal (error_response_json resp) @ [CHR 0x0A]) w
      in if \<not> ok
         then let out = Msg E (ev_Err (Some (le_write E)) (Error E ctx)) ''failed to encode error response'' out
           in (http_Error ''internal server error'' 500 w, out)
         else (w, out))"

definition respondErr_log ::
    "log_env \<Rightarrow> logger_context \<Rightarrow> writer \<Rightarrow> goerr option \<Rightarrow> string \<Rightarrow> log_line list \<Rightarrow> writer \<times> log_line list" where
  "respondErr_log E ctx w err op out =
     (let code = CodeOf err;
          status = HTTPStatus code
      in if 500 \<le> status
         then let out = Msg E (ev_Str ''op'' op (ev_Err err (Error E ctx))) ''server error'' out
           in respondError_log E ctx w status (StatusText status) [] out
         else let out = Msg E (ev_Str ''op'' op (ev_Err err (Warn E ctx))) ''client error'' out
           in respondError_log E ctx w status (case err of Some e \<Rightarrow> error_text e | None \<Rightarrow> '''') [] out)"

lemma fst_respondJSON_log [simp]: "fst (respondJSON_log E ctx w st data out) = respondJSON w st data"
  by (simp add: respondJSON_log_def respondJSON_def Let_def split_beta split: option.splits)

lemma fst_respondError_log [simp]: "fst (respondError_log E ctx w st msg ds out) = respondError w st msg ds"
  by (simp add: respondError_log_def respondError_def Let_def split_beta)

lemma fst_respondErr_log [simp]: "fst (respondErr_log E ctx w err op out) = respondErr w err"
  by (simp add: respondErr_log_def respondErr_def Let_def)

subsection \<open>The middlewares\<close>

type_synonym 's log_handler =
  "io \<Rightarrow> logger_context \<Rightarrow> request \<Rightarrow> writer \<Rightarrow> 's \<Rightarrow> log_line list \<Rightarrow> outcome \<times> writer \<times> 's \<times> log_line list"

definition LoggerMiddleware_log ::
    "log_env \<Rightarrow> ('p1, 'e, 'n, 'r, 'l) server log_handler \<Rightarrow> ('p1, 'e, 'n, 'r, 'l) server log_handler" where
  "LoggerMiddleware_log E next_h io ctx r w s out =
     (let start = io_now io 0
      in (case Logger_WithRequestID E io ctx of
        None \<Rightarrow> (Panicked, w, s, out)
      | Some (ctx, reqID) \<Rightarrow>
        let ctx = Logger_With E ctx [(''method'', rq_Method r), (''path'', rq_Path r), (''remote_addr'', rq_RemoteAddr r)];
            w = Header_Set ''X-Request-Id'' reqID w;
            (oc, rw, s, out) = next_h io ctx (r\<lparr>rq_ctx := plain_ctx ctx\<rparr>) (newResponseWriter w) s out
        in if oc = Returned
           then let out = Msg E (ev_Str ''duration'' (le_duration E) (ev_Str ''status'' (nat_str (Status rw)) (Info E ctx)))
                  ''request completed'' out
             in (Returned, embedded rw,
                 with_metrics (RecordHTTPRequest (rq_Method r) (rq_Path r) (Status rw) (io_now io 9 - start)) s, out)
           else (oc, embedded rw, s, out)))"

definition RateLimitMiddleware_log ::
    "log_env \<Rightarrow> ('p1, 'p2, 's, 'ml, 'e, 'n, 'r, 'l) deps \<Rightarrow> ('p1, 'e, 'n, 'r, 'l) server log_handler \<Rightarrow>
     ('p1, 'e, 'n, 'r, 'l) server log_handler" where
  "RateLimitMiddleware_log E D next_h io ctx r w s out =
     (let (allowed, rl) = Allow (dp_rate D) (io_order io) (io_now io 1) (io_now io 2) (io_now io 3)
            (client_ip r) (srv_rateLimiter s);
          s = s\<lparr>srv_rateLimiter := rl\<rparr>
      in if \<not> allowed
         then let (w, out) = respondErr_log E ctx w (Some (apperr_New CodeTooManyRequest ''rate limit exceeded''))
                ''ratelimit'' out
           in (Returned, w, s, out)
         else next_h io ctx r w s out)"

definition RecoveryMiddleware_log :: "log_env \<Rightarrow> 's log_handler \<Rightarrow> 's log_handler" where
  "RecoveryMiddleware_log E next_h io ctx r w s out =
     (case next_h io ctx r w s out of
        (Panicked, w, s, out) \<Rightarrow>
          let out = Msg E (ev_Str ''panic'' (le_panic E) (Error E ctx)) ''panic recovered'' out;
              (w, out) = respondErr_log E ctx w (Some (apperr_New CodeInternal ''internal server error'')) ''recovery'' out
          in (Returned, w, s, out)
      | (Returned, w, s, out) \<Rightarrow> (Returned, w, s, out)
      | (Hung, w, s, out) \<Rightarrow> (Hung, w, s, out))"

definition BodyLimitMiddleware_log :: "int \<Rightarrow> 's log_handler \<Rightarrow> 's log_handler" where
  "BodyLimitMiddleware_log limit next_h io ctx r w s out = next_h io ctx (MaxBytesReader limit r) w s out"

definition limited_log ::
    "log_env \<Rightarrow> ('p1, 'p2, 's, 'ml, 'e, 'n, 'r, 'l) deps \<Rightarrow> ('p1, 'e, 'n, 'r, 'l) server log_handler \<Rightarrow>
     ('p1, 'e, 'n, 'r, 'l) server log_handler" where
  "limited_log E D h = RecoveryMiddleware_log E (LoggerMiddleware_log E
     (RateLimitMiddleware_log E D (BodyLimitMiddleware_log (2 ^ 20) h)))"

subsection \<open>The handler of redemptions\<close>

text \<open>\<open>Consume\<close> itself logs nothing.\<close>

definition handleConsume_log ::
    "log_env \<Rightarrow> ('p1, 'p2, 's, 'ml, 'e, 'n, 'r, 'l) deps \<Rightarrow> ('p1, 'e, 'n, 'r, 'l) server log_handler" where
  "handleConsume_log E D io ctx r w s out =
     (let fail = (\<lambda>err out. respondErr_log E ctx w (Some err) ''consume'' out);
          reply = (\<lambda>status v. respondJSON_log E ctx w status (Some v) out)
      in (case Decode (dp_decode_error D) decode_consume r of
        Inl err \<Rightarrow>
          let out = Msg E (ev_Err (Some err) (Warn E ctx)) ''invalid consume request'' out;
              s = with_metrics (RecordConsumption ''failure'' ''unknown'' ''unknown'') s;
              (w, out) = fail (apperr_Wrap CodeInvalidArgument (Some err) ''invalid request'') out
          in (Returned, w, s, out)
      | Inr req \<Rightarrow>
        let cls = cq_CredentialClass req; epoch = cq_KeyEpoch req
        in (case ValidateConsumeRequest (dp_validator D) (io_now io 5) req of
        Some err \<Rightarrow>
          let out = Msg E (ev_Err (Some err) (Warn E ctx)) ''invalid consume request data'' out;
              s = with_metrics (RecordConsumption ''failure'' cls epoch) s;
              (w, out) = fail (apperr_New CodeInvalidArgument ''invalid request'') out
          in (Returned, w, s, out)
      | None \<Rightarrow>
        let (result, svc) = Consume (dp_blst D) (dp_memguard D) (dp_nullifiers D) (dp_revocations D)
              (io_now io 6) (io_now io 7) (rq_ctx r) (cq_UnblindedSignature req) (cq_Witness req) cls epoch
              (srv_credentialService s);
            s = set_service svc s
        in (case result of
        Inl err \<Rightarrow>
          let s = with_metrics (RecordConsumption ''failure'' cls epoch) s;
              (w, out) = fail (consume_error err) out
          in (Returned, w, s, out)
      | Inr res \<Rightarrow> (case cr_Status res of
          ConsumeRevoked \<Rightarrow>
            let s = with_metrics (RecordConsumption ''revoked'' cls epoch) s;
                (w, out) = reply 409 (consume_response_json False ''credential revoked'')
            in (Returned, w, s, out)
        | ConsumeDuplicate \<Rightarrow>
            let s = with_metrics (RecordConsumption ''duplicate'' cls epoch) s;
                (w, out) = reply 409 (consume_response_json False (cr_Error res))
            in (Returned, w, s, out)
        | ConsumeAccepted \<Rightarrow>
            let s = with_metrics (RecordConsumption ''success'' cls epoch) s;
                (w, out) = reply 200 (consume_response_json True '''')
            in (Returned, w, s, out)
        | ConsumeOther other \<Rightarrow>
            let s = with_metrics (RecordConsumption ''failure'' cls epoch) s;
                (w, out) = fail (apperr_New CodeInternal ''unknown consume status'') out
            in (Returned, w, s, out))))))"

subsection \<open>The lines change nothing\<close>

text \<open>\<open>hl\<close> is \<open>h\<close> with lines: forgetting logger and lines of a call of \<open>hl\<close> gives the call of \<open>h\<close>.\<close>

definition without_lines :: "outcome \<times> writer \<times> 's \<times> log_line list \<Rightarrow> outcome \<times> writer \<times> 's" where
  "without_lines x = (fst x, fst (snd x), fst (snd (snd x)))"

lemma without_lines_simps [simp]: "without_lines (oc, w, s, out) = (oc, w, s)"
  by (simp add: without_lines_def)

definition refines_handler :: "'s log_handler \<Rightarrow> 's handler \<Rightarrow> bool" where
  "refines_handler hl h \<longleftrightarrow>
     (\<forall>io ctx r w s out. rq_ctx r = plain_ctx ctx \<longrightarrow> without_lines (hl io ctx r w s out) = h io r w s)"

named_theorems middleware_refines \<open>refinement, one middleware at a time\<close>

lemma BodyLimit_refines [middleware_refines]:
  "refines_handler hl h \<Longrightarrow> refines_handler (BodyLimitMiddleware_log n hl) (BodyLimitMiddleware n h)"
  by (simp add: refines_handler_def BodyLimitMiddleware_log_def BodyLimitMiddleware_def MaxBytesReader_def)

lemma RateLimit_refines [middleware_refines]:
  "refines_handler hl h \<Longrightarrow> refines_handler (RateLimitMiddleware_log E D hl) (RateLimitMiddleware D h)"
  by (simp add: refines_handler_def RateLimitMiddleware_log_def RateLimitMiddleware_def Let_def split_beta)

lemma Recovery_refines [middleware_refines]:
  assumes "refines_handler hl h"
  shows "refines_handler (RecoveryMiddleware_log E hl) (RecoveryMiddleware h)"
  unfolding refines_handler_def
proof (intro allI impI)
  fix io ctx w s out and r :: request
  assume r: "rq_ctx r = plain_ctx ctx"
  obtain oc w1 s1 out1 where hl: "hl io ctx r w s out = (oc, w1, s1, out1)" by (metis prod_cases4)
  then have "h io r w s = (oc, w1, s1)" using assms r unfolding refines_handler_def by (metis without_lines_simps)
  then show "without_lines (RecoveryMiddleware_log E hl io ctx r w s out) = RecoveryMiddleware h io r w s"
    by (cases oc) (simp_all add: hl RecoveryMiddleware_log_def RecoveryMiddleware_def Let_def split_beta)
qed

lemma Logger_refines [middleware_refines]:
  assumes "refines_handler hl h"
  shows "refines_handler (LoggerMiddleware_log E hl) (LoggerMiddleware h)"
  unfolding refines_handler_def
proof (intro allI impI)
  fix io ctx w s out and r :: request
  assume r: "rq_ctx r = plain_ctx ctx"
  show "without_lines (LoggerMiddleware_log E hl io ctx r w s out) = LoggerMiddleware h io r w s"
  proof (cases "Logger_WithRequestID E io ctx")
    case (Some p)
    obtain ctx' rid where p: "p = (ctx', rid)" by (cases p)
    let ?c = "Logger_With E ctx' [(''method'', rq_Method r), (''path'', rq_Path r), (''remote_addr'', rq_RemoteAddr r)]"
    let ?w = "newResponseWriter (Header_Set ''X-Request-Id'' rid w)"
    have "h io (r\<lparr>rq_ctx := plain_ctx ctx'\<rparr>) ?w s = without_lines (hl io ?c (r\<lparr>rq_ctx := plain_ctx ctx'\<rparr>) ?w s out)"
      using assms by (simp add: refines_handler_def)
    then show ?thesis
      using WithRequestID_refines [of io ctx E] r
      by (simp add: Some p LoggerMiddleware_log_def LoggerMiddleware_def Let_def without_lines_def split_beta)
  qed (use WithRequestID_refines [of io ctx E] r in
      \<open>simp add: LoggerMiddleware_log_def LoggerMiddleware_def\<close>)
qed

lemma limited_refines:
  "refines_handler hl h \<Longrightarrow> refines_handler (limited_log E D hl) (limited D h)"
  unfolding limited_log_def limited_def by (intro middleware_refines)

lemma handleConsume_refines: "refines_handler (handleConsume_log E D) (handleConsume D)"
  by (auto simp: refines_handler_def handleConsume_log_def handleConsume_def bad_request_def Let_def split_beta
      split: sum.splits option.splits consume_status.splits)

subsection \<open>The id of the request\<close>

text \<open>A handler logs through its context when each of its lines starts with the fields of its logger.\<close>

definition logs_through :: "log_env \<Rightarrow> 's log_handler \<Rightarrow> bool" where
  "logs_through E hl \<longleftrightarrow> (\<forall>io ctx r w s out. \<exists>new. snd (snd (snd (hl io ctx r w s out))) = out @ new \<and>
     (\<forall>l \<in> set new. prefix (FromContext E ctx) (ev_Fields l)))"

definition adds_through :: "log_env \<Rightarrow> logger_context \<Rightarrow> log_line list \<Rightarrow> log_line list \<Rightarrow> bool" where
  "adds_through E ctx out out' \<longleftrightarrow> (\<exists>new. out' = out @ new \<and> (\<forall>l \<in> set new. prefix (FromContext E ctx) (ev_Fields l)))"

lemma logs_through_iff:
  "logs_through E hl \<longleftrightarrow> (\<forall>io ctx r w s out. adds_through E ctx out (snd (snd (snd (hl io ctx r w s out)))))"
  by (simp add: logs_through_def adds_through_def)

lemma adds_through_refl [simp]: "adds_through E ctx out out"
  by (simp add: adds_through_def)

lemma adds_through_Msg:
  "adds_through E ctx out out' \<Longrightarrow> prefix (FromContext E ctx) (ev_Fields ev) \<Longrightarrow> adds_through E ctx out (Msg E ev m out')"
  by (auto simp: adds_through_def Msg_def)

lemma event_fields [simp]:
  "prefix l (ev_Fields ev) \<Longrightarrow> prefix l (ev_Fields (ev_Str k v ev))"
  "prefix l (ev_Fields ev) \<Longrightarrow> prefix l (ev_Fields (ev_Err err ev))"
  "prefix (FromContext E ctx) (ev_Fields (Error E ctx))" "prefix (FromContext E ctx) (ev_Fields (Warn E ctx))"
  "prefix (FromContext E ctx) (ev_Fields (Info E ctx))"
  by (auto simp: ev_Str_def ev_Err_def Error_def Warn_def Info_def log_at_def split: option.splits)

lemma adds_through_responses:
  "adds_through E ctx out out' \<Longrightarrow> adds_through E ctx out (snd (respondJSON_log E ctx w st data out'))"
  "adds_through E ctx out out' \<Longrightarrow> adds_through E ctx out (snd (respondErr_log E ctx w err op out'))"
  by (auto simp: respondJSON_log_def respondErr_log_def respondError_log_def Let_def split_beta adds_through_Msg
      split: option.splits)

lemma RateLimit_logs_through: "logs_through E hl \<Longrightarrow> logs_through E (RateLimitMiddleware_log E D hl)"
  by (simp add: logs_through_iff RateLimitMiddleware_log_def Let_def split_beta adds_through_responses)

lemma BodyLimit_logs_through: "logs_through E hl \<Longrightarrow> logs_through E (BodyLimitMiddleware_log n hl)"
  by (simp add: logs_through_iff BodyLimitMiddleware_log_def)

lemma handleConsume_logs_through: "logs_through E (handleConsume_log E D)"
  by (auto simp: logs_through_iff handleConsume_log_def Let_def split_beta adds_through_responses adds_through_Msg
      split: sum.splits option.splits consume_status.splits)

text \<open>
  Every line that is written while a request is under the logging middleware carries the
  request's id, the one of the response's header.
\<close>

lemma request_lines_carry_id:
  assumes "logs_through E hl" and id: "Logger_WithRequestID E io ctx = Some (ctx', rid)"
  shows "\<exists>new. snd (snd (snd (LoggerMiddleware_log E hl io ctx r w s out))) = out @ new \<and>
    (\<forall>l \<in> set new. (''request_id'', rid) \<in> set (ev_Fields l))"
proof -
  let ?c = "Logger_With E ctx' [(''method'', rq_Method r), (''path'', rq_Path r), (''remote_addr'', rq_RemoteAddr r)]"
  have "adds_through E ?c out (snd (snd (snd (LoggerMiddleware_log E hl io ctx r w s out))))"
    using assms(1) by (simp add: logs_through_iff LoggerMiddleware_log_def id Let_def split_beta adds_through_Msg)
  then show ?thesis
    using logger_has_request_id(1) [OF id] set_mono_prefix unfolding adds_through_def by blast
qed

text \<open>
  The line of a recovered panic is written outside of it, with the context the request came
  with: with a global logger without fields it carries no request id, although the response
  names one.
\<close>

lemma panic_line_without_id:
  assumes "cx_logger ctx = None" and "le_global E = []" and "bw_writable (base_of w')"
    and "next_h io ctx r w s out = (Panicked, w', s', out')"
  shows "\<exists>new. snd (snd (snd (RecoveryMiddleware_log E next_h io ctx r w s out))) = out' @ new \<and>
    (\<forall>l \<in> set new. ''request_id'' \<notin> fst ` set (ev_Fields l))"
  using assms
  by (simp add: RecoveryMiddleware_log_def respondErr_log_def respondError_log_def Let_def split_beta Msg_def ev_Str_def
      ev_Err_def Error_def log_at_def FromContext_def)

subsection \<open>Answered redemptions\<close>

lemma writable_ops [simp]:
  "fst (base_Write bs b) = bw_writable b" "bw_writable (snd (base_Write bs b)) = bw_writable b"
  "bw_writable (base_of (WriteHeader st w)) = bw_writable (base_of w)"
  "bw_writable (base_of (newResponseWriter w)) = bw_writable (base_of w)"
  "fst (Write bs w) = bw_writable (base_of w)"
proof -
  show "fst (base_Write bs b) = bw_writable b" "bw_writable (snd (base_Write bs b)) = bw_writable b" for b
    by (simp_all add: base_Write_def base_WriteHeader_def Let_def split: option.splits)
  then show "fst (Write bs w) = bw_writable (base_of w)"
    by (induction w) (simp_all add: Let_def split_beta)
  show "bw_writable (base_of (WriteHeader st w)) = bw_writable (base_of w)"
    by (induction w) (simp_all add: base_WriteHeader_def split: option.splits)
qed (simp add: newResponseWriter_def)

text \<open>The status of a refused redemption is never that of an answered one.\<close>

lemma Consume_error_status:
  "fst (Consume B M NI RI t1 t2 ctx sh wh cls ep s) = Inl err \<Longrightarrow>
    HTTPStatus (CodeOf (Some (consume_error err))) \<in> {400, 500, 503}"
  using Consume_error_codes [of B M NI RI t1 t2 ctx sh wh cls ep s err] by auto

lemma handleConsume_log_answered:
  assumes "wrapped w" "sent_status w = None" "bw_writable (base_of w)"
    and "handleConsume_log E D io ctx r w s out = (oc, w', s', out')" and "sent_status w' \<in> {Some 200, Some 409}"
  shows "out' = out"
proof -
  have fail: "sent_status (respondErr w (Some (consume_error err))) \<notin> {Some 200, Some 409}"
    if "fst (Consume B M NI RI t1 t2 c sh wh cls ep svc) = Inl err" for B M NI RI t1 t2 c sh wh cls ep svc err
    using Consume_error_status [OF that] assms(1,2) by (simp add: respond_status) auto
  have reply: "snd (respondJSON_log E ctx w st (Some v) out) = out" for st v
    using assms(3) by (simp add: respondJSON_log_def Let_def split_beta)
  show ?thesis
    using assms(4,5) fail reply assms(1,2)
    by (fastforce simp: handleConsume_log_def Let_def split_beta respond_status apperr_New_def apperr_Wrap_def
      split: sum.splits option.splits consume_status.splits)
qed

lemma handleConsume_log_returns: "fst (handleConsume_log E D io ctx r w s out) = Returned"
  by (simp add: handleConsume_log_def Let_def split_beta split: sum.splits option.splits consume_status.splits)

text \<open>What the handler of a limited route is called with, and how its answer is passed on.\<close>

lemma limited_log_served:
  assumes id: "Logger_WithRequestID E io ctx = Some (ctx', rid)"
    and c: "c = Logger_With E ctx' [(''method'', rq_Method r), (''path'', rq_Path r), (''remote_addr'', rq_RemoteAddr r)]"
    and rl: "rate_limited D io r s = (True, s1)"
    and h: "hl io c (inner_request (plain_ctx ctx') r) (inner_writer rid w) s1 out = (Returned, rw, s2, out2)"
  shows "limited_log E D hl io ctx r w s out = (Returned, embedded rw, recorded io r (Status rw) s2,
    Msg E (ev_Str ''duration'' (le_duration E) (ev_Str ''status'' (nat_str (Status rw)) (Info E c))) ''request completed'' out2)"
  using assms
  by (simp add: limited_log_def RecoveryMiddleware_log_def LoggerMiddleware_log_def RateLimitMiddleware_log_def
      BodyLimitMiddleware_log_def rate_limited_def recorded_def inner_request_def inner_writer_def Let_def split_beta)

subsection \<open>Property\<close>

text \<open>
  C27: the log of a redemption says nothing about the credential. A redemption that is answered
  with 200 or 409, accepted, duplicate or revoked, writes one line at level info and no other; its
  fields are those of the global logger, the request id, the method, path and peer address of
  the request, the status and the duration. So two redemptions that agree on these write the same
  lines, whatever signature, witness, class and epoch they present. The lines are beside the
  response: it is the one of the service without logging.
\<close>

theorem redemption_log_says_nothing:
  assumes ctx: "rq_ctx r = plain_ctx ctx" and w: "wrapped w" "sent_status w = None" "bw_writable (base_of w)"
    and L: "limited_log E D (handleConsume_log E D) io ctx r w s out = (oc, w', s', out')"
    and st: "sent_status w' = Some st" "st \<in> {200, 409}"
  shows "limited D (handleConsume D) io r w s = (oc, w', s') \<and>
    (\<exists>ctx' rid. Logger_WithRequestID E io ctx = Some (ctx', rid) \<and>
      out' = Msg E \<lparr> ev_Level = InfoLevel, ev_Fields = FromContext E ctx @
        [(''request_id'', rid), (''method'', rq_Method r), (''path'', rq_Path r), (''remote_addr'', rq_RemoteAddr r),
         (''status'', nat_str st), (''duration'', le_duration E)] \<rparr> ''request completed'' out)"
proof -
  have R: "limited D (handleConsume D) io r w s = (oc, w', s')"
    using limited_refines [OF handleConsume_refines] ctx L unfolding refines_handler_def by (metis without_lines_simps)
  have id: "WithRequestID io (rq_ctx r) = map_option (map_prod plain_ctx id) (Logger_WithRequestID E io ctx)"
    using WithRequestID_refines ctx by simp
  show ?thesis
  proof (cases rule: limited_cases [of io r D "handleConsume D" w s])
    case no_id
    then show ?thesis using R st w by (auto simp: respond_status)
  next
    case (denied c reqID s1)
    then show ?thesis using R st w(2) inner_writer_ok(1) [OF w(1,2)] by (auto simp: respond_status inner_writer_ok(2))
  next
    case (served c reqID s1 o2 rw s2)
    from id served(1) obtain ctx' where i: "Logger_WithRequestID E io ctx = Some (ctx', reqID)" "c = plain_ctx ctx'"
      by (cases "Logger_WithRequestID E io ctx") auto
    let ?c = "Logger_With E ctx' [(''method'', rq_Method r), (''path'', rq_Path r), (''remote_addr'', rq_RemoteAddr r)]"
    let ?q = "inner_request (plain_ctx ctx') r" and ?w = "inner_writer reqID w"
    obtain oc1 rw1 s1' out1 where h1: "handleConsume_log E D io ?c ?q ?w s1 out = (oc1, rw1, s1', out1)" by (metis prod_cases4)
    have q: "rq_ctx ?q = plain_ctx ?c" by (simp add: inner_request_def MaxBytesReader_def)
    have "handleConsume D io ?q ?w s1 = (oc1, rw1, s1')"
      using handleConsume_refines [unfolded refines_handler_def, rule_format, OF q] h1 by (metis without_lines_simps)
    moreover have "oc1 = Returned" using handleConsume_log_returns h1 by (metis fst_conv)
    ultimately have h: "handleConsume_log E D io ?c ?q ?w s1 out = (Returned, rw, s2, out1)" "o2 = Returned"
      using h1 served(3) i(2) by simp_all
    have L': "(oc, w', s', out') = (Returned, embedded rw, recorded io r (Status rw) s2,
        Msg E (ev_Str ''duration'' (le_duration E) (ev_Str ''status'' (nat_str (Status rw)) (Info E ?c))) ''request completed'' out1)"
      using limited_log_served [OF i(1) refl served(2), where hl = "handleConsume_log E D", OF h(1)] L by simp
    have rw: "sent_status rw = Some st" using L' st(1) by simp
    have "Status rw = st"
      using Status_inner [OF properD [OF proper_handlers(2) served(3)] w(1,2) rw] .
    moreover have "out1 = out"
      using handleConsume_log_answered [OF inner_writer_ok(1) [OF w(1,2)] _ _ h(1)] inner_writer_ok(2) [of reqID w] w rw st(2)
      by (simp add: inner_writer_def)
    moreover have "FromContext E ?c = FromContext E ctx @ [(''request_id'', reqID), (''method'', rq_Method r), (''path'', rq_Path r),
        (''remote_addr'', rq_RemoteAddr r)]"
      using i(1) by (auto simp: Logger_With_def FromContext_def Logger_WithRequestID_def WithLogger_def Let_def split: option.splits)
    ultimately show ?thesis
      using R L' i(1) by (auto simp: ev_Str_def Info_def log_at_def)
  qed
qed

subsection \<open>A logged redemption\<close>

definition sample_log_env :: log_env where
  "sample_log_env = \<lparr> le_level = InfoLevel, le_global = [(''service'', ''bv'')], le_duration = ''1'', le_panic = ''nil'',
     le_encode = Errorf ''unsupported'', le_write = Errorf ''broken pipe'' \<rparr>"

definition sample_logger_ctx :: logger_context where
  "sample_logger_ctx = go_context.extend background \<lparr> cx_logger = None \<rparr>"

definition sample_revoked_server :: "(z3, bytes, nullifier_mem, revocation_mem, int) server" where
  "sample_revoked_server = set_revocationStore
     (snd (mem_RevokeClass 0 ''gold'' ''2026-01'' ''leak'' ''admin'' None NewInMemoryRevocationStore)) sample_server"

lemma plain_sample_ctx: "plain_ctx sample_logger_ctx = background"
  by (simp add: plain_ctx_def sample_logger_ctx_def go_context.truncate_def go_context.extend_def background_def)

lemma sample_revoked_consume:
  "fst (Consume z3_blst plain_memguard InMemoryNullifierStore InMemoryRevocationStore t1 t2 ctx sh wh ''gold'' ''2026-01''
     (srv_credentialService sample_revoked_server)) = Inr \<lparr> cr_Status = ConsumeRevoked,
       cr_Error = revoked_message (Some (new_entry 0 ''gold'' ''2026-01'' ''leak'' ''admin'' None)) \<rparr>"
  by (simp add: Consume_def consume_admit_def set_revocationStore_def IsEpochSupported_def InMemoryRevocationStore_def
      mem_IsRevoked_def mem_RevokeClass_def entry_expired_def new_entry_def sample_revoked_server_def)

theorem redemption_log_says_nothing_witness:
  "let r = sample_request ''POST'' ''/v1/credential/consume'' consume_body;
       (oc, w', s', out') = limited_log sample_log_env sample_deps (handleConsume_log sample_log_env sample_deps)
         sample_io sample_logger_ctx r fresh_writer sample_revoked_server []
   in sent_status w' = Some 409 \<and> limited sample_deps (handleConsume sample_deps) sample_io r fresh_writer sample_revoked_server
         = (oc, w', s') \<and>
      out' = [\<lparr> ev_Level = InfoLevel, ev_Fields = [(''service'', ''bv''), (''request_id'', ''id''), (''method'', ''POST''),
        (''path'', ''/v1/credential/consume''), (''remote_addr'', ''8.8.8.8''), (''status'', ''409''), (''duration'', ''1'')],
        ln_Message = ''request completed'' \<rparr>]"
proof -
  let ?r = "sample_request ''POST'' ''/v1/credential/consume'' consume_body" and ?s = sample_revoked_server
  have rl: "srv_rateLimiter ?s = NewRateLimiter 0 0 0" by (simp add: sample_revoked_server_def set_revocationStore_def)
  have d: "Decode e decode_consume (inner_request c ?r) = Inr sample_consume" for e c
    by (rule sample_consume_decode) simp_all
  have "\<exists>s2. handleConsume sample_deps sample_io (inner_request sample_ctx ?r) (inner_writer ''id'' fresh_writer) ?s =
      (Returned, respondJSON (inner_writer ''id'' fresh_writer) 409 (Some (consume_response_json False ''credential revoked'')), s2)"
    by (simp add: handleConsume_def d sample_consume_valid Let_def split_beta sample_revoked_consume)
  then obtain s2 where R: "limited sample_deps (handleConsume sample_deps) sample_io ?r fresh_writer ?s =
      (Returned, embedded (respondJSON (inner_writer ''id'' fresh_writer) 409 (Some (consume_response_json False ''credential revoked''))), s2)"
    using sample_limited [OF rl] by blast
  obtain oc w' s' out' where L: "limited_log sample_log_env sample_deps (handleConsume_log sample_log_env sample_deps)
      sample_io sample_logger_ctx ?r fresh_writer ?s [] = (oc, w', s', out')" by (metis prod_cases4)
  have c: "rq_ctx ?r = plain_ctx sample_logger_ctx" by (simp add: plain_sample_ctx sample_request_def)
  have e: "limited sample_deps (handleConsume sample_deps) sample_io ?r fresh_writer ?s = (oc, w', s')"
    using limited_refines [OF handleConsume_refines] c L unfolding refines_handler_def by (metis without_lines_simps)
  have st: "sent_status w' = Some 409" using e R fresh_inner_writer by (auto simp: respond_status)
  have w: "wrapped fresh_writer" "sent_status fresh_writer = None" "bw_writable (base_of fresh_writer)"
    by (simp_all add: sent_status_def fresh_writer_def)
  have "nat_str 409 = ''409''" by code_simp
  moreover have "Logger_WithRequestID sample_log_env sample_io sample_logger_ctx = Some (c, i) \<Longrightarrow> i = ''id''" for c i
    by (simp add: Logger_WithRequestID_def sample_logger_ctx_def go_context.extend_def background_def sample_io_def Let_def)
  ultimately show ?thesis
    using redemption_log_says_nothing [OF c w L st] L st
    by (auto simp: Msg_def sample_log_env_def sample_logger_ctx_def FromContext_def go_context.extend_def background_def
        sample_request_def)
qed

end
