(* ===== verification/ServerLog.thy ===== *)
theory ServerLog
  imports RequestLog
begin

section \<open>The server with its log (internal/api, internal/service: credentials.go)\<close>

text \<open>
  The remaining handlers, the issuing of a credential and the route table with the lines they
  log, and with them \<open>ServeHTTP_log\<close>. It refines \<open>ServeHTTP\<close>: what the server answers and keeps
  does not depend on its log. A line that a request writes on a logged route carries the id of
  the request, unless it belongs to a recovered panic.
\<close>

subsection \<open>Issuing\<close>

definition Issue_log ::
    "log_env \<Rightarrow> ('p1, 'p2, 's, 'ml) blst \<Rightarrow> 'e memguard \<Rightarrow> bytes result \<Rightarrow> logger_context \<Rightarrow> string \<Rightarrow> string \<Rightarrow>
     ('p1, 'e, 'n, 'r) service \<Rightarrow> log_line list \<Rightarrow> issue_result result \<times> ('p1, 'e, 'n, 'r) service \<times> log_line list" where
  "Issue_log E B M rnd ctx blindedHex class s out =
     (let new = (\<lambda>msg s. let (e, out) = errors_New_log E ctx msg out in (Inl e, s, out));
          wrap = (\<lambda>err msg s. let (e, out) = errors_Wrap_log E ctx err msg out in (Inl e, s, out))
      in if class = '''' then new ''credential_class cannot be empty'' s
      else (case hex_decode blindedHex of
        Inl err \<Rightarrow> wrap err ''invalid blinded_message hex'' s
      | Inr blindedBytes \<Rightarrow> (case CheckContext 0 (plain_ctx ctx) of
        Some err \<Rightarrow> wrap err ''request cancelled before deserializing blinded_message'' s
      | None \<Rightarrow> (case DeserializeG1 B blindedBytes of
        Inl err \<Rightarrow> wrap err ''invalid blinded_message point'' s
      | Inr blinded \<Rightarrow>
        let (masterSeed, cfg) = MasterSeed M (cs_config s);
            s = s\<lparr>cs_config := cfg\<rparr>
        in (case masterSeed of
        Inl err \<Rightarrow> wrap err ''master seed error'' s
      | Inr seed \<Rightarrow> (case DeriveSigningKey B M (Some seed) (cf_ActiveEpoch cfg) class of
        Inl err \<Rightarrow> wrap err ''key derivation failed'' s
      | Inr sk \<Rightarrow> (case SignBlinded B blinded sk of
        Inl err \<Rightarrow> wrap err ''signing failed'' s
      | Inr blindSig \<Rightarrow> (case CheckContext 1 (plain_ctx ctx) of
        Some err \<Rightarrow> wrap err ''request cancelled before DLEQ proof generation'' s
      | None \<Rightarrow>
        let pk = PubKey B sk
        in (case DLEQProve B rnd sk blinded pk of
        Inl err \<Rightarrow> wrap err ''DLEQ proof generation failed'' s
      | Inr proof \<Rightarrow> (Inr (serialize_issue B (cf_ActiveEpoch cfg) blindSig pk proof), s, out))))))))))"

definition handleIssue_log ::
    "log_env \<Rightarrow> ('p1, 'p2, 's, 'ml, 'e, 'n, 'r, 'l) deps \<Rightarrow> ('p1, 'e, 'n, 'r, 'l) server log_handler" where
  "handleIssue_log E D io ctx r w s out =
     (case Decode (dp_decode_error D) decode_issue r of
        Inl err \<Rightarrow>
          let out = Msg E (ev_Err (Some err) (Warn E ctx)) ''invalid issue request'' out;
              s = with_metrics (RecordIssuance ''failure'' ''unknown'') s;
              (w, out) = respondErr_log E ctx w (bad_request err ''invalid request'') ''issue'' out
          in (Returned, w, s, out)
      | Inr req \<Rightarrow> (case ValidateIssueRequest (dp_validator D) (io_now io 5) req of
        Some err \<Rightarrow>
          let out = Msg E (ev_Err (Some err) (Warn E ctx)) ''invalid issue request data'' out;
              s = with_metrics (RecordIssuance ''failure'' (iq_CredentialClass req)) s;
              (w, out) = respondErr_log E ctx w (bad_request err ''invalid request'') ''issue'' out
          in (Returned, w, s, out)
      | None \<Rightarrow>
        let (result, svc, out) = Issue_log E (dp_blst D) (dp_memguard D) (io_rand io) ctx
              (iq_BlindedMessage req) (iq_CredentialClass req) (srv_credentialService s) out;
            s = set_service svc s
        in (case result of
        Inl err \<Rightarrow>
          let s = with_metrics (RecordIssuance ''failure'' (iq_CredentialClass req)) s;
              (w, out) = respondErr_log E ctx w (Some err) ''issue'' out
          in (Returned, w, s, out)
      | Inr res \<Rightarrow>
          let s = with_metrics (RecordIssuance ''success'' (iq_CredentialClass req)) s;
              (w, out) = respondJSON_log E ctx w 200 (Some (issue_response_json res)) out
          in (Returned, w, s, out))))"

subsection \<open>Administration, health and the demo store\<close>

definition handleAdminRevoke_log ::
    "log_env \<Rightarrow> ('p1, 'p2, 's, 'ml, 'e, 'n, 'r, 'l) deps \<Rightarrow> ('p1, 'e, 'n, 'r, 'l) server log_handler" where
  "handleAdminRevoke_log E D io ctx r w s out =
     (let fail = (\<lambda>err op s. let (w, out) = respondErr_log E ctx w err op out in (Returned, w, s, out))
      in (case ClaimsFromContext (rq_ctx r) of
        None \<Rightarrow> fail (Some (apperr_New CodeInternal ''claims missing from context'')) ''revoke'' s
      | Some cl \<Rightarrow> (case Decode (dp_decode_error D) decode_revoke r of
        Inl err \<Rightarrow> fail (bad_request err ''invalid request'') ''Revoke'' s
      | Inr req \<Rightarrow> (case ValidateAdminRevokeRequest (dp_validator D) (io_now io 5) req of
        Some err \<Rightarrow> fail (bad_request err ''invalid request'') ''Revoke'' s
      | None \<Rightarrow> (case srv_revocationStore s of
        None \<Rightarrow> (Panicked, w, s, out)
      | Some store \<Rightarrow>
        let (err, store) = rs_RevokeClass (dp_revocations D) (io_now io 6) (aq_CredentialClass req)
              (aq_KeyEpoch req) (aq_Reason req) (cl_Subject cl) (aq_RevokedUntil req) store;
            s = set_revocationStore store s
        in (case err of
        Some err \<Rightarrow> fail (bad_request err ''revocation failed'') ''Revoke''
                   (with_metrics (RecordRevocation ''failure'' (aq_CredentialClass req)) s)
      | None \<Rightarrow>
          let s = with_metrics (RecordRevocation ''success'' (aq_CredentialClass req)) s;
              (w, out) = respondJSON_log E ctx w 200 (Some (status_json ''revoked'')) out
          in (Returned, w, s, out)))))))"

definition handleAdminUnrevoke_log ::
    "log_env \<Rightarrow> ('p1, 'p2, 's, 'ml, 'e, 'n, 'r, 'l) deps \<Rightarrow> ('p1, 'e, 'n, 'r, 'l) server log_handler" where
  "handleAdminUnrevoke_log E D io ctx r w s out =
     (let fail = (\<lambda>err op s. let (w, out) = respondErr_log E ctx w err op out in (Returned, w, s, out))
      in (case ClaimsFromContext (rq_ctx r) of
        None \<Rightarrow> fail (Some (apperr_New CodeInternal ''claims missing from context'')) ''revoke'' s
      | Some cl \<Rightarrow> (case Decode (dp_decode_error D) decode_unrevoke r of
        Inl err \<Rightarrow> fail (bad_request err ''invalid request'') ''unrevoke'' s
      | Inr req \<Rightarrow> (case ValidateAdminUnrevokeRequest (dp_validator D) (io_now io 5) req of
        Some err \<Rightarrow> fail (bad_request err ''invalid request'') ''unrevoke'' s
      | None \<Rightarrow> (case srv_revocationStore s of
        None \<Rightarrow> (Panicked, w, s, out)
      | Some store \<Rightarrow>
        let (err, store) = rs_UnrevokeClass (dp_revocations D) (io_now io 6) (uq_CredentialClass req)
              (uq_KeyEpoch req) store;
            s = set_revocationStore store s
        in (case err of
        Some err \<Rightarrow> fail (bad_request err ''unrevoke failed'') ''unrevoke''
                   (with_metrics (RecordUnrevocation ''failure'' (uq_CredentialClass req)) s)
      | None \<Rightarrow>
          let s = with_metrics (RecordUnrevocation ''success'' (uq_CredentialClass req)) s;
              (w, out) = respondJSON_log E ctx w 200 (Some (status_json ''unrevoked'')) out
          in (Returned, w, s, out)))))))"

definition handleAdminListRevocations_log ::
    "log_env \<Rightarrow> ('p1, 'p2, 's, 'ml, 'e, 'n, 'r, 'l) deps \<Rightarrow> ('p1, 'e, 'n, 'r, 'l) server log_handler" where
  "handleAdminListRevocations_log E D io ctx r w s out =
     (case srv_revocationStore s of
        None \<Rightarrow> (Panicked, w, s, out)
      | Some store \<Rightarrow> (case rs_ListRevocations (dp_revocations D) (io_order io) (io_now io 6) store of
        None \<Rightarrow> (Hung, w, s, out)
      | Some (Inl err) \<Rightarrow>
          let (w, out) = respondErr_log E ctx w (bad_request err ''list failed'') ''listrevoke'' out in (Returned, w, s, out)
      | Some (Inr entries) \<Rightarrow>
          let (w, out) = respondJSON_log E ctx w 200 (revocations_json (dp_time D) entries) out in (Returned, w, s, out)))"

definition handleHealth_log ::
    "log_env \<Rightarrow> ('p1, 'p2, 's, 'ml, 'e, 'n, 'r, 'l) deps \<Rightarrow> ('p1, 'e, 'n, 'r, 'l) server log_handler" where
  "handleHealth_log E D io ctx r w s out =
     (case Service_Ping (dp_nullifiers D) (dp_revocations D) (io_now io 6) (rq_ctx r) (srv_credentialService s) of
        Some err \<Rightarrow>
          let (w, out) = respondErr_log E ctx w (Some (apperr_Wrap CodeUnavailable (Some err) ''storage unhealthy''))
                ''health_check'' out
          in (Returned, w, s, out)
      | None \<Rightarrow> let (w, out) = respondJSON_log E ctx w 200 (Some (status_json ''ok'')) out in (Returned, w, s, out))"

definition metricsHandler_log ::
    "('p1, 'p2, 's, 'ml, 'e, 'n, 'r, 'l) deps \<Rightarrow> ('p1, 'e, 'n, 'r, 'l) server log_handler" where
  "metricsHandler_log D io ctx r w s out =
     (Returned, dp_metrics_page D (cs_metrics (srv_credentialService s)) w, s, out)"

definition handleStoreCredential_log ::
    "log_env \<Rightarrow> ('p1, 'p2, 's, 'ml, 'e, 'n, 'r, 'l) deps \<Rightarrow> ('p1, 'e, 'n, 'r, 'l) server log_handler" where
  "handleStoreCredential_log E D io ctx r w s out =
     (let fail = (\<lambda>err. let (w, out) = respondErr_log E ctx w err ''demo_store'' out in (Returned, w, s, out));
          req = Decode (dp_decode_error D) decode_ciphertext r
      in (case req of
        Inl err \<Rightarrow> fail (bad_request err ''invalid request'')
      | Inr ciphertext \<Rightarrow>
        if ciphertext = '''' then fail (Some (apperr_Wrap CodeInvalidArgument None ''invalid request''))
        else (case io_ticket io of
        None \<Rightarrow> (Panicked, w, s, out)
      | Some ticketID \<Rightarrow> (case srv_demoStore s of
        None \<Rightarrow> (Panicked, w, s, out)
      | Some demo \<Rightarrow>
        let s = s\<lparr>srv_demoStore := Some (demo\<lparr>dm_data := (dm_data demo)(ticketID \<mapsto> ciphertext)\<rparr>)\<rparr>;
            (w, out) = respondJSON_log E ctx w 200 (Some (json_object [(''ticket_id'', json_string ticketID)])) out
        in (Returned, w, s, out)))))"

definition handleRetrieveCredential_log ::
    "log_env \<Rightarrow> ('p1, 'p2, 's, 'ml, 'e, 'n, 'r, 'l) deps \<Rightarrow> ('p1, 'e, 'n, 'r, 'l) server log_handler" where
  "handleRetrieveCredential_log E D io ctx r w s out =
     (let ticketID = Query_Get r ''ticket_id''
      in (case srv_demoStore s of
        None \<Rightarrow> (Panicked, w, s, out)
      | Some demo \<Rightarrow> (case dm_data demo ticketID of
        None \<Rightarrow>
          let (w, out) = respondErr_log E ctx w (Some (apperr_New CodeNotFound ''ticket not found'')) ''demo_store'' out
          in (Returned, w, s, out)
      | Some ciphertext \<Rightarrow>
          let (w, out) = respondJSON_log E ctx w 200 (Some (json_object [(''ciphertext'', json_string ciphertext)])) out
          in (Returned, w, s, out))))"

subsection \<open>Roles and routes\<close>

definition Logger_WithClaims :: "logger_context \<Rightarrow> claims \<Rightarrow> logger_context" where
  "Logger_WithClaims ctx cl = ctx\<lparr>cx_claims := Some cl\<rparr>"

definition RequireRole_log ::
    "log_env \<Rightarrow> ('p1, 'p2, 's, 'ml, 'e, 'n, 'r, 'l) deps \<Rightarrow> string \<Rightarrow> ('p1, 'e, 'n, 'r, 'l) server log_handler \<Rightarrow>
     ('p1, 'e, 'n, 'r, 'l) server log_handler" where
  "RequireRole_log E D role next_h io ctx r w s out =
     (case authenticate D io r s of
        Inl err \<Rightarrow> let (w, out) = respondErr_log E ctx w (Some err) ''auth'' out in (Returned, w, s, out)
      | Inr cl \<Rightarrow>
          if \<not> HasRole cl role
          then let (w, out) = respondErr_log E ctx w (Some (apperr_New CodeForbidden
                 (''role '' @ Quote role @ '' required''))) ''authz'' out
               in (Returned, w, s, out)
          else let ctx = Logger_WithClaims ctx cl in next_h io ctx (r\<lparr>rq_ctx := plain_ctx ctx\<rparr>) w s out)"

definition demo_log ::
    "log_env \<Rightarrow> ('p1, 'e, 'n, 'r, 'l) server log_handler \<Rightarrow> ('p1, 'e, 'n, 'r, 'l) server log_handler" where
  "demo_log E h = RecoveryMiddleware_log E (LoggerMiddleware_log E h)"

definition routes_log ::
    "log_env \<Rightarrow> ('p1, 'p2, 's, 'ml, 'e, 'n, 'r, 'l) deps \<Rightarrow> bool \<Rightarrow>
     (string \<times> string \<times> ('p1, 'e, 'n, 'r, 'l) server log_handler) list" where
  "routes_log E D demo =
     [(''POST'', ''/v1/credential/issue'', limited_log E D (RequireRole_log E D ''issuer'' (handleIssue_log E D))),
      (''POST'', ''/v1/credential/consume'', limited_log E D (handleConsume_log E D)),
      (''POST'', ''/v1/admin/revoke'', limited_log E D (RequireRole_log E D ''admin'' (handleAdminRevoke_log E D))),
      (''DELETE'', ''/v1/admin/revoke'', limited_log E D (RequireRole_log E D ''admin'' (handleAdminUnrevoke_log E D))),
      (''GET'', ''/v1/admin/revocations'',
         limited_log E D (RequireRole_log E D ''admin'' (handleAdminListRevocations_log E D))),
      (''GET'', ''/health'', handleHealth_log E D),
      (''GET'', ''/metrics'', metricsHandler_log D)] @
     (if demo then
        [(''POST'', ''/demo/store'', demo_log E (handleStoreCredential_log E D)),
         (''GET'', ''/demo/retrieve'', demo_log E (handleRetrieveCredential_log E D))]
      else [])"

definition ServeHTTP_log ::
    "log_env \<Rightarrow> ('p1, 'p2, 's, 'ml, 'e, 'n, 'r, 'l) deps \<Rightarrow> ('p1, 'e, 'n, 'r, 'l) server log_handler" where
  "ServeHTTP_log E D io ctx r w s out =
     (let tbl = routes_log E D (srv_demoStore s \<noteq> None)
      in (case mux_find tbl (rq_Method r) (rq_Path r) of
            Some h \<Rightarrow> h io ctx r w s out
          | None \<Rightarrow> (Returned,
              (if rq_Path r \<in> fst ` snd ` set tbl then http_Error ''Method Not Allowed'' 405 w
               else http_Error ''404 page not found'' 404 w), s, out)))"

subsection \<open>The lines change nothing\<close>

definition issue_part :: "'a \<times> 'b \<times> 'c \<Rightarrow> 'a \<times> 'b" where
  "issue_part x = (fst x, fst (snd x))"

lemma issue_part_simps [simp]: "issue_part (a, b, c) = (a, b)"
  by (simp add: issue_part_def)

lemma Issue_log_refines:
  "issue_part (Issue_log E B M rnd ctx blindedHex class s out) = Issue B M rnd (plain_ctx ctx) blindedHex class s"
  by (simp add: Issue_log_def Issue_def errors_New_log_def errors_Wrap_log_def Let_def split_beta
      sum.case_distrib [of issue_part] option.case_distrib [of issue_part] if_distrib [of issue_part]
      cong del: sum.case_cong_weak option.case_cong_weak)

lemma Issue_log_parts [simp]:
  "fst (Issue_log E B M rnd ctx blindedHex class s out) = fst (Issue B M rnd (plain_ctx ctx) blindedHex class s)"
  "fst (snd (Issue_log E B M rnd ctx blindedHex class s out)) = snd (Issue B M rnd (plain_ctx ctx) blindedHex class s)"
  using Issue_log_refines [of E B M rnd ctx blindedHex "class" s out] by (simp_all add: issue_part_def prod_eq_iff)

named_theorems handler_refines \<open>the handlers with lines and those without\<close>

lemma handleIssue_refines [handler_refines]: "refines_handler (handleIssue_log E D) (handleIssue D)"
  by (auto simp: refines_handler_def handleIssue_log_def handleIssue_def Let_def split_beta
      split: sum.splits option.splits)

lemma admin_refines [handler_refines]:
  "refines_handler (handleAdminRevoke_log E D) (handleAdminRevoke D)"
  "refines_handler (handleAdminUnrevoke_log E D) (handleAdminUnrevoke D)"
  "refines_handler (handleAdminListRevocations_log E D) (handleAdminListRevocations D)"
  by (auto simp: refines_handler_def handleAdminRevoke_log_def handleAdminRevoke_def handleAdminUnrevoke_log_def
      handleAdminUnrevoke_def handleAdminListRevocations_log_def handleAdminListRevocations_def Let_def split_beta
      split: sum.splits option.splits)

lemma other_refines [handler_refines]:
  "refines_handler (handleHealth_log E D) (handleHealth D)"
  "refines_handler (metricsHandler_log D) (metricsHandler D)"
  "refines_handler (handleStoreCredential_log E D) (handleStoreCredential D)"
  "refines_handler (handleRetrieveCredential_log E D) (handleRetrieveCredential D)"
  by (auto simp: refines_handler_def handleHealth_log_def handleHealth_def metricsHandler_log_def metricsHandler_def
      handleStoreCredential_log_def handleStoreCredential_def handleRetrieveCredential_log_def
      handleRetrieveCredential_def Let_def split_beta split: sum.splits option.splits)

lemmas [handler_refines] = handleConsume_refines limited_refines Recovery_refines Logger_refines

lemma plain_ctx_WithClaims [simp]: "plain_ctx (Logger_WithClaims ctx cl) = WithClaims (plain_ctx ctx) cl"
  by (cases ctx) (simp add: plain_ctx_def Logger_WithClaims_def WithClaims_def go_context.truncate_def)

lemma RequireRole_refines [handler_refines]:
  assumes "refines_handler hl h"
  shows "refines_handler (RequireRole_log E D role hl) (RequireRole D role h)"
  unfolding refines_handler_def
proof (intro allI impI)
  fix io ctx w s out and r :: request
  assume r: "rq_ctx r = plain_ctx ctx"
  have "without_lines (hl io (Logger_WithClaims ctx cl) (r\<lparr>rq_ctx := WithClaims (plain_ctx ctx) cl\<rparr>) w s out) =
      h io (r\<lparr>rq_ctx := WithClaims (plain_ctx ctx) cl\<rparr>) w s" for cl
    using assms by (simp add: refines_handler_def)
  then show "without_lines (RequireRole_log E D role hl io ctx r w s out) = RequireRole D role h io r w s"
    using r by (simp add: RequireRole_log_def RequireRole_def Let_def split_beta split: sum.splits)
qed

text \<open>Entry by entry the tables have the same patterns, and the handlers refine each other.\<close>

definition entry_refines :: "string \<times> string \<times> 's log_handler \<Rightarrow> string \<times> string \<times> 's handler \<Rightarrow> bool" where
  "entry_refines a b \<longleftrightarrow> fst a = fst b \<and> fst (snd a) = fst (snd b) \<and> refines_handler (snd (snd a)) (snd (snd b))"

lemma routes_refine: "list_all2 entry_refines (routes_log E D demo) (routes D demo)"
  by (simp add: routes_log_def routes_def demo_log_def entry_refines_def handler_refines)

lemma mux_find_refines:
  "list_all2 entry_refines as bs \<Longrightarrow> rel_option refines_handler (mux_find as m p) (mux_find bs m p)"
  by (induction rule: list_all2_induct) (auto simp: entry_refines_def)

lemma patterns_same: "list_all2 entry_refines as bs \<Longrightarrow> fst ` snd ` set as = fst ` snd ` set bs"
  by (induction rule: list_all2_induct) (auto simp: entry_refines_def)

lemma ServeHTTP_refines:
  fixes D :: "('p1, 'p2, 's, 'ml, 'e, 'n, 'r, 'l) deps"
  shows "refines_handler (ServeHTTP_log E D) (ServeHTTP D)"
  unfolding refines_handler_def
proof (intro allI impI)
  fix io ctx w and s :: "('p1, 'e, 'n, 'r, 'l) server" and out and r :: request
  assume r: "rq_ctx r = plain_ctx ctx"
  note t = routes_refine [of E D "srv_demoStore s \<noteq> None"]
  show "without_lines (ServeHTTP_log E D io ctx r w s out) = ServeHTTP D io r w s"
    using mux_find_refines [OF t, of "rq_Method r" "rq_Path r"] patterns_same [OF t] r
    by (auto simp: ServeHTTP_log_def ServeHTTP_def Let_def refines_handler_def split: option.splits)
qed

subsection \<open>Where lines go\<close>

named_theorems line_intros \<open>handlers that log through their context\<close>

definition issue_adds :: "log_env \<Rightarrow> logger_context \<Rightarrow> log_line list \<Rightarrow> 'a \<times> 'b \<times> log_line list \<Rightarrow> bool" where
  "issue_adds E ctx out x \<longleftrightarrow> adds_through E ctx out (snd (snd x))"

lemma issue_adds_cases:
  "(\<And>e. issue_adds E ctx out (f e)) \<Longrightarrow> (\<And>x. issue_adds E ctx out (g x)) \<Longrightarrow> issue_adds E ctx out (case_sum f g v)"
  "issue_adds E ctx out n \<Longrightarrow> (\<And>x. issue_adds E ctx out (k x)) \<Longrightarrow> issue_adds E ctx out (case_option n k ov)"
  "issue_adds E ctx out a \<Longrightarrow> issue_adds E ctx out b \<Longrightarrow> issue_adds E ctx out (if c then a else b)"
  by (cases v; simp) (cases ov; simp)+

lemma Issue_log_adds: "adds_through E ctx out (snd (snd (Issue_log E B M rnd ctx blindedHex class s out)))"
proof -
  have "issue_adds E ctx out (Issue_log E B M rnd ctx blindedHex class s out)"
    unfolding Issue_log_def Let_def split_beta
    by (intro issue_adds_cases)
      (simp_all add: issue_adds_def errors_New_log_def errors_Wrap_log_def adds_through_Msg)
  then show ?thesis by (simp add: issue_adds_def)
qed

lemma handleIssue_logs_through [line_intros]: "logs_through E (handleIssue_log E D)"
  by (auto simp: logs_through_iff handleIssue_log_def Let_def split_beta adds_through_responses adds_through_Msg
      Issue_log_adds split: sum.splits option.splits)

lemma admin_logs_through [line_intros]:
  "logs_through E (handleAdminRevoke_log E D)" "logs_through E (handleAdminUnrevoke_log E D)"
  "logs_through E (handleAdminListRevocations_log E D)" "logs_through E (handleStoreCredential_log E D)"
  "logs_through E (handleRetrieveCredential_log E D)"
  by (auto simp: logs_through_iff handleAdminRevoke_log_def handleAdminUnrevoke_log_def handleAdminListRevocations_log_def
      handleStoreCredential_log_def handleRetrieveCredential_log_def Let_def split_beta adds_through_responses
      split: sum.splits option.splits)

lemma FromContext_WithClaims [simp]: "FromContext E (Logger_WithClaims ctx cl) = FromContext E ctx"
  by (simp add: FromContext_def Logger_WithClaims_def)

lemma RequireRole_logs_through [line_intros]:
  assumes "logs_through E hl"
  shows "logs_through E (RequireRole_log E D role hl)"
proof -
  have "adds_through E ctx out (snd (snd (snd (hl io (Logger_WithClaims ctx cl) r w s out))))" for io ctx cl r w s out
    using assms by (simp add: logs_through_iff) (metis FromContext_WithClaims adds_through_def)
  then show ?thesis
    by (simp add: logs_through_iff RequireRole_log_def Let_def split_beta adds_through_responses split: sum.splits)
qed

lemmas [line_intros] = handleConsume_logs_through RateLimit_logs_through BodyLimit_logs_through

text \<open>The lines of a recovered panic; a response appends its lines to those before.\<close>

definition recovery_lines :: "log_env \<Rightarrow> logger_context \<Rightarrow> writer \<Rightarrow> log_line list" where
  "recovery_lines E ctx w = snd (respondErr_log E ctx w recovered ''recovery''
     (Msg E (ev_Str ''panic'' (le_panic E) (Error E ctx)) ''panic recovered'' []))"

lemma Msg_append: "Msg E ev m (out @ x) = out @ Msg E ev m x"
  by (simp add: Msg_def)

lemma respondErr_log_append: "snd (respondErr_log E ctx w err op (out @ x)) = out @ snd (respondErr_log E ctx w err op x)"
  by (simp add: respondErr_log_def respondError_log_def Let_def split_beta Msg_append)

text \<open>
  A handler marks its lines when each carries the id of the request, apart from those of a
  recovered panic.
\<close>

definition has_id :: "log_env \<Rightarrow> io \<Rightarrow> logger_context \<Rightarrow> log_line \<Rightarrow> bool" where
  "has_id E io ctx l \<longleftrightarrow> (\<exists>c rid. Logger_WithRequestID E io ctx = Some (c, rid) \<and> (''request_id'', rid) \<in> set (ev_Fields l))"

definition marks_lines :: "log_env \<Rightarrow> 's log_handler \<Rightarrow> bool" where
  "marks_lines E hl \<longleftrightarrow> (\<forall>io ctx r w s out. \<exists>new rest. snd (snd (snd (hl io ctx r w s out))) = out @ new @ rest \<and>
     (\<forall>l \<in> set new. has_id E io ctx l) \<and> (rest = [] \<or> (\<exists>w'. rest = recovery_lines E ctx w')))"

lemma logged_marks:
  assumes "logs_through E hl"
  shows "marks_lines E (RecoveryMiddleware_log E (LoggerMiddleware_log E hl))"
  unfolding marks_lines_def
proof (intro allI)
  fix io ctx w s out and r :: request
  obtain oc w1 s1 out1 where L: "LoggerMiddleware_log E hl io ctx r w s out = (oc, w1, s1, out1)" by (metis prod_cases4)
  have "\<exists>new. out1 = out @ new \<and> (\<forall>l \<in> set new. has_id E io ctx l)"
  proof (cases "Logger_WithRequestID E io ctx")
    case None
    then show ?thesis using L by (auto simp: LoggerMiddleware_log_def)
  next
    case (Some p)
    then obtain c rid where "Logger_WithRequestID E io ctx = Some (c, rid)" by (cases p) auto
    from request_lines_carry_id [OF assms this, of r w s out] show ?thesis
      using \<open>Logger_WithRequestID E io ctx = Some (c, rid)\<close> L by (auto simp: has_id_def)
  qed
  then obtain new where new: "out1 = out @ new" "\<forall>l \<in> set new. has_id E io ctx l" by blast
  have "snd (snd (snd (RecoveryMiddleware_log E (LoggerMiddleware_log E hl) io ctx r w s out))) =
      out @ new @ (if oc = Panicked then recovery_lines E ctx w1 else [])"
    using Msg_append [of E _ _ out1 "[]"]
    by (cases oc) (simp_all add: RecoveryMiddleware_log_def L Let_def split_beta recovery_lines_def new(1)
        respondErr_log_append [of E ctx w1 recovered "''recovery''" "out @ new", simplified])
  then show "\<exists>new rest. snd (snd (snd (RecoveryMiddleware_log E (LoggerMiddleware_log E hl) io ctx r w s out))) = out @ new @ rest \<and>
     (\<forall>l \<in> set new. has_id E io ctx l) \<and> (rest = [] \<or> (\<exists>w'. rest = recovery_lines E ctx w'))"
    using new(2) by - (rule exI [of _ new], rule exI [of _ "if oc = Panicked then recovery_lines E ctx w1 else []"], auto)
qed

lemma mux_find_in: "mux_find tbl m p = Some h \<Longrightarrow> \<exists>m'. (m', p, h) \<in> set tbl"
proof (induction tbl)
  case (Cons x tbl)
  then show ?case by (cases x) (auto split: if_splits)
qed simp

lemma limited_marks: "logs_through E hl \<Longrightarrow> marks_lines E (limited_log E D hl)"
  unfolding limited_log_def by (intro logged_marks RateLimit_logs_through BodyLimit_logs_through)

lemma demo_marks: "logs_through E hl \<Longrightarrow> marks_lines E (demo_log E hl)"
  unfolding demo_log_def by (rule logged_marks)

lemma routes_mark:
  assumes "(m, p, h) \<in> set (routes_log E D demo)" and "p \<noteq> ''/health''" and "p \<noteq> ''/metrics''"
  shows "marks_lines E h"
proof -
  have "list_all (\<lambda>(m, p, h). p \<in> {''/health'', ''/metrics''} \<or> marks_lines E h) (routes_log E D demo)"
    by (simp add: routes_log_def limited_marks demo_marks line_intros)
  then show ?thesis using assms by (auto simp: list_all_iff)
qed

subsection \<open>Property\<close>

text \<open>
  C26: the server does not depend on its log, and the log names the requests. For every request
  the server with its log lines answers as the server without them and keeps the same state. On
  every route but the health check and the metrics page, lines are only added, and each line that
  a request adds carries the request id, except the ones that report a recovered panic, which are
  written after the logging middleware was left.
\<close>

theorem server_log_refines:
  assumes "rq_ctx r = plain_ctx ctx"
  shows "case ServeHTTP_log E D io ctx r w s out of (oc, w', s', out') \<Rightarrow>
    ServeHTTP D io r w s = (oc, w', s') \<and>
    (rq_Path r \<noteq> ''/health'' \<longrightarrow> rq_Path r \<noteq> ''/metrics'' \<longrightarrow>
     (\<exists>new rest. out' = out @ new @ rest \<and> (\<forall>l \<in> set new. has_id E io ctx l) \<and>
       (rest = [] \<or> (\<exists>w1. rest = recovery_lines E ctx w1))))"
proof -
  obtain oc w' s' out' where S: "ServeHTTP_log E D io ctx r w s out = (oc, w', s', out')" by (metis prod_cases4)
  have "ServeHTTP D io r w s = (oc, w', s')"
    using ServeHTTP_refines assms(1) S unfolding refines_handler_def by (metis without_lines_simps)
  moreover have "\<exists>new rest. out' = out @ new @ rest \<and> (\<forall>l \<in> set new. has_id E io ctx l) \<and>
       (rest = [] \<or> (\<exists>w1. rest = recovery_lines E ctx w1))"
    if p: "rq_Path r \<noteq> ''/health''" "rq_Path r \<noteq> ''/metrics''"
  proof (cases "mux_find (routes_log E D (srv_demoStore s \<noteq> None)) (rq_Method r) (rq_Path r)")
    case None
    then show ?thesis using S by (auto simp: ServeHTTP_log_def Let_def)
  next
    case (Some h)
    then have "marks_lines E h" using mux_find_in [OF Some] routes_mark p by blast
    moreover have "snd (snd (snd (h io ctx r w s out))) = out'" using S Some by (simp add: ServeHTTP_log_def Let_def)
    ultimately show ?thesis unfolding marks_lines_def by metis
  qed
  ultimately show ?thesis using S by simp
qed

theorem server_log_refines_witness:
  "let r = sample_request ''POST'' ''/v1/admin/revoke'' revoke_body
   in case ServeHTTP_log sample_log_env sample_deps sample_io sample_logger_ctx r fresh_writer sample_server [] of
     (oc, w', s', out') \<Rightarrow> sent_status w' = Some 200 \<and> ServeHTTP sample_deps sample_io r fresh_writer sample_server = (oc, w', s') \<and>
       (\<exists>new rest. out' = new @ rest \<and> (\<forall>l \<in> set new. has_id sample_log_env sample_io sample_logger_ctx l) \<and>
          (rest = [] \<or> (\<exists>w1. rest = recovery_lines sample_log_env sample_logger_ctx w1)))"
proof -
  let ?r = "sample_request ''POST'' ''/v1/admin/revoke'' revoke_body"
  have r: "rq_ctx ?r = plain_ctx sample_logger_ctx" "rq_Path ?r \<noteq> ''/health''" "rq_Path ?r \<noteq> ''/metrics''"
    by (simp_all add: plain_sample_ctx sample_request_def)
  from server_log_refines [OF r(1), where E = sample_log_env and D = sample_deps and io = sample_io and w = fresh_writer and
      s = sample_server and out = "[]"]
  show ?thesis using sample_revoke_200 r by (auto simp: Let_def split: prod.splits)
qed

end
