(* ===== verification/StartLog.thy ===== *)
theory StartLog
  imports Startup ServerLog
begin

section \<open>The command of the server with its log (cmd/server, internal/service: config.go)\<close>

text \<open>
  The whole of \<open>main\<close>: its flags, the start with the lines it logs, the life of the server, and
  the shutdown. The lines are left out by \<open>Startup\<close>, which this refines. What a start logs is
  taken from a list that is computed from the paths of the two files, what \<open>os.Stat\<close> says of one
  of them and the address the server listens on: nothing of a seed, a secret or a password.
\<close>

subsection \<open>Flags\<close>

text \<open>
  \<open>-config\<close> and \<open>-env-file\<close> take a value, the boolean \<open>-env-override\<close> takes one after an equals
  sign only. An error of the flags exits with code 2, a wish for help with 0.
\<close>

definition flag_split :: "string \<Rightarrow> nat option + string \<times> string option" where
  "flag_split s =
     (if length s < 2 \<or> hd s \<noteq> CHR ''-'' \<or> s = ''--'' then Inl None
      else let name = (if s ! 1 = CHR ''-'' then drop 2 s else drop 1 s)
        in if name = '''' \<or> hd name = CHR ''-'' \<or> hd name = CHR ''='' then Inl (Some 2)
           else Inr (case SplitN2 (CHR ''='') name of [n, v] \<Rightarrow> (n, Some v) | _ \<Rightarrow> (name, None)))"

definition set_flag :: "string \<Rightarrow> string \<Rightarrow> string \<times> string \<times> bool \<Rightarrow> string \<times> string \<times> bool" where
  "set_flag n p v = (case v of (configPath, envFile, envOverride) \<Rightarrow>
     if n = ''config'' then (p, envFile, envOverride) else (configPath, p, envOverride))"

definition flag_bool :: "string option \<Rightarrow> bool option" where
  "flag_bool v = (case v of None \<Rightarrow> Some True | Some b \<Rightarrow> ParseBool b)"

fun server_flags :: "string list \<Rightarrow> string \<times> string \<times> bool \<Rightarrow> nat + string \<times> string \<times> bool" where
  "server_flags [] v = Inr v"
| "server_flags (s # args) v = (case flag_split s of
       Inl None \<Rightarrow> Inr v
     | Inl (Some code) \<Rightarrow> Inl code
     | Inr (n, val) \<Rightarrow>
         if n = ''config'' \<or> n = ''env-file'' then
           (case val of
              Some p \<Rightarrow> server_flags args (set_flag n p v)
            | None \<Rightarrow> (case args of
                p # rest \<Rightarrow> server_flags rest (set_flag n p v)
              | [] \<Rightarrow> Inl 2))
         else if n = ''env-override'' then
           (case flag_bool val of
              None \<Rightarrow> Inl 2
            | Some b \<Rightarrow> server_flags args (fst v, fst (snd v), b))
         else Inl (if n = ''help'' \<or> n = ''h'' then 0 else 2))"

definition server_defaults :: "string \<times> string \<times> bool" where
  "server_defaults = (''configs/config.yaml'', '''', False)"

lemma server_flags_read:
  "server_flags [''-config'', ''c.yaml'', ''--env-override=false'', ''-env-file=.env'', ''-env-override''] server_defaults =
     Inr (''c.yaml'', ''.env'', True)"
  "server_flags [''-env-override=maybe''] server_defaults = Inl 2" "server_flags [''-h''] server_defaults = Inl 0"
  by (simp_all add: server_defaults_def flag_split_def set_flag_def flag_bool_def ParseBool_def Let_def)

subsection \<open>The steps of a start\<close>

text \<open>\<open>context.Background()\<close>, which has no logger of its own.\<close>

definition Background :: logger_context where
  "Background = go_context.extend background \<lparr> cx_logger = None \<rparr>"

text \<open>The one line \<open>Validate\<close> may write, in production; \<open>getenv\<close> is the process environment.\<close>

definition dst_warning :: "log_env \<Rightarrow> env \<Rightarrow> 'e config \<Rightarrow> log_line list \<Rightarrow> log_line list" where
  "dst_warning E getenv c out =
     (if cf_DST c = ''BCIS-V1-MESSAGE'' \<and> getenv ''BLINDVAULT_ALLOW_DEFAULT_DST'' = ''''
      then Msg E (Warn E Background) ''default DST is being used; it is not recommend to use the default'' out
      else out)"

definition Validate_log ::
    "log_env \<Rightarrow> env \<Rightarrow> 'e config \<Rightarrow> log_line list \<Rightarrow> goerr option \<times> 'e config \<times> log_line list" where
  "Validate_log E getenv c out =
     (let errs = validate_always c;
          (c, errs, out) =
            (if cf_Mode c = ModeProduction then (c, validateProduction c errs, dst_warning E getenv c out)
             else if cf_Mode c = ModeDevelopment \<or> cf_Mode c = ModeTest
             then (let (c, errs) = validateNonProduction c errs in (c, errs, out))
             else (c, errs, out));
          (c, errs) = validate_epochs c errs
      in (verr_Err errs, c, out))"

definition configure_log ::
    "log_env \<Rightarrow> 'e memguard \<Rightarrow> 'e startup \<Rightarrow> string \<Rightarrow> string \<Rightarrow> bool \<Rightarrow> log_line list \<Rightarrow>
     'e config result \<times> log_line list" where
  "configure_log E M W configPath envFile envOverride out =
     (let info = Msg E (Info E Background);
          (envErr, getenv, out) = (if envFile \<noteq> ''''
             then (let out = info (''Loading from env file: '' @ envFile) out;
                       (err, getenv) = loadEnvFile W envFile envOverride (sw_env W)
                   in (err, getenv, out))
             else (None, sw_env W, out))
      in case envErr of
        Some err \<Rightarrow> (Inl (Wrapf ''load env file'' err), out)
      | None \<Rightarrow>
        let cfg = zero_config;
            out = info (''Checking config file: '' @ configPath) out;
            (yamlErr, cfg, out) = (case sw_stat W configPath of
                Some err \<Rightarrow> (None, cfg, Msg E (ev_Err (Some err) (Warn E Background))
                             (''config file not found, skipping: '' @ configPath) out)
              | None \<Rightarrow>
                  let out = info (''Loading config file: '' @ configPath) out;
                      (err, cfg) = loadYAMLConfig W configPath cfg
                  in (err, cfg, out))
        in (case yamlErr of
          Some err \<Rightarrow> (Inl (Wrapf ''load config'' err), out)
        | None \<Rightarrow>
          let out = info ''Applying Env overrides'' out;
              cfg = ApplyEnvOverrides getenv cfg;
              out = info ''Loading master seed'' out;
              (seedErr, cfg) = LoadMasterSeed M getenv (sw_readFile W) cfg
          in (case seedErr of
            Some err \<Rightarrow> (Inl (Wrapf ''load master seed'' err), out)
          | None \<Rightarrow>
            let out = info ''Validating config'' out;
                (invalid, cfg, out) = Validate_log E getenv cfg out
            in (case invalid of Some err \<Rightarrow> (Inl err, out) | None \<Rightarrow> (Inr cfg, out)))))"

text \<open>Up to a server: the configuration, the warning of production, and \<open>NewServer\<close>.\<close>

definition build_log ::
    "log_env \<Rightarrow> ('p1, 'p2, 's, 'ml, 'e, 'c any_nullifier, 'c any_revocation, 'l) deps \<Rightarrow>
     (string \<Rightarrow> string \<Rightarrow> int \<Rightarrow> 'c result) \<Rightarrow> collector \<Rightarrow> 'e startup \<Rightarrow> string \<Rightarrow> string \<Rightarrow> bool \<Rightarrow> log_line list \<Rightarrow>
     ('p1, 'e, 'c any_nullifier, 'c any_revocation, 'l) server result \<times> log_line list" where
  "build_log E D dial metricsReporter W configPath envFile envOverride out =
     (let (result, out) = configure_log E (dp_memguard D) W configPath envFile envOverride out
      in case result of
        Inl err \<Rightarrow> (Inl err, out)
      | Inr cfg \<Rightarrow>
        let out = Msg E (Info E Background) ''checking for production warnings'' out;
            out = (if cf_Mode cfg = ModeProduction \<and> envFile \<noteq> ''''
                   then Msg E (ev_Str ''env_file'' envFile (Warn E Background))
                          ''dotenv files in production are discouraged; prefer a secrets manager'' out
                   else out)
        in (case NewServer (dp_blst D) dial metricsReporter cfg of
              Inl err \<Rightarrow> (Inl (Wrapf ''build server'' err), out)
            | Inr server \<Rightarrow> (Inr server, out)))"

text \<open>
  \<open>listen\<close> is the life of the server from \<open>ListenAndServe\<close> to the select, with the lines of its
  requests: the error of \<open>Start\<close>, or \<open>None\<close> when a signal came first.
\<close>

definition Start_log ::
    "log_env \<Rightarrow> (('p1, 'e, 'n, 'r, 'l) server \<Rightarrow> goerr option \<times> ('p1, 'e, 'n, 'r, 'l) server \<times> log_line list) \<Rightarrow>
     ('p1, 'e, 'n, 'r, 'l) server \<Rightarrow> log_line list \<Rightarrow>
     goerr option \<times> ('p1, 'e, 'n, 'r, 'l) server \<times> log_line list" where
  "Start_log E listen s out =
     (let addr = cf_ListenAddr (cs_config (srv_credentialService s));
          out = Msg E (ev_Str ''addr'' addr (Info E Background)) ''starting server'' out;
          (failure, s, lines) = listen s
      in (failure, s, out @ lines))"

definition Shutdown_log ::
    "log_env \<Rightarrow> ('p1, 'p2, 's, 'ml, 'e, 'n, 'r, 'l) deps \<Rightarrow> (http_server \<Rightarrow> goerr option) \<Rightarrow>
     ('p1, 'e, 'n, 'r, 'l) server option \<Rightarrow> log_line list \<Rightarrow>
     goerr option \<times> ('p1, 'e, 'n, 'r, 'l) server option \<times> log_line list" where
  "Shutdown_log E D stop srv out =
     (let out = Msg E (Info E Background) ''shutting down server'' out
      in case srv of
        None \<Rightarrow> (None, None, out)
      | Some s \<Rightarrow>
        let (err, svc) = Service_Close (dp_nullifiers D) (dp_revocations D) (Some (srv_credentialService s));
            s = set_service (the svc) s;
            out = (if err \<noteq> None then Msg E (ev_Err err (Error E Background)) ''failed to close credential service'' out
                   else out)
        in (case srv_httpServer s of
              None \<Rightarrow> (None, Some s, out)
            | Some hs \<Rightarrow> (stop hs, Some s, out)))"

definition run_server_log ::
    "log_env \<Rightarrow> ('p1, 'p2, 's, 'ml, 'e, 'c any_nullifier, 'c any_revocation, 'l) deps \<Rightarrow>
     (string \<Rightarrow> string \<Rightarrow> int \<Rightarrow> 'c result) \<Rightarrow> collector \<Rightarrow> 'e startup \<Rightarrow>
     (('p1, 'e, 'c any_nullifier, 'c any_revocation, 'l) server \<Rightarrow>
        goerr option \<times> ('p1, 'e, 'c any_nullifier, 'c any_revocation, 'l) server \<times> log_line list) \<Rightarrow>
     (http_server \<Rightarrow> goerr option) \<Rightarrow> string \<Rightarrow> string \<Rightarrow> bool \<Rightarrow> log_line list \<Rightarrow>
     goerr option \<times> ('p1, 'e, 'c any_nullifier, 'c any_revocation, 'l) server option \<times> log_line list" where
  "run_server_log E D dial metricsReporter W listen stop configPath envFile envOverride out =
     (let (built, out) = build_log E D dial metricsReporter W configPath envFile envOverride out
      in case built of
        Inl err \<Rightarrow> (Some err, None, out)
      | Inr server \<Rightarrow>
        let (failure, server, out) = Start_log E listen server out
        in (case failure of
              Some err \<Rightarrow> (Some (Wrapf ''server error'' err), Some server, out)
            | None \<Rightarrow> Shutdown_log E D stop (Some server)
                (Msg E (Info E Background) ''shutdown signal received'' out)))"

text \<open>\<open>main\<close>: the exit code and the lines.\<close>

definition server_command ::
    "log_env \<Rightarrow> ('p1, 'p2, 's, 'ml, 'e, 'c any_nullifier, 'c any_revocation, 'l) deps \<Rightarrow>
     (string \<Rightarrow> string \<Rightarrow> int \<Rightarrow> 'c result) \<Rightarrow> collector \<Rightarrow> 'e startup \<Rightarrow>
     (('p1, 'e, 'c any_nullifier, 'c any_revocation, 'l) server \<Rightarrow>
        goerr option \<times> ('p1, 'e, 'c any_nullifier, 'c any_revocation, 'l) server \<times> log_line list) \<Rightarrow>
     (http_server \<Rightarrow> goerr option) \<Rightarrow> string list \<Rightarrow> log_line list \<Rightarrow> nat \<times> log_line list" where
  "server_command E D dial metricsReporter W listen stop args out =
     (case server_flags (drop 1 args) server_defaults of
        Inl code \<Rightarrow> (code, out)
      | Inr (configPath, envFile, envOverride) \<Rightarrow>
        let (err, srv, out) = run_server_log E D dial metricsReporter W listen stop configPath envFile envOverride out
        in (server_main (err, srv), out))"

subsection \<open>The lines change nothing\<close>

lemma Validate_log_refines: "issue_part (Validate_log E getenv c out) = Validate c"
  by (simp add: Validate_log_def Validate_def Let_def split_beta issue_part_def)

lemma configure_log_refines:
  "fst (configure_log E M W configPath envFile envOverride out) = configure M W configPath envFile envOverride"
proof -
  have "fst (Validate_log E g c o') = fst (Validate c)" "fst (snd (Validate_log E g c o')) = snd (Validate c)" for g c o'
    using Validate_log_refines [of E g c o'] by (simp_all add: issue_part_def prod_eq_iff)
  note V = this
  show ?thesis
    unfolding configure_log_def configure_def Let_def split_beta fst_conv snd_conv option.case_distrib [of fst]
      option.case_distrib [of snd] if_distrib [of fst] if_distrib [of snd] V ..
qed

lemma run_server_log_refines:
  "issue_part (run_server_log E D dial rep W listen stop configPath envFile envOverride out) =
     run_server D dial rep W (issue_part \<circ> listen) stop configPath envFile envOverride"
proof -
  have "issue_part (Shutdown_log E D stop s o') = Shutdown D stop s" for s o'
    by (simp add: Shutdown_log_def Shutdown_def Let_def split_beta split: option.splits)
  then show ?thesis
    using configure_log_refines [of E "dp_memguard D" W configPath envFile envOverride out]
    by (simp add: run_server_log_def run_server_def build_log_def Start_log_def issue_part_def Let_def split_beta
        split: option.splits sum.splits)
qed

subsection \<open>What a start logs\<close>

text \<open>All lines of a start in their order, from what is public of it.\<close>

definition start_lines :: "log_env \<Rightarrow> goerr option \<Rightarrow> string \<Rightarrow> string \<Rightarrow> string \<Rightarrow> log_line list" where
  "start_lines E stat configPath envFile addr =
     (let line = (\<lambda>ev m. \<lparr> ev_Level = ev_Level ev, ev_Fields = ev_Fields ev, ln_Message = m \<rparr>);
          info = line (Info E Background); warn = line (Warn E Background)
      in [info (''Loading from env file: '' @ envFile),
          info (''Checking config file: '' @ configPath),
          line (ev_Err stat (Warn E Background)) (''config file not found, skipping: '' @ configPath),
          info (''Loading config file: '' @ configPath),
          info ''Applying Env overrides'', info ''Loading master seed'', info ''Validating config'',
          warn ''default DST is being used; it is not recommend to use the default'',
          info ''checking for production warnings'',
          line (ev_Str ''env_file'' envFile (Warn E Background))
            ''dotenv files in production are discouraged; prefer a secrets manager'',
          line (ev_Str ''addr'' addr (Info E Background)) ''starting server''])"

lemma length_start_lines [simp]: "length (start_lines E stat configPath envFile addr) = 11"
  by (simp add: start_lines_def Let_def)

text \<open>Lines are added that are found among the first \<open>n\<close> of \<open>ls\<close>, in their order.\<close>

definition adds_upto :: "log_line list \<Rightarrow> nat \<Rightarrow> log_line list \<Rightarrow> log_line list \<Rightarrow> bool" where
  "adds_upto ls n out out' \<longleftrightarrow> (\<exists>new. out' = out @ new \<and> subseq new (take n ls))"

lemma adds_upto_refl [simp]: "adds_upto ls n out out"
  by (simp add: adds_upto_def)

lemma adds_upto_mono: "adds_upto ls n out out' \<Longrightarrow> n \<le> m \<Longrightarrow> adds_upto ls m out out'"
proof -
  assume "adds_upto ls n out out'" "n \<le> m"
  then obtain new where "out' = out @ new" "subseq new (take n (take m ls))" by (auto simp: adds_upto_def min_def)
  then show "adds_upto ls m out out'"
    unfolding adds_upto_def using prefix_imp_subseq [OF take_is_prefix] subseq_order.order_trans by blast
qed

lemma adds_upto_Msg:
  assumes "adds_upto ls n out out'" and "n < length ls"
    and "ls ! n = \<lparr> ev_Level = ev_Level ev, ev_Fields = ev_Fields ev, ln_Message = m \<rparr>"
  shows "adds_upto ls (Suc n) out (Msg E ev m out')"
proof -
  obtain new where new: "out' = out @ new" "subseq new (take n ls)" using assms(1) by (auto simp: adds_upto_def)
  then have "subseq (new @ [ls ! n]) (take (Suc n) ls)"
    using assms(2) by (simp add: take_Suc_conv_app_nth list_emb_append_mono)
  moreover have "adds_upto ls (Suc n) out out'" using adds_upto_mono [OF assms(1)] by simp
  ultimately show ?thesis using new(1) assms(3) by (auto simp: Msg_def adds_upto_def)
qed

lemma adds_upto_if:
  "(b \<Longrightarrow> adds_upto ls n out x) \<Longrightarrow> (\<not> b \<Longrightarrow> adds_upto ls n out y) \<Longrightarrow> adds_upto ls n out (if b then x else y)"
  by simp

lemma adds_upto_option:
  "adds_upto ls n out a \<Longrightarrow> (\<And>x. adds_upto ls n out (k x)) \<Longrightarrow> adds_upto ls n out (case_option a k w)"
  by (cases w) simp_all

lemma Validate_log_lines:
  assumes "adds_upto (start_lines E stat configPath envFile addr) 7 out out'"
  shows "adds_upto (start_lines E stat configPath envFile addr) 8 out (snd (snd (Validate_log E getenv c out')))"
proof -
  let ?L = "start_lines E stat configPath envFile addr"
  have "adds_upto ?L (Suc 7) out (dst_warning E getenv c out')"
    unfolding dst_warning_def
    by (intro adds_upto_if adds_upto_Msg assms adds_upto_mono [OF assms]) (simp_all add: start_lines_def Let_def)
  moreover have "adds_upto ?L 8 out out'" by (rule adds_upto_mono [OF assms]) simp
  ultimately show ?thesis by (simp add: Validate_log_def Let_def split_beta)
qed

lemma configure_log_lines:
  "adds_upto (start_lines E (sw_stat W configPath) configPath envFile addr) 8 out
     (snd (configure_log E M W configPath envFile envOverride out))"
proof -
  let ?L = "start_lines E (sw_stat W configPath) configPath envFile addr"
  let ?info = "Msg E (Info E Background)"
  note L = start_lines_def Let_def
  define o1 where "o1 = (if envFile \<noteq> '''' then ?info (''Loading from env file: '' @ envFile) out else out)"
  define o2 where "o2 = ?info (''Checking config file: '' @ configPath) o1"
  define o4 where "o4 = (case sw_stat W configPath of
      Some err \<Rightarrow> Msg E (ev_Err (Some err) (Warn E Background)) (''config file not found, skipping: '' @ configPath) o2
    | None \<Rightarrow> ?info (''Loading config file: '' @ configPath) o2)"
  have 1: "adds_upto ?L 1 out o1"
    unfolding o1_def One_nat_def by (intro adds_upto_if adds_upto_Msg adds_upto_refl) (simp_all add: L)
  have 2: "adds_upto ?L (Suc 1) out o2"
    unfolding o2_def by (intro adds_upto_Msg 1) (simp_all add: L)
  have 4: "adds_upto ?L 4 out o4"
  proof (cases "sw_stat W configPath")
    case None
    have "adds_upto ?L (Suc 3) out (?info (''Loading config file: '' @ configPath) o2)"
      by (intro adds_upto_Msg adds_upto_mono [OF 2]) (simp_all add: L)
    with None show ?thesis by (simp add: o4_def)
  next
    case (Some err)
    have "adds_upto ?L (Suc (Suc 1)) out
        (Msg E (ev_Err (Some err) (Warn E Background)) (''config file not found, skipping: '' @ configPath) o2)"
      by (intro adds_upto_Msg 2) (simp_all add: L Some)
    then show ?thesis using Some by (auto simp: o4_def intro: adds_upto_mono)
  qed
  have 6: "adds_upto ?L (Suc (Suc 4)) out (?info ''Loading master seed'' (?info ''Applying Env overrides'' o4))"
    by (intro adds_upto_Msg 4) (simp_all add: L)
  have 7: "adds_upto ?L (Suc (Suc (Suc 4))) out
      (?info ''Validating config'' (?info ''Loading master seed'' (?info ''Applying Env overrides'' o4)))"
    by (intro adds_upto_Msg 4) (simp_all add: L)
  then have "adds_upto ?L 8 out (snd (snd (Validate_log E g c
      (?info ''Validating config'' (?info ''Loading master seed'' (?info ''Applying Env overrides'' o4))))))" for g c
    by (intro Validate_log_lines) simp
  moreover have "adds_upto ?L 8 out o1" "adds_upto ?L 8 out o4"
    "adds_upto ?L 8 out (?info ''Loading master seed'' (?info ''Applying Env overrides'' o4))"
    using adds_upto_mono [OF 1] adds_upto_mono [OF 4] adds_upto_mono [OF 6] by simp_all
  moreover note snds = option.case_distrib [of snd] if_distrib [of snd]
  ultimately show ?thesis
    unfolding configure_log_def Let_def split_beta fst_conv snd_conv snds
      o1_def [symmetric] o2_def [symmetric] o4_def [symmetric]
    by (intro adds_upto_option)
qed

lemma build_log_lines:
  assumes "build_log E D dial rep W configPath envFile envOverride out = (built, out')"
  shows "adds_upto (start_lines E (sw_stat W configPath) configPath envFile addr) 10 out out'"
proof -
  let ?L = "start_lines E (sw_stat W configPath) configPath envFile addr"
  obtain result out1 where c: "configure_log E (dp_memguard D) W configPath envFile envOverride out = (result, out1)"
    by (cases "configure_log E (dp_memguard D) W configPath envFile envOverride out")
  have 8: "adds_upto ?L 8 out out1" by (metis configure_log_lines c snd_conv)
  have 9: "adds_upto ?L (Suc 8) out (Msg E (Info E Background) ''checking for production warnings'' out1)"
    by (intro adds_upto_Msg 8) (simp_all add: start_lines_def Let_def)
  have "adds_upto ?L (Suc (Suc 8)) out (Msg E (ev_Str ''env_file'' envFile (Warn E Background))
      ''dotenv files in production are discouraged; prefer a secrets manager''
      (Msg E (Info E Background) ''checking for production warnings'' out1))"
    by (intro adds_upto_Msg 8) (simp_all add: start_lines_def Let_def)
  then show ?thesis
    using assms c adds_upto_mono [OF 8, of 10] adds_upto_mono [OF 9, of 10]
    by (auto simp: build_log_def Let_def split: sum.splits if_splits)
qed

text \<open>
  A start logs nothing that is not public. Whatever a start does, it adds lines of
  \<open>start_lines\<close>, in that order and each at most once; the lines of the requests come after them.
\<close>

lemma start_log_public:
  "case build_log E D dial rep W configPath envFile envOverride out of
     (Inl err, out') \<Rightarrow>
       \<exists>new. out' = out @ new \<and> subseq new (take 10 (start_lines E (sw_stat W configPath) configPath envFile addr))
   | (Inr s, out') \<Rightarrow>
       \<exists>new. snd (snd (Start_log E listen s out')) = out @ new @ snd (snd (listen s)) \<and>
         subseq new (start_lines E (sw_stat W configPath) configPath envFile
           (cf_ListenAddr (cs_config (srv_credentialService s))))"
proof -
  obtain built out' where b: "build_log E D dial rep W configPath envFile envOverride out = (built, out')"
    by (cases "build_log E D dial rep W configPath envFile envOverride out")
  note lines = build_log_lines [OF b]
  show ?thesis
  proof (cases built)
    case (Inl err)
    then show ?thesis using b lines [of addr] by (simp add: adds_upto_def)
  next
    case (Inr s)
    let ?addr = "cf_ListenAddr (cs_config (srv_credentialService s))"
    let ?L = "start_lines E (sw_stat W configPath) configPath envFile ?addr"
    have "adds_upto ?L (Suc 10) out
        (Msg E (ev_Str ''addr'' ?addr (Info E Background)) ''starting server'' out')"
      by (intro adds_upto_Msg lines) (simp_all add: start_lines_def Let_def)
    then show ?thesis using b Inr by (auto simp: adds_upto_def Start_log_def Let_def split_beta)
  qed
qed

end
