(* ===== verification/SecureMemory.thy ===== *)
theory SecureMemory
  imports KeyDerivation
begin

section \<open>Buffers in locked memory (pkg/securememory)\<close>

text \<open>
  The wrappers of \<open>pkg/securememory\<close> over the locked memory of \<open>memguard\<close>, which is a parameter:
  its state \<open>'m\<close> and its calls are the fields of \<open>locked_memory\<close>. A buffer is live from its
  creation until it is destroyed or sealed. Making an enclave of no bytes gives a nil pointer, so
  the wrapper holds an optional enclave. \<open>DeriveSigningKey_mem\<close> is the derivation of a signing
  key with the buffers it opens and closes; it refines \<open>DeriveSigningKey\<close>, where the memory is
  left out.
\<close>

subsection \<open>The memory\<close>

record ('b, 'e, 'm) locked_memory =
  lm_new :: "bytes \<Rightarrow> 'm \<Rightarrow> 'b \<times> 'm"
  lm_destroy :: "'b \<Rightarrow> 'm \<Rightarrow> 'm"
  lm_wipe :: "'b \<Rightarrow> 'm \<Rightarrow> 'm"
  lm_bytes :: "'m \<Rightarrow> 'b \<Rightarrow> bytes"
  lm_live :: "'m \<Rightarrow> 'b set"
  lm_enclave :: "bytes \<Rightarrow> 'e option"
  lm_seal :: "'b \<Rightarrow> 'm \<Rightarrow> 'e option \<times> 'm"
  lm_open :: "'e option \<Rightarrow> 'm \<Rightarrow> ('b \<times> 'm) result"
  lm_size :: "'e option \<Rightarrow> int"

text \<open>What a call may do to the buffers it is not about: nothing.\<close>

definition others_kept :: "('b, 'e, 'm) locked_memory \<Rightarrow> 'b \<Rightarrow> 'm \<Rightarrow> 'm \<Rightarrow> bool" where
  "others_kept K b m m' \<longleftrightarrow> (\<forall>b'. b' \<noteq> b \<longrightarrow>
     (b' \<in> lm_live K m' \<longleftrightarrow> b' \<in> lm_live K m) \<and> lm_bytes K m' b' = lm_bytes K m b')"

text \<open>
  The documented behaviour. A new buffer and the buffer of an opened enclave are fresh; an empty
  one is created destroyed. \<open>Destroy\<close> ends a buffer, \<open>Wipe\<close> sets its bytes to zero, \<open>Seal\<close> moves
  its contents into an enclave and destroys it. An enclave of some bytes has their number as its
  size and opens to them.
\<close>

definition law_new :: "('b, 'e, 'm) locked_memory \<Rightarrow> bool" where
  "law_new K \<longleftrightarrow> (\<forall>d m b m'. lm_new K d m = (b, m') \<longrightarrow>
     b \<notin> lm_live K m \<and> others_kept K b m m' \<and> (b \<in> lm_live K m' \<longleftrightarrow> d \<noteq> []) \<and> lm_bytes K m' b = d)"

definition law_open :: "('b, 'e, 'm) locked_memory \<Rightarrow> bool" where
  "law_open K \<longleftrightarrow> (\<forall>e m b m'. lm_open K e m = Inr (b, m') \<longrightarrow> b \<notin> lm_live K m \<and> others_kept K b m m')"

definition law_destroy :: "('b, 'e, 'm) locked_memory \<Rightarrow> bool" where
  "law_destroy K \<longleftrightarrow> (\<forall>b m. b \<notin> lm_live K (lm_destroy K b m) \<and> others_kept K b m (lm_destroy K b m))"

definition law_wipe :: "('b, 'e, 'm) locked_memory \<Rightarrow> bool" where
  "law_wipe K \<longleftrightarrow> (\<forall>b m. lm_live K (lm_wipe K b m) = lm_live K m \<and> others_kept K b m (lm_wipe K b m) \<and>
     (b \<in> lm_live K m \<longrightarrow> lm_bytes K (lm_wipe K b m) b = replicate (length (lm_bytes K m b)) NUL))"

definition law_seal :: "('b, 'e, 'm) locked_memory \<Rightarrow> bool" where
  "law_seal K \<longleftrightarrow> (\<forall>b m e m'. lm_seal K b m = (e, m') \<longrightarrow> b \<notin> lm_live K m' \<and> others_kept K b m m' \<and>
     (b \<in> lm_live K m \<longrightarrow> e = lm_enclave K (lm_bytes K m b)))"

definition law_enclave :: "('b, 'e, 'm) locked_memory \<Rightarrow> bool" where
  "law_enclave K \<longleftrightarrow> lm_enclave K [] = None \<and>
     (\<forall>d m. d \<noteq> [] \<longrightarrow> lm_enclave K d \<noteq> None \<and> lm_size K (lm_enclave K d) = int (length d) \<and>
        (\<exists>b m'. lm_open K (lm_enclave K d) m = Inr (b, m') \<and> b \<in> lm_live K m' \<and> lm_bytes K m' b = d))"

definition locked_memory_laws :: "('b, 'e, 'm) locked_memory \<Rightarrow> bool" where
  "locked_memory_laws K \<longleftrightarrow>
     law_new K \<and> law_open K \<and> law_destroy K \<and> law_wipe K \<and> law_seal K \<and> law_enclave K"

subsection \<open>The wrappers\<close>

text \<open>\<open>NewLocked\<close> and \<open>NewLockedFromBytes\<close> have an error result that is always nil.\<close>

definition NewLockedFromBytes ::
    "('b, 'e, 'm) locked_memory \<Rightarrow> bytes \<Rightarrow> 'm \<Rightarrow> 'b result \<times> 'm" where
  "NewLockedFromBytes K data m = (let (buf, m) = lm_new K data m in (Inr buf, m))"

definition NewLocked :: "('b, 'e, 'm) locked_memory \<Rightarrow> string \<Rightarrow> 'm \<Rightarrow> 'b result \<times> 'm" where
  "NewLocked K data m = (let (buf, m) = lm_new K data m in (Inr buf, m))"

definition LockedBuffer_Close :: "('b, 'e, 'm) locked_memory \<Rightarrow> 'b \<Rightarrow> 'm \<Rightarrow> 'm" where
  "LockedBuffer_Close K b m = lm_destroy K b m"

definition LockedBuffer_Wipe :: "('b, 'e, 'm) locked_memory \<Rightarrow> 'b \<Rightarrow> 'm \<Rightarrow> 'm" where
  "LockedBuffer_Wipe K b m = lm_wipe K b m"

definition NewEnclave :: "('b, 'e, 'm) locked_memory \<Rightarrow> string \<Rightarrow> 'e option" where
  "NewEnclave K data = lm_enclave K data"

definition NewEnclaveFromBuffer :: "('b, 'e, 'm) locked_memory \<Rightarrow> 'b \<Rightarrow> 'm \<Rightarrow> 'e option \<times> 'm" where
  "NewEnclaveFromBuffer K buf m = lm_seal K buf m"

definition Enclave_Open_mem ::
    "('b, 'e, 'm) locked_memory \<Rightarrow> 'e option \<Rightarrow> 'm \<Rightarrow> 'b result \<times> 'm" where
  "Enclave_Open_mem K e m = (case lm_open K e m of
       Inl err \<Rightarrow> (Inl err, m)
     | Inr (buf, m) \<Rightarrow> (Inr buf, m))"

definition Enclave_Size :: "('b, 'e, 'm) locked_memory \<Rightarrow> 'e option \<Rightarrow> int" where
  "Enclave_Size K e = lm_size K e"

text \<open>What one buffer holds goes through an enclave and comes back in another.\<close>

lemma seal_open_roundtrip:
  assumes L: "locked_memory_laws K" and data: "data \<noteq> []" and new: "NewLocked K data m0 = (Inr b, m1)"
    and seal: "NewEnclaveFromBuffer K b m1 = (e, m2)"
  shows "b \<notin> lm_live K m2 \<and> Enclave_Size K e = int (length data) \<and>
    (\<exists>b' m3. Enclave_Open_mem K e m2 = (Inr b', m3) \<and> b' \<in> lm_live K m3 \<and> lm_bytes K m3 b' = data)"
proof -
  have "lm_new K data m0 = (b, m1)" using new by (simp add: NewLocked_def split: prod.splits)
  then have b: "b \<in> lm_live K m1" "lm_bytes K m1 b = data"
    using L data by (simp_all add: locked_memory_laws_def law_new_def)
  have e: "b \<notin> lm_live K m2" "e = lm_enclave K data"
    using L seal b by (auto simp: locked_memory_laws_def law_seal_def NewEnclaveFromBuffer_def)
  obtain b' m3 where "lm_open K e m2 = Inr (b', m3)" "b' \<in> lm_live K m3" "lm_bytes K m3 b' = data"
    using L data e(2) unfolding locked_memory_laws_def law_enclave_def by blast
  moreover have "lm_size K e = int (length data)"
    using L data e(2) by (simp add: locked_memory_laws_def law_enclave_def)
  ultimately show ?thesis using e(1) by (simp add: Enclave_Size_def Enclave_Open_mem_def)
qed

lemma wiped_then_closed:
  assumes "locked_memory_laws K" and "b \<in> lm_live K m"
  shows "lm_bytes K (LockedBuffer_Wipe K b m) b = replicate (length (lm_bytes K m b)) NUL"
    "lm_live K (LockedBuffer_Close K b (LockedBuffer_Wipe K b m)) = lm_live K m - {b}"
proof -
  have w: "lm_live K (lm_wipe K b m) = lm_live K m"
    "lm_bytes K (lm_wipe K b m) b = replicate (length (lm_bytes K m b)) NUL"
    using assms by (simp_all add: locked_memory_laws_def law_wipe_def)
  have d: "lm_live K (lm_destroy K b m') = lm_live K m' - {b}" for m'
  proof -
    have "b \<notin> lm_live K (lm_destroy K b m')" "others_kept K b m' (lm_destroy K b m')"
      using assms(1) by (simp_all add: locked_memory_laws_def law_destroy_def)
    then show ?thesis by (auto simp: others_kept_def)
  qed
  show "lm_bytes K (LockedBuffer_Wipe K b m) b = replicate (length (lm_bytes K m b)) NUL"
    "lm_live K (LockedBuffer_Close K b (LockedBuffer_Wipe K b m)) = lm_live K m - {b}"
    by (simp_all add: LockedBuffer_Wipe_def LockedBuffer_Close_def w d)
qed

subsection \<open>Key derivation with its buffers\<close>

text \<open>
  \<open>DeriveSigningKey\<close> with the memory: the deferred \<open>Close\<close> runs on every path after the enclave
  is open.
\<close>

definition derive_from_seed ::
    "('p1, 'p2, 's, 'ml) blst \<Rightarrow> bytes \<Rightarrow> string \<Rightarrow> string \<Rightarrow> 's result" where
  "derive_from_seed B masterSeed epoch credentialClass =
     (if masterSeed = [] then Inl (Errorf ''master seed cannot be empty'')
      else if epoch = '''' then Inl (Errorf ''epoch cannot be empty'')
      else if credentialClass = '''' then Inl (Errorf ''credential class cannot be empty'')
      else (case hkdf_Key masterSeed salt (derive_info epoch credentialClass) 64 of
          Inl err \<Rightarrow> Inl err
        | Inr hkdf_key \<Rightarrow> (case sc_hash_to B hkdf_key ''BCIS-V1-SCALAR'' of
            None \<Rightarrow> Inl (Errorf ''hash-to-scalar failed'')
          | Some sk \<Rightarrow> Inr sk)))"

definition DeriveSigningKey_mem ::
    "('p1, 'p2, 's, 'ml) blst \<Rightarrow> ('b, 'e, 'm) locked_memory \<Rightarrow> 'e option option \<Rightarrow> string \<Rightarrow> string \<Rightarrow> 'm \<Rightarrow>
     's result \<times> 'm" where
  "DeriveSigningKey_mem B K seedEnclave epoch credentialClass m =
     (case seedEnclave of None \<Rightarrow> (Inl (Errorf ''master seed cannot be empty''), m)
      | Some e \<Rightarrow> (case Enclave_Open_mem K e m of
          (Inl err, m) \<Rightarrow> (Inl err, m)
        | (Inr lockedBuffer, m) \<Rightarrow>
            (derive_from_seed B (lm_bytes K m lockedBuffer) epoch credentialClass,
             LockedBuffer_Close K lockedBuffer m)))"

text \<open>The two parameters describe one library when they open an enclave to the same bytes.\<close>

definition same_enclaves :: "('b, 'e, 'm) locked_memory \<Rightarrow> 'e option memguard \<Rightarrow> bool" where
  "same_enclaves K M \<longleftrightarrow> (\<forall>d. mg_seal M d = lm_enclave K d) \<and>
     (\<forall>e m. mg_open M e = (case lm_open K e m of Inl err \<Rightarrow> Inl err | Inr (b, m') \<Rightarrow> Inr (lm_bytes K m' b)))"

text \<open>The live buffers with what they hold.\<close>

definition live_contents :: "('b, 'e, 'm) locked_memory \<Rightarrow> 'm \<Rightarrow> 'b \<Rightarrow> bytes option" where
  "live_contents K m b = (if b \<in> lm_live K m then Some (lm_bytes K m b) else None)"

lemma open_then_close:
  assumes "locked_memory_laws K" and "lm_open K e m = Inr (b, m')"
  shows "live_contents K (LockedBuffer_Close K b m') = live_contents K m"
proof
  fix b'
  have "b \<notin> lm_live K m" "others_kept K b m m'" "b \<notin> lm_live K (lm_destroy K b m')"
    "others_kept K b m' (lm_destroy K b m')"
    using assms by (simp_all add: locked_memory_laws_def law_open_def law_destroy_def)
  then show "live_contents K (LockedBuffer_Close K b m') b' = live_contents K m b'"
    by (cases "b' = b") (simp_all add: live_contents_def LockedBuffer_Close_def others_kept_def)
qed

lemma DeriveSigningKey_from_seed:
  "DeriveSigningKey B M seed ep cl = (case seed of None \<Rightarrow> Inl (Errorf ''master seed cannot be empty'')
     | Some e \<Rightarrow> (case Enclave_Open M e of Inl err \<Rightarrow> Inl err | Inr ms \<Rightarrow> derive_from_seed B ms ep cl))"
  by (auto simp: DeriveSigningKey_def derive_from_seed_def split: option.splits sum.splits)

subsection \<open>A reference memory\<close>

text \<open>Buffers are numbered in the order of their creation; an enclave is its contents.\<close>

type_synonym table = "bytes option list"

definition table_get :: "table \<Rightarrow> nat \<Rightarrow> bytes option" where
  "table_get m b = (if b < length m then m ! b else None)"

definition table_bytes :: "table \<Rightarrow> nat \<Rightarrow> bytes" where
  "table_bytes m b = (case table_get m b of None \<Rightarrow> [] | Some d \<Rightarrow> d)"

definition table_enclave :: "bytes \<Rightarrow> bytes option" where
  "table_enclave d = (if d = [] then None else Some d)"

definition table_new :: "bytes \<Rightarrow> table \<Rightarrow> nat \<times> table" where
  "table_new d m = (length m, m @ [table_enclave d])"

definition table_memory :: "(nat, bytes, table) locked_memory" where
  "table_memory = \<lparr> lm_new = table_new, lm_destroy = (\<lambda>b m. m[b := None]),
     lm_wipe = (\<lambda>b m. m[b := map_option (\<lambda>d. replicate (length d) NUL) (table_get m b)]),
     lm_bytes = table_bytes, lm_live = (\<lambda>m. {b. table_get m b \<noteq> None}),
     lm_enclave = table_enclave, lm_seal = (\<lambda>b m. (table_enclave (table_bytes m b), m[b := None])),
     lm_open = (\<lambda>e m. case e of None \<Rightarrow> Inl (Errorf ''no enclave'') | Some d \<Rightarrow> Inr (table_new d m)),
     lm_size = (\<lambda>e. case e of None \<Rightarrow> 0 | Some d \<Rightarrow> int (length d)) \<rparr>"

lemma table_get_update: "table_get (m[b := x]) b' = (if b' = b \<and> b < length m then x else table_get m b')"
  by (simp add: table_get_def)

lemma table_get_new: "table_get (m @ [x]) b = (if b = length m then x else table_get m b)"
  by (simp add: table_get_def nth_append)

lemma table_get_len [simp]: "table_get m (length m) = None"
  by (simp add: table_get_def)

lemma table_get_beyond: "\<not> b < length m \<Longrightarrow> table_get m b = None"
  by (simp add: table_get_def)

lemma table_memory_laws: "locked_memory_laws table_memory"
proof -
  note table = others_kept_def table_memory_def table_new_def table_enclave_def table_bytes_def table_get_update
    table_get_new
  have "law_new table_memory" by (simp add: law_new_def table split: option.splits)
  moreover have "law_open table_memory" by (simp add: law_open_def table split: option.splits)
  moreover have "law_destroy table_memory" by (simp add: law_destroy_def table table_get_beyond)
  moreover have "law_wipe table_memory"
    by (auto simp: law_wipe_def table table_get_beyond split: option.splits dest: table_get_beyond)
  moreover have "law_seal table_memory" by (simp add: law_seal_def table table_get_beyond)
  moreover have "law_enclave table_memory" by (simp add: law_enclave_def table)
  ultimately show ?thesis by (simp add: locked_memory_laws_def)
qed

definition table_memguard :: "bytes option memguard" where
  "table_memguard = \<lparr> mg_seal = table_enclave,
     mg_open = (\<lambda>e. case e of None \<Rightarrow> Inl (Errorf ''no enclave'') | Some d \<Rightarrow> Inr d) \<rparr>"

lemma table_same_enclaves: "same_enclaves table_memory table_memguard"
  by (auto simp: same_enclaves_def table_memory_def table_memguard_def table_new_def table_bytes_def table_get_new
      table_enclave_def split: option.splits)

subsection \<open>Property\<close>

text \<open>
  C28: key derivation leaves no seed behind. Over any locked memory that opens the same enclaves,
  the derivation with explicit buffers returns what \<open>DeriveSigningKey\<close> returns, and on every
  path, errors included, the live buffers and their contents after it are those before it: the
  buffer that held the master seed is destroyed and no other is touched.
\<close>

theorem derive_key_leaves_no_seed:
  assumes "locked_memory_laws K" and "same_enclaves K M"
  shows "case DeriveSigningKey_mem B K seed ep cl m of (r, m') \<Rightarrow>
    r = DeriveSigningKey B M seed ep cl \<and> live_contents K m' = live_contents K m"
proof (cases seed)
  case (Some e)
  have M: "Enclave_Open M e = (case lm_open K e m of Inl err \<Rightarrow> Inl err | Inr (b, m') \<Rightarrow> Inr (lm_bytes K m' b))"
    using assms(2) by (auto simp: same_enclaves_def Enclave_Open_def split: sum.splits)
  show ?thesis
  proof (cases "lm_open K e m")
    case (Inr p)
    then show ?thesis using Some M open_then_close [OF assms(1), of e m]
      by (cases p) (simp add: DeriveSigningKey_mem_def DeriveSigningKey_from_seed Enclave_Open_mem_def)
  qed (simp add: Some M DeriveSigningKey_mem_def DeriveSigningKey_from_seed Enclave_Open_mem_def)
qed (simp add: DeriveSigningKey_mem_def DeriveSigningKey_from_seed)

theorem derive_key_leaves_no_seed_witness:
  "case DeriveSigningKey_mem z3_blst table_memory (Some (Some ''seed'')) '''' ''gold'' [Some ''other''] of (r, m') \<Rightarrow>
     r = DeriveSigningKey z3_blst table_memguard (Some (Some ''seed'')) '''' ''gold'' \<and>
     r = Inl (Errorf ''epoch cannot be empty'') \<and>
     live_contents table_memory m' = live_contents table_memory [Some ''other'']"
proof -
  have "DeriveSigningKey z3_blst table_memguard (Some (Some ''seed'')) '''' ''gold'' = Inl (Errorf ''epoch cannot be empty'')"
    by (simp add: DeriveSigningKey_def Enclave_Open_def table_memguard_def)
  with derive_key_leaves_no_seed [OF table_memory_laws table_same_enclaves, of z3_blst "Some (Some ''seed'')" "''''" "''gold''"
      "[Some ''other'']"]
  show ?thesis by (auto split: prod.splits)
qed

end
