(* ===== verification/Vectors.thy ===== *)
theory Vectors
  imports Cli Protocol
begin

section \<open>The generator of test vectors (scripts/generate_vectors.go)\<close>

text \<open>
  The script that writes \<open>docs/crypto_vectors.md\<close>: it derives a key from a fixed seed, runs one
  issuance on a fixed message, checks its own proof and writes every value in hex. Its two
  flags, the outcomes of its file operations and the randomness are arguments; an error ends it
  with code 1 and may leave an empty or a partial file. The property is that the written
  credential is one the service redeems, whatever the blinding scalar was.
\<close>

subsection \<open>Parameters of the vectors\<close>

definition masterSeedHex :: string where
  "masterSeedHex = ''000102030405060708090a0b0c0d0e0f101112131415161718191a1b1c1d1e1f''"

definition vector_epoch :: string where "vector_epoch = ''2026-01''"
definition vector_class :: string where "vector_class = ''tier_gold''"
definition vector_message :: bytes where "vector_message = ''Hello BlindVault''"
definition vector_dst :: bytes where "vector_dst = ''BCIS-V1-MESSAGE''"

definition fixedScalar :: string where
  "fixedScalar = ''38c68a61123fdfd471569e3fb9398b29a8f96d27b99f36677dc3b9163a618b49''"

subsection \<open>Flags\<close>

text \<open>
  \<open>-output\<close> takes a value, the boolean \<open>-rand\<close> takes one after an equals sign only. The
  flags of the process exit with code 2 on an error, or 0 when help was asked for.
\<close>

definition ParseBool :: "string \<Rightarrow> bool option" where
  "ParseBool s =
     (if s \<in> {''1'', ''t'', ''T'', ''true'', ''TRUE'', ''True''} then Some True
      else if s \<in> {''0'', ''f'', ''F'', ''false'', ''FALSE'', ''False''} then Some False else None)"

fun vector_flags :: "string list \<Rightarrow> string \<times> bool \<Rightarrow> nat + string \<times> bool" where
  "vector_flags [] (output, rand) = Inr (output, rand)"
| "vector_flags (s # args) (output, rand) =
     (if length s < 2 \<or> hd s \<noteq> CHR ''-'' \<or> s = ''--'' then Inr (output, rand)
      else let name = (if s ! 1 = CHR ''-'' then drop 2 s else drop 1 s)
        in if name = '''' \<or> hd name = CHR ''-'' \<or> hd name = CHR ''='' then Inl 2
        else let (n, v) = (case SplitN2 (CHR ''='') name of [n, v] \<Rightarrow> (n, Some v) | _ \<Rightarrow> (name, None))
        in if n = ''output'' then
             (case (v, args) of
                (Some path, _) \<Rightarrow> vector_flags args (path, rand)
              | (None, path # rest) \<Rightarrow> vector_flags rest (path, rand)
              | (None, []) \<Rightarrow> Inl 2)
           else if n = ''rand'' then
             (case v of
                None \<Rightarrow> vector_flags args (output, True)
              | Some b \<Rightarrow> (case ParseBool b of
                  None \<Rightarrow> Inl 2
                | Some b \<Rightarrow> vector_flags args (output, b)))
           else Inl (if n \<in> {''help'', ''h''} then 0 else 2))"

definition vector_defaults :: "string \<times> bool" where
  "vector_defaults = (''docs/crypto_vectors.md'', False)"

subsection \<open>The file\<close>

record ('p1, 'p2, 's) vectors =
  vv_sk :: 's
  vv_pk :: 'p2
  vv_blinded :: 'p1
  vv_blindSig :: 'p1
  vv_proof :: "('p1, 'p2, 's) dleq_proof"
  vv_r :: 's
  vv_unblinded :: 'p1
  vv_witness :: 'p1
  vv_nullifier :: bytes

definition md_field :: "string \<Rightarrow> string \<Rightarrow> string" where
  "md_field name v = ''- '' @ name @ '': '' @ [CHR 0x22] @ v @ [CHR 0x22]"

definition vectors_text :: "('p1, 'p2, 's, 'ml) blst \<Rightarrow> ('p1, 'p2, 's) vectors \<Rightarrow> bytes" where
  "vectors_text B vv = concat (map println
     [''# Generated Crypto Test Vectors'', '''',
      ''> Generated by scripts/generate_vectors.go.'', ''>'',
      ''> Run: go run scripts/generate_vectors.go --output docs/crypto_vectors.md'', ''>'', '''',
      ''## Parameters'', '''',
      md_field ''master_seed_hex'' masterSeedHex, md_field ''epoch'' vector_epoch,
      md_field ''credential_class'' vector_class, md_field ''message'' vector_message,
      md_field ''dst'' vector_dst, '''',
      ''## Derived Keys'', '''',
      md_field ''derived_sk'' (hex_encode (Scalar_Bytes B (vv_sk vv))),
      md_field ''public_key'' (hex_of (G2_Compress B (vv_pk vv))), '''',
      ''## Issuance'', '''',
      md_field ''blinded_message'' (hex_of (G1_Compress B (vv_blinded vv))),
      md_field ''blind_signature'' (hex_of (G1_Compress B (vv_blindSig vv))), '''',
      ''Note: the proof are always differents(randomized)'',
      md_field ''proof_r1'' (hex_of (G2_Compress B (pf_R1 (vv_proof vv)))),
      md_field ''proof_r2'' (hex_of (G1_Compress B (pf_R2 (vv_proof vv)))),
      md_field ''proof_s'' (hex_encode (Scalar_Bytes B (pf_S (vv_proof vv)))),
      md_field ''proof_c'' (hex_encode (Scalar_Bytes B (pf_C (vv_proof vv)))), '''',
      md_field ''random_scalar'' (hex_encode (Scalar_Bytes B (vv_r vv))), '''',
      ''## Consumption'', '''',
      md_field ''unblinded_signature'' (hex_of (G1_Compress B (vv_unblinded vv))),
      md_field ''witness'' (hex_of (G1_Compress B (vv_witness vv))),
      md_field ''nullifier'' (hex_encode (vv_nullifier vv))])"

subsection \<open>The run\<close>

text \<open>
  \<open>vi_write\<close> is the failure of the one write of the text, with the number of bytes that
  reached the file; \<open>vi_rand\<close> and \<open>vi_nonce\<close> are the randomness of the blinding scalar and of
  the proof.
\<close>

record vectors_io =
  vi_mkdir :: "string \<Rightarrow> goerr option"
  vi_create :: "string \<Rightarrow> goerr option"
  vi_write :: "(nat \<times> goerr) option"
  vi_rand :: "bytes result"
  vi_nonce :: "bytes result"

text \<open>\<open>filepath.Dir\<close>: all but the last element of a path, cleaned.\<close>

definition Dir :: "string \<Rightarrow> string" where
  "Dir path = Clean (List.rev (dropWhile (\<lambda>c. c \<noteq> CHR ''/'') (List.rev path)))"

definition vectors_scalar :: "('p1, 'p2, 's, 'ml) blst \<Rightarrow> bytes result \<Rightarrow> bool \<Rightarrow> 's result" where
  "vectors_scalar B rnd random =
     (if random then NewRandomScalar B rnd
      else (case hex_decode fixedScalar of
          Inl err \<Rightarrow> Inl err
        | Inr randBytes \<Rightarrow> NewBlstScalarFromBytes B randBytes))"

definition vectors_write :: "vectors_io \<Rightarrow> string \<Rightarrow> bytes \<Rightarrow> files \<Rightarrow> cli_end \<times> files" where
  "vectors_write io outputPath data fs = (case vi_write io of
       Some (n, err) \<Rightarrow> (CliExit 1 '''', fs(outputPath \<mapsto> take n data))
     | None \<Rightarrow> (CliExit 0 '''', fs(outputPath \<mapsto> data)))"

definition vectors_main ::
    "('p1, 'p2, 's, 'ml) blst \<Rightarrow> 'e memguard \<Rightarrow> vectors_io \<Rightarrow> string list \<Rightarrow> files \<Rightarrow> cli_end \<times> files" where
  "vectors_main B M io args fs =
     (case vector_flags (drop 1 args) vector_defaults of
        Inl code \<Rightarrow> (CliExit code '''', fs)
      | Inr (outputPath, random) \<Rightarrow>
     (case vi_mkdir io (Dir outputPath) of
        Some err \<Rightarrow> (CliExit 1 '''', fs)
      | None \<Rightarrow>
     (case vi_create io outputPath of
        Some err \<Rightarrow> (CliExit 1 '''', fs)
      | None \<Rightarrow>
        let fs = fs(outputPath \<mapsto> []);
            engine = NewBLS12Engine B
        in must (hex_decode masterSeedHex) (\<lambda>seed.
           let masterSeed = NewEnclaveFromBytes M seed
           in must (DeriveSigningKey B M (Some masterSeed) vector_epoch vector_class) (\<lambda>sk.
           let pk = PubKey B sk
           in must (HashToCurve engine vector_message (Some vector_dst)) (\<lambda>msgPoint.
           must (vectors_scalar B (vi_rand io) random) (\<lambda>r.
           must (BlindMessage B msgPoint r) (\<lambda>blinded.
           must (SignBlinded B blinded sk) (\<lambda>blindSig.
           must (UnblindSignature B blindSig r) (\<lambda>unblinded.
           let nullifier = ComputeNullifier B vector_epoch vector_class unblinded
           in must (DLEQProve B (vi_nonce io) sk blinded pk) (\<lambda>proof.
           if \<not> DLEQVerify B proof blinded blindSig pk then (CliExit 1 '''', fs)
           else vectors_write io outputPath (vectors_text B
             \<lparr> vv_sk = sk, vv_pk = pk, vv_blinded = blinded, vv_blindSig = blindSig, vv_proof = proof,
               vv_r = r, vv_unblinded = unblinded, vv_witness = msgPoint, vv_nullifier = nullifier \<rparr>) fs)
           fs) fs) fs) fs) fs) fs) fs) fs)))"

subsection \<open>The written credential is redeemable\<close>

lemma fixedScalar_decoded: "hex_decode fixedScalar = Inr (map char_of
   [0x38, 0xc6, 0x8a, 0x61, 0x12, 0x3f, 0xdf, 0xd4, 0x71, 0x56, 0x9e, 0x3f, 0xb9, 0x39, 0x8b, 0x29,
    0xa8, 0xf9, 0x6d, 0x27, 0xb9, 0x9f, 0x36, 0x67, 0x7d, 0xc3, 0xb9, 0x16, 0x3a, 0x61, 0x8b, 0x49 :: nat])"
  by (simp add: fixedScalar_def from_hex_def)

definition vector_seed :: bytes where
  "vector_seed = map char_of [0 ..< 32 :: nat]"

lemma masterSeedHex_decoded: "hex_decode masterSeedHex = Inr vector_seed"
  by (simp add: masterSeedHex_def vector_seed_def from_hex_def upt_rec)

text \<open>The steps of a run that ended with code 0.\<close>


lemma vectors_main_0:
  assumes "vectors_main B M io args fs = (CliExit 0 out, fs')"
    and "vector_flags (drop 1 args) vector_defaults = Inr (path, random)"
  obtains vv where "fs' = fs(path \<mapsto> vectors_text B vv)" "vv_pk vv = PubKey B (vv_sk vv)"
    "DeriveSigningKey B M (Some (NewEnclaveFromBytes M vector_seed)) vector_epoch vector_class = Inr (vv_sk vv)"
    "vv_witness vv = hash_to_g1 B vector_message vector_dst" "vectors_scalar B (vi_rand io) random = Inr (vv_r vv)"
    "BlindMessage B (vv_witness vv) (vv_r vv) = Inr (vv_blinded vv)" "SignBlinded B (vv_blinded vv) (vv_sk vv) = Inr (vv_blindSig vv)"
    "UnblindSignature B (vv_blindSig vv) (vv_r vv) = Inr (vv_unblinded vv)"
    "DLEQVerify B (vv_proof vv) (vv_blinded vv) (vv_blindSig vv) (vv_pk vv)"
    "vv_nullifier vv = ComputeNullifier B vector_epoch vector_class (vv_unblinded vv)"
proof -
  have "\<exists>vv. fs' = fs(path \<mapsto> vectors_text B vv) \<and> vv_pk vv = PubKey B (vv_sk vv) \<and>
    DeriveSigningKey B M (Some (NewEnclaveFromBytes M vector_seed)) vector_epoch vector_class = Inr (vv_sk vv) \<and>
    vv_witness vv = hash_to_g1 B vector_message vector_dst \<and> vectors_scalar B (vi_rand io) random = Inr (vv_r vv) \<and>
    BlindMessage B (vv_witness vv) (vv_r vv) = Inr (vv_blinded vv) \<and> SignBlinded B (vv_blinded vv) (vv_sk vv) = Inr (vv_blindSig vv) \<and>
    UnblindSignature B (vv_blindSig vv) (vv_r vv) = Inr (vv_unblinded vv) \<and>
    DLEQVerify B (vv_proof vv) (vv_blinded vv) (vv_blindSig vv) (vv_pk vv) \<and>
    vv_nullifier vv = ComputeNullifier B vector_epoch vector_class (vv_unblinded vv)"
    using assms
    by (force simp: vectors_main_def must_def vectors_write_def masterSeedHex_decoded HashToCurve_def NewBLS12Engine_def
        defaultHashToCurve_def Let_def split: option.splits sum.splits if_splits prod.splits)
  then show thesis using that by blast
qed

text \<open>The blinding scalar is never zero: a hashed one by the law, the fixed one as the number it is.\<close>

lemma vectors_scalar_nonzero:
  assumes L: "blst_laws B D" and r: "vectors_scalar B rnd random = Inr r" and "random \<or> ord D = fr_order"
  shows "sv D r \<noteq> 0"
proof (cases random)
  case True
  then show ?thesis using NewRandomScalar_nonzero [OF L] r by (simp add: vectors_scalar_def)
next
  case False
  let ?b = "map char_of [0x38, 0xc6, 0x8a, 0x61, 0x12, 0x3f, 0xdf, 0xd4, 0x71, 0x56, 0x9e, 0x3f, 0xb9, 0x39, 0x8b, 0x29,
    0xa8, 0xf9, 0x6d, 0x27, 0xb9, 0x9f, 0x36, 0x67, 0x7d, 0xc3, 0xb9, 0x16, 0x3a, 0x61, 0x8b, 0x49 :: nat]"
  have v: "be_val ?b = 0x38c68a61123fdfd471569e3fb9398b29a8f96d27b99f36677dc3b9163a618b49"
  proof -
    have "of_char (char_of n) = int (n mod 256)" for n :: nat by (metis of_char_of of_nat_of_char)
    then show ?thesis by (simp add: be_val_def)
  qed
  have "r = sc_from_be B ?b"
    using r False by (auto simp: vectors_scalar_def fixedScalar_decoded NewBlstScalarFromBytes_def split: if_splits)
  moreover have "be_val ?b < ord D" unfolding v using False assms(3) by (simp add: fr_order_def)
  then have "sv D (sc_from_be B ?b) = be_val ?b" using L by (auto simp: blst_laws_def sc_codec_law_def)
  ultimately show ?thesis unfolding v by simp
qed

text \<open>
  C24: the generated vectors. When the generator ends with code 0, its file holds the vectors
  of a signature that is the one of the fixed message under the derived key, whatever the
  blinding scalar was, with a proof that verifies; and a service that derives the same key,
  supports the epoch and has no revocation in force redeems the written signature and witness
  unless it has stored the written nullifier. The fixed scalar needs the order of the real
  group, a random one does not.
\<close>

theorem generated_vectors_redeemable:
  assumes L: "blst_laws B D" and flags: "vector_flags (drop 1 args) vector_defaults = Inr (path, random)"
    and order: "random \<or> ord D = fr_order"
    and run: "vectors_main B M io args fs = (CliExit 0 out, fs')"
  shows "\<exists>vv. fs' = fs(path \<mapsto> vectors_text B vv) \<and>
    DeriveSigningKey B M (Some (NewEnclaveFromBytes M vector_seed)) vector_epoch vector_class = Inr (vv_sk vv) \<and>
    vv_witness vv = hash_to_g1 B vector_message vector_dst \<and>
    SignBlinded B (vv_witness vv) (vv_sk vv) = Inr (vv_unblinded vv) \<and>
    DLEQVerify B (vv_proof vv) (vv_blinded vv) (vv_blindSig vv) (vv_pk vv) \<and>
    (\<forall>s. service_key B M vector_epoch vector_class (cs_config s) = Inr (vv_sk vv) \<and>
       vector_epoch \<in> set (cf_SupportedEpochs (cs_config s)) \<and> not_revoked RI t1 vector_class vector_epoch s \<longrightarrow>
       (accepted (fst (Consume B M InMemoryNullifierStore RI t1 t2 background (hex_of (G1_Compress B (vv_unblinded vv)))
          (hex_of (G1_Compress B (vv_witness vv))) vector_class vector_epoch s)) \<longleftrightarrow>
        nm_store (cs_store s) (vv_nullifier vv) \<noteq> Some True))"
proof -
  obtain vv where f: "fs' = fs(path \<mapsto> vectors_text B vv)"
    and sk: "DeriveSigningKey B M (Some (NewEnclaveFromBytes M vector_seed)) vector_epoch vector_class = Inr (vv_sk vv)"
    and w: "vv_witness vv = hash_to_g1 B vector_message vector_dst" and r: "vectors_scalar B (vi_rand io) random = Inr (vv_r vv)"
    and sig: "BlindMessage B (vv_witness vv) (vv_r vv) = Inr (vv_blinded vv)" "SignBlinded B (vv_blinded vv) (vv_sk vv) = Inr (vv_blindSig vv)"
      "UnblindSignature B (vv_blindSig vv) (vv_r vv) = Inr (vv_unblinded vv)"
    and pf: "DLEQVerify B (vv_proof vv) (vv_blinded vv) (vv_blindSig vv) (vv_pk vv)"
    and n: "vv_nullifier vv = ComputeNullifier B vector_epoch vector_class (vv_unblinded vv)"
    by (rule vectors_main_0 [OF run flags])
  have win: "p1_in_g1 B (vv_witness vv)" using L by (simp add: w hash_in_g1)
  have u: "vv_unblinded vv = p1_mult B (vv_witness vv) (vv_sk vv)"
    using sig mult_inverse_cancel [OF L win vectors_scalar_nonzero [OF L r order]]
    by (simp add: BlindMessage_def SignBlinded_def UnblindSignature_def) metis
  then have uin: "p1_in_g1 B (vv_unblinded vv)" using L win by (simp add: blst_simps)
  have d: "decoded B (hex_of (G1_Compress B (vv_unblinded vv))) x \<longleftrightarrow> x = vv_unblinded vv"
    "decoded B (hex_of (G1_Compress B (vv_witness vv))) x \<longleftrightarrow> x = vv_witness vv" for x
    by (metis decoded_hex_of [OF L uin] decoded_unique, metis decoded_hex_of [OF L win] decoded_unique)
  have "vector_class \<noteq> ''''" "vector_epoch \<noteq> ''''" by (simp_all add: vector_class_def vector_epoch_def)
  then have "accepted (fst (Consume B M InMemoryNullifierStore RI t1 t2 background (hex_of (G1_Compress B (vv_unblinded vv)))
      (hex_of (G1_Compress B (vv_witness vv))) vector_class vector_epoch s)) \<longleftrightarrow>
      nm_store (cs_store s) (vv_nullifier vv) \<noteq> Some True"
    if "service_key B M vector_epoch vector_class (cs_config s) = Inr (vv_sk vv)"
      "vector_epoch \<in> set (cf_SupportedEpochs (cs_config s))" "not_revoked RI t1 vector_class vector_epoch s" for s
    unfolding Consume_accepted_iff [OF L] d n using that u by (auto simp: background_def)
  moreover have "SignBlinded B (vv_witness vv) (vv_sk vv) = Inr (vv_unblinded vv)" by (simp add: u SignBlinded_def)
  ultimately show ?thesis using f sk w pf by blast
qed

subsection \<open>A run on the reference group\<close>

definition sample_vectors_io :: vectors_io where
  "sample_vectors_io = \<lparr> vi_mkdir = (\<lambda>d. None), vi_create = (\<lambda>p. None), vi_write = None,
     vi_rand = Inr ''noise'', vi_nonce = Inr ''noise'' \<rparr>"

lemma sample_vector_flags:
  "vector_flags (drop 1 [''vectors'', ''-output'', ''v.md'', ''-rand'']) vector_defaults = Inr (''v.md'', True)"
  by (simp add: vector_defaults_def)

lemma sample_vector_key:
  "DeriveSigningKey z3_blst plain_memguard (Some (NewEnclaveFromBytes plain_memguard vector_seed))
     vector_epoch vector_class = Inr Z1"
  by (simp add: DeriveSigningKey_ok_iff Enclave_Open_def plain_memguard_def z3_blst_def z3_hash_def NewEnclaveFromBytes_def
      vector_seed_def vector_epoch_def vector_class_def)

lemma sample_vectors_run:
  "\<exists>fs. vectors_main z3_blst plain_memguard sample_vectors_io [''vectors'', ''-output'', ''v.md'', ''-rand''] Map.empty =
     (CliExit 0 '''', fs)"
proof -
  have r: "vectors_scalar z3_blst (Inr ''noise'') True = Inr Z1"
    by (simp add: vectors_scalar_def NewRandomScalar_def z3_blst_def z3_hash_def randomScalarDST_def)
  have h: "hash_to_g1 z3_blst vector_message vector_dst = Z2"
    by (simp add: z3_blst_def z3_hash_def vector_message_def vector_dst_def)
  obtain pf where p: "DLEQProve z3_blst (Inr ''noise'') Z1 Z2 (PubKey z3_blst Z1) = Inr pf"
    using sample_proof by blast
  have "DLEQVerify z3_blst pf Z2 Z2 (PubKey z3_blst Z1)"
    by (rule DLEQProve_verifies [OF z3_blst_laws _ p]) (simp_all add: z3_ops SignBlinded_def)
  then show ?thesis
    using sample_vector_key r h p unfolding vectors_main_def sample_vector_flags
    by (simp add: sample_vectors_io_def masterSeedHex_decoded must_def vectors_write_def HashToCurve_def NewBLS12Engine_def
        defaultHashToCurve_def BlindMessage_def SignBlinded_def UnblindSignature_def z3_ops Let_def)
qed

theorem generated_vectors_redeemable_witness:
  "\<exists>vv. vectors_main z3_blst plain_memguard sample_vectors_io [''vectors'', ''-output'', ''v.md'', ''-rand''] Map.empty =
     (CliExit 0 '''', [''v.md'' \<mapsto> vectors_text z3_blst vv]) \<and>
   SignBlinded z3_blst (vv_witness vv) (vv_sk vv) = Inr (vv_unblinded vv) \<and>
   accepted (fst (Consume z3_blst plain_memguard InMemoryNullifierStore InMemoryRevocationStore 0 0 background
     (hex_of (G1_Compress z3_blst (vv_unblinded vv))) (hex_of (G1_Compress z3_blst (vv_witness vv)))
     vector_class vector_epoch sample_service))"
proof -
  obtain fs where run: "vectors_main z3_blst plain_memguard sample_vectors_io [''vectors'', ''-output'', ''v.md'', ''-rand'']
      Map.empty = (CliExit 0 '''', fs)" using sample_vectors_run by blast
  have s: "service_key z3_blst plain_memguard vector_epoch vector_class (cs_config sample_service) = Inr Z1"
    by (rule z3_service_key) (simp_all add: vector_epoch_def vector_class_def)
  have n: "not_revoked InMemoryRevocationStore 0 vector_class vector_epoch sample_service"
    by (simp add: not_revoked_def InMemoryRevocationStore_def mem_IsRevoked_def NewInMemoryRevocationStore_def)
  show ?thesis
    using generated_vectors_redeemable [OF z3_blst_laws sample_vector_flags _ run, of InMemoryRevocationStore 0 0]
      run s sample_vector_key n
    by (auto simp: vector_epoch_def NewInMemoryNullifierStore_def)
qed

end
