(* ===== verification/EntryJson.thy ===== *)
theory EntryJson
  imports Replies
begin

section \<open>Stored revocations as JSON (internal/storage: revocation_redis.go, store.go)\<close>

text \<open>
  \<open>json.Marshal\<close> and \<open>json.Unmarshal\<close> of a \<open>RevocationEntry\<close> by its struct tags, over the printer
  and the scanner of \<open>Json\<close>. The printing of times is a parameter that the modelled parser of RFC
  3339 times reads back; under that law the codec satisfies \<open>entry_json_laws\<close>, on which the Redis
  store rests.
\<close>

definition zero_time :: instant where
  "zero_time = - 62135596800 * second"

text \<open>Decoding into a \<open>time.Time\<close>; null leaves it as it is.\<close>

fun dec_time_value :: "instant \<Rightarrow> json \<Rightarrow> instant option" where
  "dec_time_value x (JStr raw) = parse_rfc3339 raw"
| "dec_time_value x JNull = Some x"
| "dec_time_value x _ = None"

definition decode_revocation :: "(string \<times> json) list \<Rightarrow> revocation_entry option" where
  "decode_revocation ms =
     (let ms = struct_members [''credential_class'', ''key_epoch'', ''reason'', ''revoked_at'',
            ''revoked_until'', ''revoked_by''] ms
      in (case (get_field dec_string ''credential_class'' ms '''', get_field dec_string ''key_epoch'' ms '''',
                get_field dec_string ''reason'' ms '''', get_field dec_time_value ''revoked_at'' ms zero_time,
                get_field dec_time ''revoked_until'' ms None, get_field dec_string ''revoked_by'' ms '''') of
            (Some c, Some e, Some why, Some at, Some u, Some who) \<Rightarrow> Some \<lparr> re_CredentialClass = c,
               re_KeyEpoch = e, re_Reason = why, re_RevokedAt = at, re_RevokedUntil = u, re_RevokedBy = who \<rparr>
          | _ \<Rightarrow> None))"

definition entry_codec :: "(instant \<Rightarrow> string option) \<Rightarrow> entry_json" where
  "entry_codec F = \<lparr>
     ej_marshal = (\<lambda>e. case entry_form F e of
         None \<Rightarrow> Inl (Errorf ''json: error calling MarshalJSON for type time.Time'')
       | Some v \<Rightarrow> Inr (Marshal v)),
     ej_unmarshal = (\<lambda>b. case Option.bind (Option.bind (json_whole b) json_members) decode_revocation of
         None \<Rightarrow> Inl (Errorf ''json: cannot unmarshal'')
       | Some e \<Rightarrow> Inr e) \<rparr>"

text \<open>Times are printed as RFC 3339 texts of the instant they stand for.\<close>

definition prints_instants :: "(instant \<Rightarrow> string option) \<Rightarrow> bool" where
  "prints_instants F \<longleftrightarrow> (\<forall>t at. F t = Some at \<longrightarrow> good_token at \<and> parse_rfc3339 at = Some t)"

lemma prints_instants_times: "prints_instants F \<Longrightarrow> prints_times F"
  by (simp add: prints_instants_def prints_times_def)

lemma decode_revocation_printed:
  assumes "\<forall>m \<in> set ms. fst m \<in> {''credential_class'', ''key_epoch'', ''reason'', ''revoked_at'', ''revoked_until'', ''revoked_by''}"
  shows "struct_members [''credential_class'', ''key_epoch'', ''reason'', ''revoked_at'', ''revoked_until'', ''revoked_by'']
     (map (\<lambda>(k, v). (json_escape k, v)) ms) = ms"
  by (rule struct_members_printed) (use assms in \<open>auto intro: valid_utf8_ascii\<close>)

lemma entry_form_decodes:
  assumes "prints_instants F" and "entry_form F e = Some v"
  shows "Option.bind (json_members v) decode_revocation = Some (utf8_entry e)"
proof -
  have F: "parse_rfc3339 at = Some t" if "F t = Some at" for t at using assms(1) that by (simp add: prints_instants_def)
  have str: "dec_string x (json_string s) = Some (coerce_utf8 s)" for x s
    by (simp add: json_string_def unquote_json_escape_coerces)
  obtain at where at: "F (re_RevokedAt e) = Some at" using assms(2) by (auto simp: entry_form_def split: option.splits)
  show ?thesis
  proof (cases "re_RevokedUntil e")
    case None
    then show ?thesis
      using assms(2) at by (cases e) (auto simp: entry_form_def json_object_def decode_revocation_def Let_def
          decode_revocation_printed str F utf8_entry_def simp del: map_append list.map split: option.splits)
  next
    case (Some u)
    then obtain ut where u: "F u = Some ut" using assms(2) at by (auto simp: entry_form_def split: option.splits)
    then show ?thesis
      using assms(2) at Some by (cases e) (auto simp: entry_form_def json_object_def decode_revocation_def Let_def
          decode_revocation_printed str F utf8_entry_def simp del: map_append list.map split: option.splits)
  qed
qed

lemma entry_codec_laws: "prints_instants F \<Longrightarrow> entry_json_laws (entry_codec F)"
  unfolding entry_json_laws_def
proof (intro allI impI)
  fix e b
  assume F: "prints_instants F" and "ej_marshal (entry_codec F) e = Inr b"
  then obtain v where v: "entry_form F e = Some v" "b = Marshal v" by (auto simp: entry_codec_def split: option.splits)
  have "v \<noteq> JNum raw" for raw using v(1) by (auto simp: entry_form_def json_object_def split: option.splits)
  then have "json_whole (Marshal v) = Some v"
    using entry_form_good [OF prints_instants_times [OF F] v(1)] Marshal_first [of v "[]"]
    by (auto simp: json_whole_def max_nesting_def)
  then show "ej_unmarshal (entry_codec F) b = Inr (utf8_entry e)"
    using entry_form_decodes [OF F v(1)] v(2) by (simp add: entry_codec_def)
qed

text \<open>A printer that satisfies the law, defined at one instant.\<close>

definition epoch_time :: "instant \<Rightarrow> string option" where
  "epoch_time t = (if t = 0 then Some ''1970-01-01T00:00:00Z'' else None)"

lemma prints_epoch_time: "prints_instants epoch_time"
proof -
  have "good_token ''1970-01-01T00:00:00Z''" by (simp add: good_token_def str_step_def)
  moreover have "parse_rfc3339 ''1970-01-01T00:00:00Z'' = Some 0"
    by (simp add: parse_rfc3339_def uint_in_def nanoseconds_def zone_offset_def unix_days_def days_in_def in_range_def Let_def)
  ultimately show ?thesis by (simp add: prints_instants_def epoch_time_def)
qed

lemma codec_of_epoch_time:
  "entry_json_laws (entry_codec epoch_time)"
  "\<exists>b. ej_marshal (entry_codec epoch_time) (new_entry 0 ''gold'' ''2026-01'' ''leak'' ''root'' None) = Inr b"
  by (rule entry_codec_laws [OF prints_epoch_time])
    (simp add: entry_codec_def entry_form_def epoch_time_def new_entry_def)

end
