(* ===== verification/Spec2Isabelle.thy ===== *)
theory Spec2Isabelle
  imports ApiProperties EndToEnd Startup Connect ServerRuns Concurrency BodyLimit StartLog SecureMemory Vectors EntryJson
begin

section \<open>BlindVault: a service for blind credentials\<close>

text \<open>
  BlindVault issues credentials it cannot recognise later. A client hashes a message to a point
  of a curve, blinds it with a scalar and has the service sign it; it removes the blinding and
  redeems the signature together with the message point. The service recomputes the key from
  its sealed master seed, checks the pair with a pairing, and stores a nullifier so that the
  signature is redeemed once. Administrators revoke classes and epochs of credentials. The
  program is a server (\<open>cmd/server\<close>, \<open>internal\<close>), the cryptography (\<open>pkg/crypto\<close>), a client
  library with a state file (\<open>pkg/client\<close>) and a command line client (\<open>cmd/bv\<close>).

  \<^bold>\<open>Theories and code.\<close> Each group of definitions keeps the names of the code; a method that has
  a common name carries its type as a prefix (\<open>mem_\<close>, \<open>redis_\<close>, \<open>state_\<close>, \<open>Service_\<close>).

  \<^item> \<open>Prelude\<close>, \<open>GoStd\<close>, \<open>Sha256\<close>, \<open>NetIP\<close>, \<open>Json\<close>, \<open>Http\<close>: the parts of Go's standard library
    the code uses, translated to executable functions: hex, integers and string splitting;
    SHA-256, HMAC and HKDF on 32-bit words; IP addresses; the JSON scanner, printer and decoder;
    requests and response writers. \<open>JsonRoundTrip\<close> proves that the scanner reads what the
    printer prints.
  \<^item> \<open>Apperr\<close> (\<open>pkg/apperr\<close>, \<open>pkg/errors\<close>): errors as a datatype, a result is \<open>goerr + 'a\<close>, and
    every early return of the code is a branch.
  \<^item> \<open>Blst\<close>, \<open>Curve\<close>, \<open>Engine\<close>, \<open>KeyDerivation\<close> (\<open>pkg/crypto\<close>, \<open>pkg/securememory\<close>): the curve library
    is a record of operations with its documented laws as the hypothesis \<open>blst_laws\<close>, which the
    group of order three satisfies; points and scalars, blinding, signing, both verifications,
    the equality proof, key derivation and nullifiers over it. \<open>SecureMemory\<close> has the buffers in
    locked memory and the derivation of a key with the buffers it opens and closes.
  \<^item> \<open>Redis\<close>, \<open>NullifierStore\<close>, \<open>RevocationStore\<close> (\<open>internal/storage\<close>): the two stores in memory and
    on a Redis client, which is a record of commands with laws on what a reply tells. The
    locales \<open>nullifier_store\<close> and \<open>revocation_store\<close> are the contracts the service relies on;
    both implementations interpret them. A reply that a key was there already may follow the
    client's own write, since it retries a command whose reply was lost. \<open>EntryJson\<close> has the JSON
    form of stored revocations, bytes that are not UTF-8 replaced as JSON does, and proves the
    law \<open>entry_json_laws\<close> of it.
  \<^item> \<open>Validation\<close>, \<open>Config\<close>, \<open>Auth\<close>, \<open>Metrics\<close> (\<open>internal/validation\<close>, \<open>internal/service\<close>,
    \<open>internal/auth\<close>, \<open>pkg/metrics\<close>): request validation, the configuration and its policy, token
    validation, the calls on the metrics collector. \<open>Registry\<close> has the vectors of the collector
    and their registration, over the library's registry (\<open>registry_law\<close>).
  \<^item> \<open>Service\<close> (\<open>internal/service/credentials.go\<close>): \<open>Issue\<close> and \<open>Consume\<close>, the latter as the
    composition of its admission, verification and commit. \<open>Protocol\<close> joins it with the client's
    steps. \<open>Concurrency\<close> runs any number of redemptions at once, their phases interleaved.
  \<^item> \<open>RateLimiter\<close>, \<open>Handlers\<close>, \<open>Middleware\<close>, \<open>Api\<close> (\<open>internal/api\<close>): the limiter, the handlers, the
    middlewares and the route table; \<open>ServeHTTP\<close> maps a request and the server to the response
    and the server after it. \<open>Replies\<close> states what all responses have in common as the locale
    \<open>reply_contract\<close>, \<open>BodyLimit\<close> that bodies are read up to the limit only, \<open>ApiProperties\<close> what
    clients can rely on, \<open>ServerRuns\<close> what no run of requests changes (locale
    \<open>server_invariant\<close>), \<open>Logger\<close>, \<open>RequestLog\<close> and \<open>ServerLog\<close> (\<open>pkg/logger\<close>) what requests log,
    over contexts that carry a logger; \<open>ServeHTTP_log\<close> refines \<open>ServeHTTP\<close>;
    \<open>ApiSamples\<close> is the server the witnesses use.
  \<^item> \<open>ClientState\<close>, \<open>StateFile\<close>, \<open>Client\<close>, \<open>Cli\<close> (\<open>pkg/client\<close>, \<open>cmd/bv\<close>): the pending requests and
    their file, the client, its commands. \<open>StateFile\<close> refines the state and its file to an
    abstract book. \<open>ClientServer\<close> and \<open>ClientProperties\<close> run the client against the server.
  \<^item> \<open>Startup\<close> (\<open>cmd/server\<close>): from files and environment to a running server or an exit; \<open>StartLog\<close> the
    whole command, its flags and the lines it logs included.
    \<open>Connect\<close> (\<open>internal/storage/redis.go\<close>): the clients it gets from Redis.
  \<^item> \<open>TestClient\<close>, \<open>EndToEnd\<close> (\<open>cmd/testclient\<close>): the end-to-end test and its run against the server.
    \<open>Vectors\<close> (\<open>scripts/generate_vectors.go\<close>): the generator of test vectors.

  \<^bold>\<open>State.\<close> State is passed explicitly. The service is a record of configuration, stores and
  metrics; the server adds the token validator, the rate limiter and the demo store. What an
  operation reads from outside is an argument: readings of the clock (numbered in the order of
  the code), randomness, a new UUID, the iteration order of a map, the outcome of a file write.
  The metrics reporter and the revocation store of the server are the service's own, as
  \<open>NewServer\<close> makes them.

  \<^bold>\<open>What is shown.\<close> The cryptography: blinding and unblinding cancel, verification is exact,
  proofs are complete and specially sound, blinding hides. The stores: a nullifier is accepted at
  most once, a revocation stays in force, in any run and under failures. The service: a redemption
  is accepted exactly under its conditions; replay protection and revocation hold in every
  interleaving of concurrent requests. The interface: access control, one typed response to
  every request, opaque server errors, body limits, and replay protection and revocation as a
  client sees them. The log: the server does not depend on it, its lines name their request,
  those of a redemption hold nothing of the credential, and those of a start nothing secret. The client: its file is a refinement of an abstract book, and a credential
  can be followed from the blinding over a restart to the answer of the redemption. The
  end-to-end test passes against the modelled server, and the written test vectors are redeemable. Some theorems
  and lemmas pin down where the code does not do what it is meant to, among them
  \<open>rescaled_credential_accepted\<close>, \<open>configured_expiry_misread\<close> and \<open>torn_write_locks_out\<close>.

  \<^bold>\<open>Termination.\<close> Loops over data are structural or have a measure. The scan of the Redis store
  may go on for ever; it is a \<open>partial_function (option)\<close>, its result is characterised, and a
  handler that waits for it is \<open>Hung\<close>. No fuel is used.

  \<^bold>\<open>Parameters.\<close> Code outside the repository is a parameter with its documented behaviour as a
  named hypothesis: the curve library (\<open>blst_laws\<close>, and
  \<open>core_verify_law\<close> for its verification of messages), the sealed memory (\<open>memguard_laws\<close>, and
  \<open>locked_memory_laws\<close> with its buffers), the Redis
  client (\<open>redis_laws\<close>), the validator (\<open>validator_laws\<close>), the token library (\<open>jwt_laws\<close>, \<open>jwt_sign_law\<close>), the rate
  library, the registry of metrics (\<open>registry_law\<close>), the JSON form of stored revocations (\<open>entry_json_laws\<close>), the printing of times in the
  server's zone, the wording of JSON errors, YAML and environment files. Each hypothesis has a
  concrete instance that the witnesses use.

  \<^bold>\<open>Not modelled.\<close> What commands print to the standard error; the rendering of metrics, which is the Prometheus library's; listening, timeouts
  of connections and the transport below HTTP; the redirects of the multiplexer for paths that
  are not clean; what the Redis client does to connect; the panic of the metrics library on a
  label that is not UTF-8; the client for browsers in \<open>js_client\<close>, which is another language.
\<close>

end
